(* ===== verification/Vault_Prelude.thy ===== *)
theory Vault_Prelude
  imports Main "HOL-Library.Word" "HOL-Library.AList"
begin

text \<open>
  What every component shares: machine integers, instants, the result type of
  fallible Rust code and its \<^verbatim>\<open>?\<close> operator, \<^verbatim>\<open>HashMap\<close> as an association list
  with distinct keys behind the interface \<open>keyed_map\<close>, the string operations of
  the standard library that the sources call, and the platform's error
  hierarchy (\<^verbatim>\<open>crates/wslvault-core/src/error.rs\<close>).

  A Rust \<^verbatim>\<open>str\<close> is the list of its characters. The characters of the model are
  8-bit: code points above 255 are not represented. Integers keep their width
  where the code computes with them (\<open>u8\<close>, \<open>u32\<close> are words, and \<open>+\<close> wraps, as in
  a release build). A \<^verbatim>\<open>DateTime<Utc>\<close> is an \<open>int\<close>, the number of nanoseconds since
  the epoch.
\<close>

named_theorems vault_simps
named_theorems result_iff

type_synonym u8 = "8 word"
type_synonym u32 = "32 word"
type_synonym datetime = int
type_synonym ('k, 'v) hash_map = "('k \<times> 'v) list"

section \<open>Results\<close>

text \<open>\<^verbatim>\<open>Result<T, E>\<close> is \<open>'e + 'a\<close>. \<open>and_then\<close> is what \<^verbatim>\<open>?\<close> and \<^verbatim>\<open>and_then\<close> do,
  \<open>ok_or\<close> turns an option into a result.\<close>

definition and_then :: "'e + 'a \<Rightarrow> ('a \<Rightarrow> 'e + 'b) \<Rightarrow> 'e + 'b" where
  "and_then r f = (case r of Inl e \<Rightarrow> Inl e | Inr x \<Rightarrow> f x)"

definition ok_or :: "'e \<Rightarrow> 'a option \<Rightarrow> 'e + 'a" where
  "ok_or e x = (case x of None \<Rightarrow> Inl e | Some v \<Rightarrow> Inr v)"

lemma and_then_simps [simp]:
  "and_then (Inl e) f = Inl e"
  "and_then (Inr x) f = f x"
  by (simp_all add: and_then_def)

lemma ok_or_simps [simp]:
  "ok_or e None = Inl e"
  "ok_or e (Some v) = Inr v"
  by (simp_all add: ok_or_def)

lemma and_then_Inr_iff [result_iff]:
  "and_then r f = Inr y \<longleftrightarrow> (\<exists>x. r = Inr x \<and> f x = Inr y)"
  by (cases r) simp_all

lemma and_then_Inl_iff [result_iff]:
  "and_then r f = Inl e \<longleftrightarrow> r = Inl e \<or> (\<exists>x. r = Inr x \<and> f x = Inl e)"
  by (cases r) simp_all

lemma ok_or_Inr_iff [result_iff]: "ok_or e x = Inr v \<longleftrightarrow> x = Some v"
  by (cases x) simp_all

lemma ok_or_Inl_iff [result_iff]: "ok_or e x = Inl e' \<longleftrightarrow> x = None \<and> e' = e"
  by (cases x) auto

section \<open>Hash maps\<close>

text \<open>
  A \<^verbatim>\<open>HashMap\<close> is an association list with distinct keys (\<open>hm_ok\<close>). Iteration visits
  the pairs in list order; Rust leaves the order open, so nothing that is proved
  of an iteration depends on it.
\<close>

definition hm_ok :: "('k, 'v) hash_map \<Rightarrow> bool" where
  "hm_ok m \<longleftrightarrow> distinct (map fst m)"

abbreviation hm_get :: "('k, 'v) hash_map \<Rightarrow> 'k \<Rightarrow> 'v option" where
  "hm_get \<equiv> map_of"

abbreviation hm_insert :: "'k \<Rightarrow> 'v \<Rightarrow> ('k, 'v) hash_map \<Rightarrow> ('k, 'v) hash_map" where
  "hm_insert \<equiv> AList.update"

abbreviation hm_remove :: "'k \<Rightarrow> ('k, 'v) hash_map \<Rightarrow> ('k, 'v) hash_map" where
  "hm_remove \<equiv> AList.delete"

text \<open>\<^verbatim>\<open>for v in m.values_mut()\<close>: every value is replaced, the keys stay.\<close>

definition hm_map_values :: "('v \<Rightarrow> 'v) \<Rightarrow> ('k, 'v) hash_map \<Rightarrow> ('k, 'v) hash_map" where
  "hm_map_values f m = map (\<lambda>(k, v). (k, f v)) m"

lemma hm_get_insert [simp]:
  "hm_get (hm_insert k v m) k' = (if k' = k then Some v else hm_get m k')"
  by (simp add: update_conv)

lemma hm_get_remove [simp]:
  "hm_get (hm_remove k m) k' = (if k' = k then None else hm_get m k')"
  by (simp add: delete_conv')

lemma hm_ok_Nil [simp, intro]: "hm_ok []"
  by (simp add: hm_ok_def)

lemma hm_ok_insert [simp, intro]: "hm_ok m \<Longrightarrow> hm_ok (hm_insert k v m)"
  by (simp add: hm_ok_def distinct_update)

lemma hm_ok_remove [simp, intro]: "hm_ok m \<Longrightarrow> hm_ok (hm_remove k m)"
  by (simp add: hm_ok_def distinct_delete)

lemma hm_get_iff: "hm_ok m \<Longrightarrow> hm_get m k = Some v \<longleftrightarrow> (k, v) \<in> set m"
  by (simp add: hm_ok_def)

lemma hm_keys_map_values [simp]: "map fst (hm_map_values f m) = map fst m"
  by (induction m) (auto simp: hm_map_values_def)

lemma hm_ok_map_values [simp]: "hm_ok (hm_map_values f m) \<longleftrightarrow> hm_ok m"
  by (simp add: hm_ok_def)

lemma hm_get_map_values [simp]:
  "hm_get (hm_map_values f m) k = map_option f (hm_get m k)"
  by (induction m) (auto simp: hm_map_values_def)

text \<open>The interface the stores rely on, and what follows from it for a store whose
  keys start with the owning tenant.\<close>

locale keyed_map =
  fixes lookup :: "'m \<Rightarrow> 'k \<Rightarrow> 'v option"
    and insert :: "'k \<Rightarrow> 'v \<Rightarrow> 'm \<Rightarrow> 'm"
    and remove :: "'k \<Rightarrow> 'm \<Rightarrow> 'm"
    and ok :: "'m \<Rightarrow> bool"
    and empty :: 'm
  assumes lookup_empty: "lookup empty k = None"
    and ok_empty: "ok empty"
    and lookup_insert: "ok m \<Longrightarrow> lookup (insert k v m) k' = (if k' = k then Some v else lookup m k')"
    and lookup_remove: "ok m \<Longrightarrow> lookup (remove k m) k' = (if k' = k then None else lookup m k')"
    and ok_insert: "ok m \<Longrightarrow> ok (insert k v m)"
    and ok_remove: "ok m \<Longrightarrow> ok (remove k m)"
begin

lemma ok_fold_insert: "ok m \<Longrightarrow> ok (fold (\<lambda>(k, v). insert k v) kvs m)"
  by (induction kvs arbitrary: m) (auto simp: ok_insert)

text \<open>Inserting a sequence of bindings one after the other: the last binding of a
  key wins, the other keys keep what they had.\<close>

lemma lookup_fold_insert:
  "ok m \<Longrightarrow> lookup (fold (\<lambda>(k, v). insert k v) kvs m) k =
     (case map_of (rev kvs) k of Some v \<Rightarrow> Some v | None \<Rightarrow> lookup m k)"
proof (induction kvs arbitrary: m)
  case Nil
  then show ?case by simp
next
  case (Cons kv kvs)
  obtain k0 v0 where kv: "kv = (k0, v0)" by (cases kv)
  from Cons.prems have "ok (insert k0 v0 m)" by (rule ok_insert)
  from Cons.IH [OF this] Cons.prems show ?case
    by (auto simp: kv lookup_insert map_add_def split: option.splits)
qed

lemma insert_frame: "ok m \<Longrightarrow> k' \<noteq> k \<Longrightarrow> lookup (insert k v m) k' = lookup m k'"
  by (simp add: lookup_insert)

lemma remove_frame: "ok m \<Longrightarrow> k' \<noteq> k \<Longrightarrow> lookup (remove k m) k' = lookup m k'"
  by (simp add: lookup_remove)

end

interpretation hm: keyed_map map_of AList.update AList.delete hm_ok "[]"
  by unfold_locales simp_all

section \<open>Tenants that do not interfere\<close>

text \<open>
  Several services keep one store for all tenants. What a tenant can observe of the
  store is \<open>view s t\<close>. If no step of another tenant changes the view, and a step's
  effect on its owner's view depends on that view only, then the other tenants'
  steps can be deleted from any run without the tenant noticing.
\<close>

locale tenant_system =
  fixes step :: "'op \<Rightarrow> 's \<Rightarrow> 's"
    and owner :: "'op \<Rightarrow> 't"
    and view :: "'s \<Rightarrow> 't \<Rightarrow> 'v"
    and ok :: "'s \<Rightarrow> bool"
  assumes ok_step: "ok s \<Longrightarrow> ok (step op s)"
    and frame: "ok s \<Longrightarrow> owner op \<noteq> t \<Longrightarrow> view (step op s) t = view s t"
    and local_step: "ok s \<Longrightarrow> ok s' \<Longrightarrow> view s (owner op) = view s' (owner op) \<Longrightarrow>
      view (step op s) (owner op) = view (step op s') (owner op)"
begin

lemma ok_run: "ok s \<Longrightarrow> ok (fold step ops s)"
  by (induction ops arbitrary: s) (simp_all add: ok_step)

lemma run_purge:
  "ok s \<Longrightarrow> ok s' \<Longrightarrow> view s t = view s' t \<Longrightarrow>
     view (fold step ops s) t = view (fold step (filter (\<lambda>op. owner op = t) ops) s') t"
proof (induction ops arbitrary: s s')
  case (Cons op ops)
  show ?case
  proof (cases "owner op = t")
    case True
    with Cons.prems local_step [of s s' op] have "view (step op s) t = view (step op s') t" by simp
    with Cons.IH [OF ok_step ok_step] Cons.prems True show ?thesis by simp
  next
    case False
    with Cons.prems frame have "view (step op s) t = view s' t" by simp
    with Cons.IH [of "step op s" s'] ok_step [of s op] Cons.prems False show ?thesis by simp
  qed
qed simp

lemma noninterference:
  "ok s \<Longrightarrow> view (fold step ops s) t = view (fold step (filter (\<lambda>op. owner op = t) ops) s) t"
  by (rule run_purge) simp_all

end

section \<open>Strings\<close>

text \<open>\<^verbatim>\<open>str::split(c)\<close>: always at least one piece, the empty string has one empty piece.\<close>

fun split_on :: "char \<Rightarrow> string \<Rightarrow> string list" where
  "split_on c [] = [[]]"
| "split_on c (x # xs) =
     (if x = c then [] # split_on c xs
      else case split_on c xs of [] \<Rightarrow> [[x]] | y # ys \<Rightarrow> (x # y) # ys)"

fun join_with :: "char \<Rightarrow> string list \<Rightarrow> string" where
  "join_with c [] = []"
| "join_with c [s] = s"
| "join_with c (s # t # ss) = s @ c # join_with c (t # ss)"

text \<open>\<^verbatim>\<open>match s.find(c) { Some(pos) => (&s[..pos], &s[pos + 1..]), .. }\<close>\<close>

fun split_once :: "char \<Rightarrow> string \<Rightarrow> (string \<times> string) option" where
  "split_once c [] = None"
| "split_once c (x # xs) =
     (if x = c then Some ([], xs)
      else case split_once c xs of None \<Rightarrow> None | Some (a, b) \<Rightarrow> Some (x # a, b))"

definition starts_with :: "string \<Rightarrow> string \<Rightarrow> bool" where
  "starts_with s p \<longleftrightarrow> take (length p) s = p"

definition strip_prefix :: "string \<Rightarrow> string \<Rightarrow> string option" where
  "strip_prefix p s = (if starts_with s p then Some (drop (length p) s) else None)"

text \<open>\<^verbatim>\<open>trim_matches(c)\<close> and \<^verbatim>\<open>trim()\<close>; the whitespace below U+0100.\<close>

definition trim_where :: "(char \<Rightarrow> bool) \<Rightarrow> string \<Rightarrow> string" where
  "trim_where p s = rev (dropWhile p (rev (dropWhile p s)))"

definition is_whitespace :: "char \<Rightarrow> bool" where
  "is_whitespace ch \<longleftrightarrow>
     (let n = (of_char ch :: nat) in (9 \<le> n \<and> n \<le> 13) \<or> n = 32 \<or> n = 133 \<or> n = 160)"

definition trim :: "string \<Rightarrow> string" where
  "trim s = trim_where is_whitespace s"

lemma split_on_not_Nil [simp]: "split_on c s \<noteq> []"
  by (induction s) (auto split: list.splits)

lemma join_with_Cons: "ss \<noteq> [] \<Longrightarrow> join_with c (s # ss) = s @ c # join_with c ss"
  by (cases ss) simp_all

lemma join_split [simp]: "join_with c (split_on c s) = s"
proof (induction s)
  case Nil
  then show ?case by simp
next
  case (Cons x xs)
  obtain y ys where eq: "split_on c xs = y # ys" by (cases "split_on c xs") auto
  with Cons.IH show ?case by (cases ys) auto
qed

lemma split_on_no_sep: "p \<in> set (split_on c s) \<Longrightarrow> c \<notin> set p"
  by (induction s arbitrary: p) (fastforce split: if_splits list.splits)+

lemma split_on_absent: "c \<notin> set s \<Longrightarrow> split_on c s = [s]"
  by (induction s) auto

lemma split_on_append: "c \<notin> set a \<Longrightarrow> split_on c (a @ c # b) = a # split_on c b"
  by (induction a) auto

lemma split_join:
  "ss \<noteq> [] \<Longrightarrow> \<forall>s\<in>set ss. c \<notin> set s \<Longrightarrow> split_on c (join_with c ss) = ss"
proof (induction ss rule: join_with.induct)
  case (3 c s t ss)
  then show ?case by (simp add: split_on_append)
qed (simp_all add: split_on_absent)

lemma split_once_None: "split_once c s = None \<longleftrightarrow> c \<notin> set s"
  by (induction s) (auto split: option.splits)

lemma split_once_append [simp]: "c \<notin> set a \<Longrightarrow> split_once c (a @ c # b) = Some (a, b)"
  by (induction a) auto

lemma split_once_SomeD: "split_once c s = Some (a, b) \<Longrightarrow> s = a @ c # b \<and> c \<notin> set a"
  by (induction s arbitrary: a) (auto split: if_splits option.splits)

lemma split_once_Some:
  "split_once c s = Some (a, b) \<longleftrightarrow> s = a @ c # b \<and> c \<notin> set a"
  using split_once_SomeD by auto

lemma split_once_split_on:
  "split_on c s = (case split_once c s of None \<Rightarrow> [s] | Some (a, b) \<Rightarrow> a # split_on c b)"
proof (cases "split_once c s")
  case None
  then have "c \<notin> set s" by (simp add: split_once_None)
  with None show ?thesis by (simp add: split_on_absent)
next
  case (Some ab)
  then obtain a b where "split_once c s = Some (a, b)" by (cases ab) simp
  moreover from this have "s = a @ c # b" and "c \<notin> set a" by (auto dest: split_once_SomeD)
  ultimately show ?thesis by (simp add: split_on_append)
qed

lemma split_once_length: "split_once c s = Some (a, b) \<Longrightarrow> length b < length s"
  by (auto simp: split_once_Some)

lemma starts_with_iff: "starts_with s p \<longleftrightarrow> (\<exists>r. s = p @ r)"
proof
  assume "starts_with s p"
  then have "s = p @ drop (length p) s"
    using append_take_drop_id [of "length p" s] by (simp add: starts_with_def)
  then show "\<exists>r. s = p @ r" ..
qed (auto simp: starts_with_def)

lemma trim_where_hd:
  assumes "trim_where p s \<noteq> []"
  shows "\<not> p (hd (trim_where p s))"
proof -
  define d where "d = dropWhile p s"
  have "d = rev (takeWhile p (rev d) @ dropWhile p (rev d))" by simp
  also have "\<dots> = trim_where p s @ rev (takeWhile p (rev d))"
    by (simp only: rev_append trim_where_def d_def)
  finally have d: "d = trim_where p s @ rev (takeWhile p (rev d))" .
  with assms have "d \<noteq> []" by auto
  then have "\<not> p (hd d)" unfolding d_def by (rule hd_dropWhile)
  moreover from d assms have "hd d = hd (trim_where p s)" by (metis hd_append2)
  ultimately show ?thesis by simp
qed

lemma trim_where_last:
  assumes "trim_where p s \<noteq> []"
  shows "\<not> p (last (trim_where p s))"
proof -
  from assms have "dropWhile p (rev (dropWhile p s)) \<noteq> []" by (simp only: trim_where_def rev_is_Nil_conv not_False_eq_True)
  then have "\<not> p (hd (dropWhile p (rev (dropWhile p s))))" by (rule hd_dropWhile)
  then show ?thesis by (simp only: trim_where_def last_rev not_False_eq_True)
qed

lemma trim_where_id:
  assumes "s = [] \<or> (\<not> p (hd s) \<and> \<not> p (last s))"
  shows "trim_where p s = s"
proof -
  from assms have "dropWhile p s = s" by (auto simp: dropWhile_eq_self_iff)
  moreover from assms have "dropWhile p (rev s) = rev s"
    by (auto simp: dropWhile_eq_self_iff hd_rev)
  ultimately show ?thesis by (simp add: trim_where_def)
qed

lemma trim_where_idem [simp]: "trim_where p (trim_where p s) = trim_where p s"
  by (rule trim_where_id) (use trim_where_hd trim_where_last in blast)

section \<open>Decimal numbers\<close>

text \<open>\<^verbatim>\<open>format!("{}", n)\<close> and \<^verbatim>\<open>str::parse::<u32>()\<close>. The parser takes an optional
  plus sign, wants at least one digit and refuses a value of more than 32 bits.\<close>

definition digit_char :: "nat \<Rightarrow> char" where
  "digit_char d = char_of (48 + d)"

definition digit_val :: "char \<Rightarrow> nat option" where
  "digit_val ch = (let n = (of_char ch :: nat) in if 48 \<le> n \<and> n \<le> 57 then Some (n - 48) else None)"

fun show_nat :: "nat \<Rightarrow> string" where
  "show_nat n = (if n < 10 then [digit_char n] else show_nat (n div 10) @ [digit_char (n mod 10)])"

declare show_nat.simps [simp del]

fun digits_val :: "nat \<Rightarrow> string \<Rightarrow> nat option" where
  "digits_val acc [] = Some acc"
| "digits_val acc (ch # s) =
     (case digit_val ch of None \<Rightarrow> None | Some d \<Rightarrow> digits_val (10 * acc + d) s)"

text \<open>\<^verbatim>\<open>str::parse\<close> at an unsigned type with that many values.\<close>

definition parse_unsigned :: "nat \<Rightarrow> string \<Rightarrow> nat option" where
  "parse_unsigned bound s =
     (let body = (case s of [] \<Rightarrow> [] | ch # r \<Rightarrow> if ch = CHR ''+'' then r else s)
      in if body = [] then None
         else case digits_val 0 body of
                None \<Rightarrow> None
              | Some n \<Rightarrow> if n < bound then Some n else None)"

definition parse_u32 :: "string \<Rightarrow> u32 option" where
  "parse_u32 s = map_option of_nat (parse_unsigned (2 ^ 32) s)"

lemma digit_val_char [simp]: "d < 10 \<Longrightarrow> digit_val (digit_char d) = Some d"
  by (simp add: digit_val_def digit_char_def Let_def)

lemma digits_val_append:
  "digits_val acc (s @ t) = (case digits_val acc s of None \<Rightarrow> None | Some n \<Rightarrow> digits_val n t)"
  by (induction s arbitrary: acc) (auto split: option.splits)

lemma digits_val_show_nat: "digits_val 0 (show_nat n) = Some n"
proof (induction n rule: show_nat.induct)
  case (1 n)
  then show ?case
    by (cases "n < 10") (simp_all add: show_nat.simps [of n] digits_val_append)
qed

lemma digit_char_neq:
  "d < 10 \<Longrightarrow> ch \<in> {CHR ''+'', CHR '':'', CHR ''/'', CHR ''-'', CHR 0x00} \<Longrightarrow> digit_char d \<noteq> ch"
proof -
  assume d: "d < 10" and ch: "ch \<in> {CHR ''+'', CHR '':'', CHR ''/'', CHR ''-'', CHR 0x00}"
  from d have "(of_char (digit_char d) :: nat) = 48 + d" by (simp add: digit_char_def)
  with d ch show ?thesis by auto
qed

lemma show_nat_avoids:
  "ch \<in> {CHR ''+'', CHR '':'', CHR ''/'', CHR ''-'', CHR 0x00} \<Longrightarrow> ch \<notin> set (show_nat n)"
proof (induction n rule: show_nat.induct)
  case (1 n)
  show ?case
  proof (cases "n < 10")
    case True
    with 1 show ?thesis using digit_char_neq [of n ch] by (auto simp: show_nat.simps [of n])
  next
    case False
    with 1 have "ch \<notin> set (show_nat (n div 10))" by blast
    with False 1 show ?thesis
      using digit_char_neq [of "n mod 10" ch] by (auto simp: show_nat.simps [of n])
  qed
qed

lemma show_nat_not_Nil [simp]: "show_nat n \<noteq> []"
  by (subst show_nat.simps) simp

lemma show_nat_inj: "show_nat m = show_nat n \<longleftrightarrow> m = n"
  using digits_val_show_nat by (metis option.inject)

lemma parse_u32_show [simp]: "parse_u32 (show_nat (unat w)) = Some w"
proof -
  have plus: "CHR ''+'' \<notin> set (show_nat (unat w))" by (rule show_nat_avoids) simp
  have bound: "unat w < 2 ^ 32" using unsigned_less [of w] by simp
  obtain ch r where eq: "show_nat (unat w) = ch # r" by (cases "show_nat (unat w)") auto
  from eq plus have "ch \<noteq> CHR ''+''" by auto
  moreover from eq have "digits_val 0 (ch # r) = Some (unat w)"
    using digits_val_show_nat [of "unat w"] by simp
  ultimately show ?thesis
    using bound by (simp add: parse_u32_def parse_unsigned_def eq del: digits_val.simps)
qed

section \<open>The error hierarchy\<close>

datatype vault_error =
    Sealed
  | Unauthenticated string
  | PermissionDenied string string
  | SecretNotFound string "u32 option"
  | TenantNotFound string
  | KeyNotFound string
  | LeaseNotFound string
  | EncryptionFailed string
  | DecryptionFailed
  | KeyRotationFailed string
  | InvalidPath string string
  | CasConflict u32 u32
  | VersionDestroyed u32
  | ValidationError string string
  | InvalidOperation string
  | QuotaExceeded string
  | Database string
  | Storage string
  | ServiceUnavailable string
  | LeaseExpired string
  | UnsupportedOperation string string
  | Internal string
  | Other string

fun error_code :: "vault_error \<Rightarrow> string" where
  "error_code Sealed = ''sealed''"
| "error_code (Unauthenticated _) = ''unauthenticated''"
| "error_code (PermissionDenied _ _) = ''permission_denied''"
| "error_code (SecretNotFound _ _) = ''not_found''"
| "error_code (TenantNotFound _) = ''not_found''"
| "error_code (KeyNotFound _) = ''not_found''"
| "error_code (LeaseNotFound _) = ''not_found''"
| "error_code (EncryptionFailed _) = ''encryption_failed''"
| "error_code DecryptionFailed = ''decryption_failed''"
| "error_code (KeyRotationFailed _) = ''key_rotation_failed''"
| "error_code (InvalidPath _ _) = ''invalid_path''"
| "error_code (CasConflict _ _) = ''cas_conflict''"
| "error_code (VersionDestroyed _) = ''version_destroyed''"
| "error_code (ValidationError _ _) = ''validation_error''"
| "error_code (InvalidOperation _) = ''invalid_operation''"
| "error_code (QuotaExceeded _) = ''quota_exceeded''"
| "error_code (Database _) = ''database_error''"
| "error_code (Storage _) = ''storage_error''"
| "error_code (ServiceUnavailable _) = ''service_unavailable''"
| "error_code (LeaseExpired _) = ''lease_expired''"
| "error_code (UnsupportedOperation _ _) = ''unsupported_operation''"
| "error_code (Internal _) = ''internal_error''"
| "error_code (Other _) = ''internal_error''"

fun http_status :: "vault_error \<Rightarrow> nat" where
  "http_status Sealed = 503"
| "http_status (Unauthenticated _) = 401"
| "http_status (PermissionDenied _ _) = 403"
| "http_status (SecretNotFound _ _) = 404"
| "http_status (TenantNotFound _) = 404"
| "http_status (KeyNotFound _) = 404"
| "http_status (LeaseNotFound _) = 404"
| "http_status (CasConflict _ _) = 409"
| "http_status (VersionDestroyed _) = 410"
| "http_status (QuotaExceeded _) = 429"
| "http_status (ValidationError _ _) = 400"
| "http_status (InvalidPath _ _) = 400"
| "http_status (InvalidOperation _) = 400"
| "http_status (ServiceUnavailable _) = 503"
| "http_status (LeaseExpired _) = 403"
| "http_status _ = 500"

text \<open>The messages of the hierarchy. The debug format of a path is given without its escapes.\<close>

definition show_debug :: "string \<Rightarrow> string" where
  "show_debug s = [CHR 0x22] @ s @ [CHR 0x22]"

fun error_to_string :: "vault_error \<Rightarrow> string" where
  "error_to_string Sealed = ''vault is sealed''"
| "error_to_string (Unauthenticated reason) = ''authentication required: '' @ reason"
| "error_to_string (PermissionDenied resource reason) = ''permission denied on '' @ resource @ '': '' @ reason"
| "error_to_string (SecretNotFound path version) = ''secret not found at path '' @ show_debug path @ '' (version '' @
     (case version of None \<Rightarrow> ''None'' | Some v \<Rightarrow> ''Some('' @ show_nat (unat v) @ '')'') @ '')''"
| "error_to_string (TenantNotFound tenant_id) = ''tenant not found: '' @ tenant_id"
| "error_to_string (KeyNotFound key_id) = ''key not found: '' @ key_id"
| "error_to_string (LeaseNotFound lease_id) = ''lease not found: '' @ lease_id"
| "error_to_string (EncryptionFailed reason) = ''encryption failed: '' @ reason"
| "error_to_string DecryptionFailed = ''decryption failed: invalid ciphertext or key''"
| "error_to_string (KeyRotationFailed reason) = ''key rotation failed: '' @ reason"
| "error_to_string (InvalidPath path reason) = ''invalid path '' @ show_debug path @ '': '' @ reason"
| "error_to_string (CasConflict expected actual) =
     ''check-and-set conflict: expected version '' @ show_nat (unat expected) @ '', got '' @ show_nat (unat actual)"
| "error_to_string (VersionDestroyed version) = ''secret version '' @ show_nat (unat version) @ '' has been destroyed''"
| "error_to_string (ValidationError field reason) = ''validation error: '' @ field @ '': '' @ reason"
| "error_to_string (InvalidOperation reason) = ''invalid operation: '' @ reason"
| "error_to_string (QuotaExceeded reason) = ''quota exceeded: '' @ reason"
| "error_to_string (Database reason) = ''database error: '' @ reason"
| "error_to_string (Storage reason) = ''storage error: '' @ reason"
| "error_to_string (ServiceUnavailable service) = ''upstream service unavailable: '' @ service"
| "error_to_string (LeaseExpired lease_id) = ''lease expired: '' @ lease_id"
| "error_to_string (UnsupportedOperation engine_type operation) =
     ''operation not supported by engine '' @ engine_type @ '': '' @ operation"
| "error_to_string (Internal reason) = ''internal error: '' @ reason"
| "error_to_string (Other err) = err"

section \<open>Letter case and signed numerals\<close>

definition to_lower_char :: "char \<Rightarrow> char" where
  "to_lower_char ch =
     (let n = (of_char ch :: nat) in if 65 \<le> n \<and> n \<le> 90 then char_of (n + 32) else ch)"

definition ascii_upper :: "char \<Rightarrow> char" where
  "ascii_upper c = (let n = (of_char c :: nat) in if 97 \<le> n \<and> n \<le> 122 then char_of (n - 32) else c)"

definition show_int :: "int \<Rightarrow> string" where
  "show_int i = (if i < 0 then CHR ''-'' # show_nat (nat (- i)) else show_nat (nat i))"

section \<open>Status of a remote call\<close>

text \<open>\<^verbatim>\<open>tonic::Status\<close>: the codes the handlers use, each with its message.\<close>

datatype grpc_status = InvalidArgument string | NotFound string | FailedPrecondition string
  | PermissionDeniedStatus string | InternalStatus string | Unavailable string
  | UnauthenticatedStatus string | AlreadyExists string | ResourceExhausted string

end
