(* ===== verification/Secret_Path.thy ===== *)
theory Secret_Path
  imports Vault_Prelude
begin

text \<open>
  Normalisation and validation of KV secret paths
  (\<^verbatim>\<open>services/secret-engine/src/path.rs\<close>). A path that passes has a canonical form:
  no slash at either end, no empty segment, no \<^verbatim>\<open>..\<close> segment and only the permitted
  characters. \<open>canonical_path\<close> is that contract, stated on the list of segments.
\<close>

section \<open>The operations\<close>

text \<open>The loop over the segments stops at the first bad one; the error carries the
  raw path, not the trimmed one.\<close>

fun check_segments :: "string \<Rightarrow> string list \<Rightarrow> vault_error + unit" where
  "check_segments raw [] = Inr ()"
| "check_segments raw (segment # segments) =
     (if segment = [] then
        Inl (InvalidPath raw ''path must not contain empty segments (//)'')
      else if segment = ''..'' then
        Inl (InvalidPath raw ''path must not contain '..' traversal segments'')
      else check_segments raw segments)"

definition normalize_path :: "string \<Rightarrow> vault_error + string" where
  "normalize_path raw =
     (let trimmed = trim_where (\<lambda>ch. ch = CHR ''/'') raw in
      if trimmed = [] then Inl (InvalidPath raw ''path must not be empty'')
      else and_then (check_segments raw (split_on CHR ''/'' trimmed)) (\<lambda>_. Inr trimmed))"

definition is_ascii_alphanumeric :: "char \<Rightarrow> bool" where
  "is_ascii_alphanumeric ch \<longleftrightarrow>
     (let n = (of_char ch :: nat)
      in (48 \<le> n \<and> n \<le> 57) \<or> (65 \<le> n \<and> n \<le> 90) \<or> (97 \<le> n \<and> n \<le> 122))"

definition path_char_ok :: "char \<Rightarrow> bool" where
  "path_char_ok ch \<longleftrightarrow>
     is_ascii_alphanumeric ch \<or> ch = CHR ''-'' \<or> ch = CHR ''_'' \<or> ch = CHR ''.'' \<or> ch = CHR ''/''"

definition validate_path :: "string \<Rightarrow> vault_error + unit" where
  "validate_path path =
     (case find (\<lambda>ch. \<not> path_char_ok ch) path of
        None \<Rightarrow> Inr ()
      | Some ch \<Rightarrow> Inl (InvalidPath path
          (''character '' @ [CHR 0x27, ch, CHR 0x27] @
           '' is not allowed; only alphanumeric, '-', '_', '.', and '/' are permitted'')))"

definition normalize_and_validate :: "string \<Rightarrow> vault_error + string" where
  "normalize_and_validate raw =
     and_then (normalize_path raw) (\<lambda>normalized.
       and_then (validate_path normalized) (\<lambda>_. Inr normalized))"

section \<open>The contract\<close>

definition canonical_path :: "string \<Rightarrow> bool" where
  "canonical_path p \<longleftrightarrow>
     p \<noteq> [] \<and> (\<forall>segment\<in>set (split_on CHR ''/'' p). segment \<noteq> [] \<and> segment \<noteq> ''..'')"

section \<open>Lemmas\<close>

lemma trim_decomp:
  "\<exists>m n. s = replicate m c @ trim_where (\<lambda>ch. ch = c) s @ replicate n c"
proof -
  let ?p = "\<lambda>ch. ch = c"
  let ?d = "dropWhile ?p s"
  have same: "takeWhile ?p t = replicate (length (takeWhile ?p t)) c" for t
    by (rule replicate_length_same [symmetric]) (auto dest: set_takeWhileD)
  have s: "s = takeWhile ?p s @ ?d" by simp
  have "?d = rev (takeWhile ?p (rev ?d) @ dropWhile ?p (rev ?d))" by simp
  also have "\<dots> = trim_where ?p s @ rev (takeWhile ?p (rev ?d))"
    by (simp only: rev_append trim_where_def)
  also have "rev (takeWhile ?p (rev ?d)) = replicate (length (takeWhile ?p (rev ?d))) c"
    by (subst same) (simp del: length_rev)
  finally have "s = replicate (length (takeWhile ?p s)) c @ trim_where ?p s @
      replicate (length (takeWhile ?p (rev ?d))) c"
    using s same [of s] by metis
  then show ?thesis by blast
qed

lemma trim_padded:
  assumes "p \<noteq> []" "hd p \<noteq> c" "last p \<noteq> c"
  shows "trim_where (\<lambda>ch. ch = c) (replicate m c @ p @ replicate n c) = p"
proof -
  have drop: "dropWhile (\<lambda>ch. ch = c) (replicate k c @ q) = q" if "q \<noteq> []" "hd q \<noteq> c" for k q
    using that by (induction k) (auto simp: dropWhile_eq_self_iff)
  have "dropWhile (\<lambda>ch. ch = c) (replicate m c @ p @ replicate n c) = p @ replicate n c"
    using assms by (intro drop) auto
  moreover have "dropWhile (\<lambda>ch. ch = c) (rev (p @ replicate n c)) = rev p"
    using assms drop [of "rev p" n] by (simp add: hd_rev)
  ultimately show ?thesis by (simp add: trim_where_def)
qed

lemma split_on_snoc_sep: "split_on c (s @ [c]) = split_on c s @ [[]]"
  by (induction s) (auto split: list.splits)

lemma canonical_path_ends:
  assumes "canonical_path p"
  shows "hd p \<noteq> CHR ''/''" and "last p \<noteq> CHR ''/''"
proof -
  from assms have ne: "p \<noteq> []" and segs: "[] \<notin> set (split_on CHR ''/'' p)"
    by (auto simp: canonical_path_def)
  then show "hd p \<noteq> CHR ''/''" by (cases p) auto
  show "last p \<noteq> CHR ''/''"
  proof
    assume "last p = CHR ''/''"
    with ne have "p = butlast p @ [CHR ''/'']" by (metis append_butlast_last_id)
    then have "split_on CHR ''/'' p = split_on CHR ''/'' (butlast p) @ [[]]"
      by (metis split_on_snoc_sep)
    with segs show False by simp
  qed
qed

lemma check_segments_ok:
  "check_segments raw segs = Inr () \<longleftrightarrow> (\<forall>s\<in>set segs. s \<noteq> [] \<and> s \<noteq> ''..'')"
  by (induction segs) auto

lemma check_segments_error: "check_segments raw segs = Inl e \<Longrightarrow> \<exists>r. e = InvalidPath raw r"
  by (induction segs) (auto split: if_splits)

lemma normalize_path_iff:
  "normalize_path raw = Inr p \<longleftrightarrow>
     p = trim_where (\<lambda>ch. ch = CHR ''/'') raw \<and> canonical_path p"
  by (auto simp: normalize_path_def canonical_path_def Let_def result_iff check_segments_ok)

lemma validate_path_iff: "validate_path p = Inr () \<longleftrightarrow> (\<forall>ch\<in>set p. path_char_ok ch)"
  by (auto simp: validate_path_def find_None_iff find_Some_iff dest: nth_mem split: option.splits)

lemma normalize_padded:
  "normalize_path raw = Inr p \<longleftrightarrow>
     canonical_path p \<and> (\<exists>m n. raw = replicate m CHR ''/'' @ p @ replicate n CHR ''/'')"
proof
  assume "normalize_path raw = Inr p"
  then show "canonical_path p \<and> (\<exists>m n. raw = replicate m CHR ''/'' @ p @ replicate n CHR ''/'')"
    using trim_decomp [of raw "CHR ''/''"] by (auto simp: normalize_path_iff)
next
  assume "canonical_path p \<and> (\<exists>m n. raw = replicate m CHR ''/'' @ p @ replicate n CHR ''/'')"
  then obtain m n where p: "canonical_path p"
    and raw: "raw = replicate m CHR ''/'' @ p @ replicate n CHR ''/''" by blast
  from p have "p \<noteq> []" by (simp add: canonical_path_def)
  then have "trim_where (\<lambda>ch. ch = CHR ''/'') raw = p"
    unfolding raw using canonical_path_ends [OF p] by (rule trim_padded)
  with p show "normalize_path raw = Inr p" by (simp add: normalize_path_iff)
qed

lemma normalize_idem: "normalize_path raw = Inr p \<Longrightarrow> normalize_path p = Inr p"
  by (auto simp: normalize_path_iff)

section \<open>Properties\<close>

text \<open>C7. \<^verbatim>\<open>normalize_and_validate\<close> accepts exactly the strings that are a canonical
  path of permitted characters between any number of slashes on either side,
  and returns that path. The dot is among the permitted characters, as the comment of
  \<^verbatim>\<open>validate_path\<close> says; the comment of the module (line 7) leaves it out.\<close>

theorem normalize_and_validate_exact:
  "normalize_and_validate raw = Inr p \<longleftrightarrow>
     canonical_path p \<and> list_all path_char_ok p \<and>
     (\<exists>m n. raw = replicate m CHR ''/'' @ p @ replicate n CHR ''/'')"
  by (auto simp: normalize_and_validate_def result_iff normalize_padded validate_path_iff
      list_all_iff)

text \<open>Every rejection is an \<^verbatim>\<open>InvalidPath\<close>, an HTTP 400 of code \<^verbatim>\<open>invalid_path\<close>, and
  a returned path is a fixed point: normalising it again changes nothing.\<close>

theorem normalize_and_validate_total:
  "case normalize_and_validate raw of
     Inl e \<Rightarrow> http_status e = 400 \<and> error_code e = ''invalid_path''
   | Inr p \<Rightarrow> normalize_and_validate p = Inr p"
proof (cases "normalize_and_validate raw")
  case (Inl e)
  then have "\<exists>q r. e = InvalidPath q r"
    by (auto simp: normalize_and_validate_def normalize_path_def validate_path_def Let_def
        result_iff dest: check_segments_error split: if_splits option.splits)
  with Inl show ?thesis by auto
next
  case (Inr p)
  then have "normalize_path raw = Inr p" and "validate_path p = Inr ()"
    by (auto simp: normalize_and_validate_def result_iff)
  with Inr show ?thesis
    by (simp add: normalize_and_validate_def normalize_idem)
qed

end
