(* ===== verification/Policy_Glob.thy ===== *)
theory Policy_Glob
  imports Vault_Prelude
begin

text \<open>
  The path patterns of the policy engine
  (\<^verbatim>\<open>glob_match\<close>, \<^verbatim>\<open>glob_match_recursive\<close> and \<^verbatim>\<open>segment_match\<close> of
  \<^verbatim>\<open>services/policy-engine/src/evaluator.rs\<close>) and what they mean.

  The code works on strings: it cuts the pattern and the path at the first slash,
  compares one segment and recurses on the rest, and for \<^verbatim>\<open>**\<close> it retries the rest of
  the pattern after every slash. The reference semantics works on lists of segments:
  \<open>seg_matches\<close> is the inductive meaning of one segment pattern, \<open>segs_match\<close> the
  meaning of a list of them. The two are shown equal for every pattern and every path,
  which also fixes the treatment of a trailing slash.
\<close>

section \<open>The matcher\<close>

text \<open>\<open>segment_match\<close> is the function, \<open>segment_loop\<close> its \<^verbatim>\<open>while let\<close> over the
  characters of the pattern: a star ends the loop and tries every suffix of what is left
  of the segment against what is left of the pattern.\<close>

function (sequential) segment_match :: "string \<Rightarrow> string \<Rightarrow> bool"
  and segment_loop :: "string \<Rightarrow> string \<Rightarrow> bool" where
  "segment_match pattern segment =
     (if pattern = ''*'' then True else segment_loop pattern segment)"
| "segment_loop [] segment = (segment = [])"
| "segment_loop (p # pat_chars) seg_chars =
     (if p = CHR ''*'' then
        list_ex (\<lambda>start. segment_match pat_chars (drop start seg_chars)) [0..<Suc (length seg_chars)]
      else case seg_chars of
             [] \<Rightarrow> False
           | s # rest \<Rightarrow> s = p \<and> segment_loop pat_chars rest)"
  by pat_completeness auto
termination
  by (relation "measure (\<lambda>x. case x of Inl (p, s) \<Rightarrow> Suc (2 * length p) | Inr (p, s) \<Rightarrow> 2 * length p)")
    auto

declare segment_match.simps [simp del]

text \<open>\<^verbatim>\<open>match s.find('/') { Some(pos) => (&s[..pos], &s[pos + 1..]), None => (s, "") }\<close>\<close>

definition first_segment :: "string \<Rightarrow> string \<times> string" where
  "first_segment s = (case split_once CHR ''/'' s of Some (a, b) \<Rightarrow> (a, b) | None \<Rightarrow> (s, []))"

lemma first_segment_shorter: "s \<noteq> [] \<Longrightarrow> length (snd (first_segment s)) < length s"
  by (auto simp: first_segment_def dest: split_once_length split: option.splits)

text \<open>\<open>double_star_loop\<close> is the \<^verbatim>\<open>loop\<close> that consumes one segment of the path at a time.\<close>

function (sequential) glob_match_recursive :: "string \<Rightarrow> string \<Rightarrow> bool"
  and double_star_loop :: "string \<Rightarrow> string \<Rightarrow> bool" where
  "glob_match_recursive pattern path =
     (if pattern = [] then path = []
      else if starts_with pattern ''**/'' \<or> pattern = ''**'' then
        let rest_pattern = (if pattern = ''**'' then [] else drop 3 pattern)
        in glob_match_recursive rest_pattern path \<or> double_star_loop rest_pattern path
      else
        let pattern_segment = fst (first_segment pattern);
            pattern_rest = snd (first_segment pattern);
            path_segment = fst (first_segment path);
            path_rest = snd (first_segment path)
        in if \<not> segment_match pattern_segment path_segment then False
           else if pattern_rest = [] then path_rest = []
           else glob_match_recursive pattern_rest path_rest)"
| "double_star_loop rest_pattern remaining =
     (case split_once CHR ''/'' remaining of
        Some (skipped, rest) \<Rightarrow> glob_match_recursive rest_pattern rest \<or> double_star_loop rest_pattern rest
      | None \<Rightarrow> glob_match_recursive rest_pattern [])"
  by pat_completeness auto
termination
  by (relation "measures [\<lambda>x. case x of Inl (p, s) \<Rightarrow> length p | Inr (p, s) \<Rightarrow> length p,
                          \<lambda>x. case x of Inl (p, s) \<Rightarrow> 0 | Inr (p, s) \<Rightarrow> Suc (length s)]")
    (auto simp: first_segment_shorter dest: split_once_length)

declare glob_match_recursive.simps [simp del] double_star_loop.simps [simp del]

definition glob_match :: "string \<Rightarrow> string \<Rightarrow> bool" where
  "glob_match pattern path = glob_match_recursive pattern path"

section \<open>The reference semantics\<close>

inductive seg_matches :: "string \<Rightarrow> string \<Rightarrow> bool" where
  seg_nil: "seg_matches [] []"
| seg_lit: "c \<noteq> CHR ''*'' \<Longrightarrow> seg_matches p s \<Longrightarrow> seg_matches (c # p) (c # s)"
| seg_star: "seg_matches p s \<Longrightarrow> seg_matches (CHR ''*'' # p) (w @ s)"

inductive_simps seg_matches_Nil [simp]: "seg_matches [] s"
inductive_cases seg_ConsE: "seg_matches (c # p) s"

text \<open>The segments of a string. A final slash opens no segment, and the empty string
  has none.\<close>

definition segs :: "string \<Rightarrow> string list" where
  "segs s = (let l = split_on CHR ''/'' s in if last l = [] then butlast l else l)"

fun segs_match :: "string list \<Rightarrow> string list \<Rightarrow> bool" where
  "segs_match [] ss = (ss = [])"
| "segs_match (p # ps) ss =
     (if p = ''**'' then list_ex (\<lambda>k. segs_match ps (drop k ss)) [0..<Suc (length ss)]
      else case ss of
             [] \<Rightarrow> seg_matches p [] \<and> segs_match ps []
           | s # rest \<Rightarrow> seg_matches p s \<and> segs_match ps rest)"

section \<open>One segment\<close>

lemma seg_matches_star_iff:
  "seg_matches (CHR ''*'' # p) s \<longleftrightarrow> (\<exists>k \<le> length s. seg_matches p (drop k s))"
proof
  assume "seg_matches (CHR ''*'' # p) s"
  then obtain w t where "s = w @ t" "seg_matches p t" by (auto elim: seg_ConsE)
  then show "\<exists>k \<le> length s. seg_matches p (drop k s)"
    by (intro exI [of _ "length w"]) simp
next
  assume "\<exists>k \<le> length s. seg_matches p (drop k s)"
  then obtain k where "seg_matches p (drop k s)" by blast
  then have "seg_matches (CHR ''*'' # p) (take k s @ drop k s)" by (rule seg_star)
  then show "seg_matches (CHR ''*'' # p) s" by simp
qed

lemma seg_matches_lit_iff:
  "c \<noteq> CHR ''*'' \<Longrightarrow>
     seg_matches (c # p) s \<longleftrightarrow> (case s of [] \<Rightarrow> False | x # t \<Rightarrow> x = c \<and> seg_matches p t)"
  by (auto elim: seg_ConsE intro: seg_lit split: list.splits)

lemma segment_match_sound:
  "segment_match p s \<longleftrightarrow> seg_matches p s"
  "segment_loop p s \<longleftrightarrow> seg_matches p s"
proof (induction p s and p s rule: segment_match_segment_loop.induct)
  case (1 pattern segment)
  have "seg_matches ''*'' segment"
    using seg_star [OF seg_nil, of segment] by simp
  with 1 show ?case by (auto simp: segment_match.simps)
next
  case (2 segment)
  then show ?case by simp
next
  case (3 p pat_chars seg_chars)
  show ?case
  proof (cases "p = CHR ''*''")
    case True
    with 3 show ?thesis
      by (auto simp: seg_matches_star_iff list_ex_iff less_Suc_eq_le simp del: upt_Suc)
  next
    case False
    with 3 show ?thesis by (auto simp: seg_matches_lit_iff split: list.splits)
  qed
qed

lemma seg_matches_literal: "CHR ''*'' \<notin> set p \<Longrightarrow> seg_matches p s \<longleftrightarrow> s = p"
proof (induction p arbitrary: s)
  case Nil
  show ?case by simp
next
  case (Cons c p)
  then have "c \<noteq> CHR ''*''" and IH: "\<And>t. seg_matches p t \<longleftrightarrow> t = p" by auto
  then show ?case by (cases s) (simp_all add: seg_matches_lit_iff)
qed

section \<open>Whole paths\<close>

lemma segs_Nil [simp]: "segs [] = []"
  by (simp add: segs_def)

lemma segs_split_once:
  assumes "split_once CHR ''/'' s = Some (a, b)"
  shows "segs s = a # segs b"
proof -
  have "split_on CHR ''/'' s = a # split_on CHR ''/'' b"
    using assms by (subst split_once_split_on) simp
  then show ?thesis by (simp add: segs_def Let_def)
qed

lemma segs_single: "CHR ''/'' \<notin> set s \<Longrightarrow> s \<noteq> [] \<Longrightarrow> segs s = [s]"
  by (simp add: segs_def split_on_absent)

lemma segs_first_segment:
  "s \<noteq> [] \<Longrightarrow> segs s = fst (first_segment s) # segs (snd (first_segment s))"
  by (auto simp: first_segment_def segs_single segs_split_once split_once_None
      split: option.splits)

lemma segs_eq_Nil [simp]: "segs s = [] \<longleftrightarrow> s = []"
  using segs_first_segment [of s] by (cases "s = []") auto

lemma first_segment_Nil [simp]: "first_segment [] = ([], [])"
  by (simp add: first_segment_def)

lemma double_star_first:
  "starts_with p ''**/'' \<or> p = ''**'' \<longleftrightarrow> fst (first_segment p) = ''**''"
proof (cases "split_once CHR ''/'' p")
  case None
  then have "CHR ''/'' \<notin> set p" by (simp add: split_once_None)
  with None show ?thesis by (auto simp: first_segment_def starts_with_iff)
next
  case (Some ab)
  then obtain a b where eq: "split_once CHR ''/'' p = Some (a, b)" by (cases ab) simp
  then have p: "p = a @ CHR ''/'' # b" "CHR ''/'' \<notin> set a" by (auto dest: split_once_SomeD)
  have "a = ''**''" if "starts_with p ''**/''"
  proof -
    from that obtain r where "p = ''**'' @ CHR ''/'' # r" by (auto simp: starts_with_iff)
    then have "split_once CHR ''/'' p = Some (''**'', r)" by simp
    with eq show ?thesis by simp
  qed
  moreover have "starts_with p ''**/''" if "a = ''**''"
    using p that by (auto simp: starts_with_iff)
  moreover have "CHR ''/'' \<in> set p" using p by simp
  then have "p \<noteq> ''**''" by auto
  ultimately show ?thesis using eq by (auto simp: first_segment_def)
qed

lemma double_star_rest:
  "starts_with p ''**/'' \<or> p = ''**'' \<Longrightarrow>
     segs p = ''**'' # segs (if p = ''**'' then [] else drop 3 p)"
  by (auto simp: starts_with_iff segs_single segs_split_once)

lemma ex_drop_bounded: "(\<exists>k \<le> length xs. P (drop k xs)) \<longleftrightarrow> (\<exists>k. P (drop k xs))"
proof
  assume "\<exists>k. P (drop k xs)"
  then obtain k where k: "P (drop k xs)" ..
  then have "P (drop (min k (length xs)) xs)" by (cases "k \<le> length xs") (simp_all add: min_def)
  then show "\<exists>k \<le> length xs. P (drop k xs)" by (intro exI [of _ "min k (length xs)"]) simp
qed blast

lemma ex_drop_Suc: "(\<exists>k. P (drop k xs)) \<longleftrightarrow> P xs \<or> (\<exists>k. P (drop (Suc k) xs))"
proof
  assume "\<exists>k. P (drop k xs)"
  then obtain k where "P (drop k xs)" ..
  then show "P xs \<or> (\<exists>k. P (drop (Suc k) xs))" by (cases k) auto
next
  assume "P xs \<or> (\<exists>k. P (drop (Suc k) xs))"
  then show "\<exists>k. P (drop k xs)" by (metis drop0)
qed

lemma list_ex_drop:
  "list_ex (\<lambda>k. P (drop k xs)) [0..<Suc (length xs)] \<longleftrightarrow> P xs \<or> (\<exists>k. P (drop (Suc k) xs))"
proof -
  have "list_ex (\<lambda>k. P (drop k xs)) [0..<Suc (length xs)] \<longleftrightarrow> (\<exists>k \<le> length xs. P (drop k xs))"
    by (auto simp: list_ex_iff less_Suc_eq_le simp del: upt_Suc)
  then show ?thesis by (simp only: ex_drop_bounded ex_drop_Suc)
qed

lemma glob_match_recursive_sound:
  "glob_match_recursive p s \<longleftrightarrow> segs_match (segs p) (segs s)"
  "double_star_loop p s \<longleftrightarrow> (\<exists>k. segs_match (segs p) (drop (Suc k) (segs s)))"
proof (induction p s and p s rule: glob_match_recursive_double_star_loop.induct)
  case (1 pattern path)
  show ?case
  proof (cases "pattern = []")
    case True
    then show ?thesis by (simp add: glob_match_recursive.simps)
  next
    case ne: False
    show ?thesis
    proof (cases "starts_with pattern ''**/'' \<or> pattern = ''**''")
      case True
      let ?rest = "if pattern = ''**'' then [] else drop 3 pattern"
      have "glob_match_recursive pattern path \<longleftrightarrow>
          glob_match_recursive ?rest path \<or> double_star_loop ?rest path"
        by (subst glob_match_recursive.simps) (simp only: ne True if_True if_False Let_def)
      also have "\<dots> \<longleftrightarrow> segs_match (segs ?rest) (segs path) \<or>
          (\<exists>k. segs_match (segs ?rest) (drop (Suc k) (segs path)))"
        using "1.IH"(1) [OF ne True refl] "1.IH"(2) [OF ne True refl] by simp
      also have "\<dots> \<longleftrightarrow> segs_match (''**'' # segs ?rest) (segs path)"
        using list_ex_drop [of "segs_match (segs ?rest)" "segs path"] by simp
      finally show ?thesis using double_star_rest [OF True] by simp
    next
      case False
      let ?f = "first_segment pattern" and ?g = "first_segment path"
      have "segs pattern = fst ?f # segs (snd ?f)" by (rule segs_first_segment [OF ne])
      moreover have "fst ?f \<noteq> ''**''" using False double_star_first by blast
      moreover have "glob_match_recursive (snd ?f) (snd ?g) \<longleftrightarrow>
          segs_match (segs (snd ?f)) (segs (snd ?g))" if "snd ?f \<noteq> []" "segment_match (fst ?f) (fst ?g)"
        using "1.IH"(3) [OF ne False refl refl refl refl] that by simp
      moreover have "glob_match_recursive pattern path \<longleftrightarrow>
          (segment_match (fst ?f) (fst ?g) \<and>
           (if snd ?f = [] then snd ?g = [] else glob_match_recursive (snd ?f) (snd ?g)))"
        using ne False by (subst glob_match_recursive.simps) (simp add: Let_def)
      moreover have "segs_match (fst ?f # segs (snd ?f)) (segs path) \<longleftrightarrow>
          (seg_matches (fst ?f) (fst ?g) \<and> segs_match (segs (snd ?f)) (segs (snd ?g)))"
        using \<open>fst ?f \<noteq> ''**''\<close> segs_first_segment [of path] by (cases "path = []") simp_all
      ultimately show ?thesis by (auto simp: segment_match_sound(1))
    qed
  qed
next
  case (2 rest_pattern remaining)
  show ?case
  proof (cases "split_once CHR ''/'' remaining")
    case None
    then have "\<And>k. drop (Suc k) (segs remaining) = []"
      by (cases "remaining = []") (simp_all add: segs_single split_once_None)
    with None 2 show ?thesis by (simp add: double_star_loop.simps)
  next
    case (Some ab)
    then obtain a b where eq: "split_once CHR ''/'' remaining = Some (a, b)" by (cases ab) simp
    have "(\<exists>k. segs_match (segs rest_pattern) (drop k (segs b))) \<longleftrightarrow>
        segs_match (segs rest_pattern) (segs b) \<or>
        (\<exists>k. segs_match (segs rest_pattern) (drop (Suc k) (segs b)))"
      by (rule ex_drop_Suc)
    with eq 2 show ?thesis by (simp add: double_star_loop.simps segs_split_once)
  qed
qed

section \<open>Literal prefixes\<close>

definition literal_segment :: "string \<Rightarrow> bool" where
  "literal_segment p \<longleftrightarrow> p \<noteq> [] \<and> CHR ''*'' \<notin> set p \<and> CHR ''/'' \<notin> set p"

lemma segs_join:
  assumes "ps \<noteq> []" "\<forall>p\<in>set ps. CHR ''/'' \<notin> set p" "last ps \<noteq> []"
  shows "segs (join_with CHR ''/'' ps) = ps"
  using assms by (simp add: segs_def split_join)

lemma segs_match_literal_prefix:
  "\<forall>p\<in>set ps. literal_segment p \<Longrightarrow>
     segs_match (ps @ qs) ss \<longleftrightarrow> (\<exists>rest. ss = ps @ rest \<and> segs_match qs rest)"
proof (induction ps arbitrary: ss)
  case Nil
  show ?case by simp
next
  case (Cons p ps)
  then have p: "p \<noteq> []" "CHR ''*'' \<notin> set p" by (simp_all add: literal_segment_def)
  then have "p \<noteq> ''**''" by auto
  with p Cons show ?case by (cases ss) (auto simp: seg_matches_literal)
qed

lemma segs_match_double_star: "segs_match [''**''] ss"
  by (auto simp: list_ex_iff simp del: upt_Suc intro!: bexI [of _ "length ss"])

lemma segs_match_star: "segs_match [''*''] ss \<longleftrightarrow> length ss \<le> 1"
proof -
  have "seg_matches ''*'' s" for s using segment_match_sound(1) [of "''*''" s]
    by (simp add: segment_match.simps)
  then show ?thesis by (auto split: list.splits)
qed

lemma glob_literal_prefix:
  assumes "ps \<noteq> []" "\<forall>p\<in>set ps. literal_segment p" "q \<noteq> []" "CHR ''/'' \<notin> set q"
  shows "glob_match (join_with CHR ''/'' (ps @ [q])) s \<longleftrightarrow>
    (\<exists>rest. segs s = ps @ rest \<and> segs_match [q] rest)"
proof -
  have "segs (join_with CHR ''/'' (ps @ [q])) = ps @ [q]"
    using assms by (intro segs_join) (auto simp: literal_segment_def)
  with assms show ?thesis
    by (simp add: glob_match_def glob_match_recursive_sound(1) segs_match_literal_prefix
        del: segs_match.simps)
qed

section \<open>Properties\<close>

text \<open>C2. The string matcher decides the reference semantics: a pattern matches a path
  exactly when the segments of the pattern match the segments of the path, where a
  star inside a segment stands for any run of characters of that segment and a
  segment \<^verbatim>\<open>**\<close> for any number of segments. The matcher is total.\<close>

theorem glob_match_spec: "glob_match p s \<longleftrightarrow> segs_match (segs p) (segs s)"
  by (simp add: glob_match_def glob_match_recursive_sound(1))

text \<open>A pattern of literal segments that ends in \<^verbatim>\<open>/**\<close> matches exactly the paths that
  start with those segments; one that ends in \<^verbatim>\<open>/*\<close> matches exactly those with at most
  one more segment, the bare prefix included.\<close>

theorem glob_match_subtree:
  assumes "ps \<noteq> []" and "list_all literal_segment ps"
  shows "(glob_match (join_with CHR ''/'' (ps @ [''**''])) s \<longleftrightarrow> take (length ps) (segs s) = ps) \<and>
    (glob_match (join_with CHR ''/'' (ps @ [''*''])) s \<longleftrightarrow>
      take (length ps) (segs s) = ps \<and> length (segs s) \<le> length ps + 1)"
proof -
  from assms have lit: "\<forall>p\<in>set ps. literal_segment p" by (simp add: list_all_iff)
  have pre: "(\<exists>rest. segs s = ps @ rest \<and> Q rest) \<longleftrightarrow>
      take (length ps) (segs s) = ps \<and> Q (drop (length ps) (segs s))" for Q
  proof
    assume "take (length ps) (segs s) = ps \<and> Q (drop (length ps) (segs s))"
    then show "\<exists>rest. segs s = ps @ rest \<and> Q rest" by (metis append_take_drop_id)
  qed auto
  have "glob_match (join_with CHR ''/'' (ps @ [''**''])) s \<longleftrightarrow> take (length ps) (segs s) = ps"
    using glob_literal_prefix [OF assms(1) lit, of "''**''" s]
    unfolding pre by (simp add: segs_match_double_star del: segs_match.simps)
  moreover have "glob_match (join_with CHR ''/'' (ps @ [''*''])) s \<longleftrightarrow>
      take (length ps) (segs s) = ps \<and> length (segs s) \<le> length ps + 1"
    using glob_literal_prefix [OF assms(1) lit, of "''*''" s]
    unfolding pre by (auto simp: segs_match_star simp del: segs_match.simps)
  ultimately show ?thesis by (rule conjI)
qed

theorem glob_match_subtree_witness:
  "glob_match ''secret/**'' ''secret/db/prod'' \<and> \<not> glob_match ''secret/*'' ''secret/db/prod'' \<and>
   glob_match ''secret/*'' ''secret''"
proof -
  have lit: "[''secret''] \<noteq> []" "list_all literal_segment [''secret'']"
    by (simp_all add: literal_segment_def)
  show ?thesis
    using glob_match_subtree [OF lit, of "''secret/db/prod''"]
      glob_match_subtree [OF lit, of "''secret''"]
    by (simp add: segs_def Let_def)
qed

end
