(* ===== verification/Policy_Engine.thy ===== *)
theory Policy_Engine
  imports Policy_Glob "HOL-Library.Multiset"
begin

text \<open>
  The policy engine: the domain types (\<^verbatim>\<open>services/policy-engine/src/model.rs\<close>), the
  evaluation of a request against a compiled snapshot
  (\<^verbatim>\<open>services/policy-engine/src/evaluator.rs\<close>), the store of policy documents
  (\<^verbatim>\<open>services/policy-engine/src/store.rs\<close>), the compilation task of \<^verbatim>\<open>main.rs\<close> and the
  gRPC handlers (\<^verbatim>\<open>services/policy-engine/src/grpc.rs\<close>).

  The service keeps two pieces of state, the documents and the compiled snapshot.
  \<open>policy_backend\<close> is the contract of the trait \<^verbatim>\<open>PolicyStoreBackend\<close>, from which the
  compilation task is shown correct; the in-memory store interprets it.
\<close>

section \<open>Model\<close>

datatype capability = Cap_Read | Cap_Write | Cap_Delete | Cap_List | Cap_Create | Cap_Update | Cap_Deny

record policy_rule =
  rule_paths :: "string list"
  rule_capabilities :: "capability set"

record policy_document =
  doc_name :: string
  doc_rules :: "policy_rule list"

datatype policy_decision = Allow | Deny string

fun capability_of_verb :: "string \<Rightarrow> capability option" where
  "capability_of_verb verb =
     (if verb = ''read'' then Some Cap_Read
      else if verb = ''write'' then Some Cap_Write
      else if verb = ''delete'' then Some Cap_Delete
      else if verb = ''list'' then Some Cap_List
      else if verb = ''create'' then Some Cap_Create
      else if verb = ''update'' then Some Cap_Update
      else if verb = ''deny'' then Some Cap_Deny
      else None)"

text \<open>\<^verbatim>\<open>action.split(':').next_back().unwrap_or(action)\<close>: a split is never empty.\<close>

definition from_action :: "string \<Rightarrow> capability option" where
  "from_action action = capability_of_verb (last (split_on CHR '':'' action))"

section \<open>Evaluation\<close>

type_synonym compiled_policies = "(string \<times> string, policy_rule list) hash_map"

definition compiled_new :: compiled_policies where
  "compiled_new = []"

definition upsert :: "string \<Rightarrow> string \<Rightarrow> policy_rule list \<Rightarrow> compiled_policies \<Rightarrow> compiled_policies" where
  "upsert tenant_id name rules compiled = hm_insert (tenant_id, name) rules compiled"

definition compiled_remove :: "string \<Rightarrow> string \<Rightarrow> compiled_policies \<Rightarrow> compiled_policies \<times> bool" where
  "compiled_remove tenant_id name compiled =
     (hm_remove (tenant_id, name) compiled, hm_get compiled (tenant_id, name) \<noteq> None)"

definition path_matched :: "string \<Rightarrow> policy_rule \<Rightarrow> bool" where
  "path_matched resource rule \<longleftrightarrow> list_ex (\<lambda>pattern. glob_match pattern resource) (rule_paths rule)"

text \<open>The two nested loops. \<open>Inl\<close> is the early \<^verbatim>\<open>return\<close> of an explicit deny, \<open>Inr\<close> the
  value of \<^verbatim>\<open>any_allow\<close> when the loop ends.\<close>

fun eval_rules ::
  "capability \<Rightarrow> string \<Rightarrow> string \<Rightarrow> policy_rule list \<Rightarrow> bool \<Rightarrow> policy_decision + bool" where
  "eval_rules required policy_name resource [] any_allow = Inr any_allow"
| "eval_rules required policy_name resource (rule # rules) any_allow =
     (if \<not> path_matched resource rule then eval_rules required policy_name resource rules any_allow
      else if Cap_Deny \<in> rule_capabilities rule then
        Inl (Deny (''explicit deny in policy '' @ [CHR 0x27] @ policy_name @ [CHR 0x27] @
          '' for resource '' @ [CHR 0x27] @ resource @ [CHR 0x27]))
      else if required \<in> rule_capabilities rule then
        eval_rules required policy_name resource rules True
      else eval_rules required policy_name resource rules any_allow)"

fun eval_policies ::
  "compiled_policies \<Rightarrow> string \<Rightarrow> capability \<Rightarrow> string \<Rightarrow> string list \<Rightarrow> bool \<Rightarrow> policy_decision + bool" where
  "eval_policies compiled tenant_id required resource [] any_allow = Inr any_allow"
| "eval_policies compiled tenant_id required resource (policy_name # policies) any_allow =
     (case hm_get compiled (tenant_id, policy_name) of
        None \<Rightarrow> eval_policies compiled tenant_id required resource policies any_allow
      | Some rules \<Rightarrow>
          and_then (eval_rules required policy_name resource rules any_allow)
            (eval_policies compiled tenant_id required resource policies))"

definition evaluate ::
  "compiled_policies \<Rightarrow> string \<Rightarrow> string list \<Rightarrow> string \<Rightarrow> string \<Rightarrow> policy_decision" where
  "evaluate compiled tenant_id policies action resource =
     (case from_action action of
        None \<Rightarrow> Deny (''unknown action: '' @ action)
      | Some required \<Rightarrow>
          (case eval_policies compiled tenant_id required resource policies False of
             Inl decision \<Rightarrow> decision
           | Inr any_allow \<Rightarrow>
               if any_allow then Allow
               else Deny (''no policy grants '' @ [CHR 0x27] @ action @ [CHR 0x27] @
                 '' on resource '' @ [CHR 0x27] @ resource @ [CHR 0x27])))"

section \<open>The document store\<close>

type_synonym policy_store = "(string \<times> string, policy_document) hash_map"

definition put_policy :: "string \<Rightarrow> policy_document \<Rightarrow> policy_store \<Rightarrow> policy_store \<times> policy_document option" where
  "put_policy tenant_id document store =
     (hm_insert (tenant_id, doc_name document) document store,
      hm_get store (tenant_id, doc_name document))"

definition get_policy :: "policy_store \<Rightarrow> string \<Rightarrow> string \<Rightarrow> policy_document option" where
  "get_policy store tenant_id name = hm_get store (tenant_id, name)"

definition delete_policy :: "string \<Rightarrow> string \<Rightarrow> policy_store \<Rightarrow> policy_store \<times> policy_document option" where
  "delete_policy tenant_id name store =
     (hm_remove (tenant_id, name) store, hm_get store (tenant_id, name))"

definition list_policies :: "policy_store \<Rightarrow> string \<Rightarrow> string list" where
  "list_policies store tenant_id =
     map (\<lambda>((tid, name), doc). name) (filter (\<lambda>((tid, name), doc). tid = tenant_id) store)"

definition get_all_for_tenant :: "policy_store \<Rightarrow> string \<Rightarrow> policy_document list" where
  "get_all_for_tenant store tenant_id =
     map snd (filter (\<lambda>((tid, name), doc). tid = tenant_id) store)"

definition get_all :: "policy_store \<Rightarrow> (string \<times> policy_document) list" where
  "get_all store = map (\<lambda>((tenant_id, name), doc). (tenant_id, doc)) store"

section \<open>The compilation task\<close>

text \<open>One iteration reads every document and builds a new snapshot; the swap replaces
  the shared one. \<open>compile_docs\<close> is the \<^verbatim>\<open>for\<close> loop.\<close>

definition compile_docs :: "(string \<times> policy_document) list \<Rightarrow> compiled_policies" where
  "compile_docs all_docs =
     fold (\<lambda>(tenant_id, doc). upsert tenant_id (doc_name doc) (doc_rules doc)) all_docs compiled_new"

section \<open>The gRPC handlers\<close>

record proto_rule =
  proto_paths :: "string list"
  proto_capabilities :: "string list"

record proto_document =
  proto_name :: string
  proto_rules :: "proto_rule list"

record authorize_request =
  auth_tenant_id :: string
  auth_policies :: "string list"
  auth_action :: string
  auth_resource :: string

record authorize_response =
  allowed :: bool
  matched_policy :: string
  reason :: string

text \<open>\<^verbatim>\<open>to_lowercase\<close> on the letters A to Z.\<close>

fun parse_capabilities :: "string list \<Rightarrow> grpc_status + capability set" where
  "parse_capabilities [] = Inr {}"
| "parse_capabilities (s # raw) =
     (case capability_of_verb (map to_lower_char s) of
        None \<Rightarrow> Inl (InvalidArgument
          (''unknown capability: '' @ [CHR 0x27] @ map to_lower_char s @ [CHR 0x27]))
      | Some cap \<Rightarrow> and_then (parse_capabilities raw) (\<lambda>caps. Inr (insert cap caps)))"

fun proto_to_domain_rules :: "proto_rule list \<Rightarrow> grpc_status + policy_rule list" where
  "proto_to_domain_rules [] = Inr []"
| "proto_to_domain_rules (r # rs) =
     and_then (parse_capabilities (proto_capabilities r)) (\<lambda>caps.
       and_then (proto_to_domain_rules rs) (\<lambda>rules.
         Inr (\<lparr>rule_paths = proto_paths r, rule_capabilities = caps\<rparr> # rules)))"

definition proto_to_domain_document :: "proto_document \<Rightarrow> grpc_status + policy_document" where
  "proto_to_domain_document proto =
     and_then (proto_to_domain_rules (proto_rules proto)) (\<lambda>rules.
       Inr \<lparr>doc_name = proto_name proto, doc_rules = rules\<rparr>)"

fun capability_name :: "capability \<Rightarrow> string" where
  "capability_name Cap_Read = ''read''"
| "capability_name Cap_Write = ''write''"
| "capability_name Cap_Delete = ''delete''"
| "capability_name Cap_List = ''list''"
| "capability_name Cap_Create = ''create''"
| "capability_name Cap_Update = ''update''"
| "capability_name Cap_Deny = ''deny''"

text \<open>The set of capabilities is iterated in some order; \<open>capability_order\<close> fixes one.\<close>

definition capability_order :: "capability list" where
  "capability_order = [Cap_Read, Cap_Write, Cap_Delete, Cap_List, Cap_Create, Cap_Update, Cap_Deny]"

definition domain_to_proto_document :: "policy_document \<Rightarrow> proto_document" where
  "domain_to_proto_document doc =
     \<lparr>proto_name = doc_name doc,
      proto_rules = map (\<lambda>rule.
        \<lparr>proto_paths = rule_paths rule,
         proto_capabilities =
           map capability_name (filter (\<lambda>cap. cap \<in> rule_capabilities rule) capability_order)\<rparr>)
        (doc_rules doc)\<rparr>"

record policy_service =
  svc_store :: policy_store
  svc_compiled :: compiled_policies

definition authorize :: "policy_service \<Rightarrow> authorize_request \<Rightarrow> grpc_status + authorize_response" where
  "authorize svc req =
     (if auth_tenant_id req = [] then Inl (InvalidArgument ''tenant_id must not be empty'')
      else if auth_action req = [] then Inl (InvalidArgument ''action must not be empty'')
      else if auth_resource req = [] then Inl (InvalidArgument ''resource must not be empty'')
      else case evaluate (svc_compiled svc) (auth_tenant_id req) (auth_policies req)
                  (auth_action req) (auth_resource req) of
             Allow \<Rightarrow> Inr \<lparr>allowed = True, matched_policy = [], reason = []\<rparr>
           | Deny r \<Rightarrow> Inr \<lparr>allowed = False, matched_policy = [], reason = r\<rparr>)"

text \<open>A handler that changes state returns the new state with its answer.\<close>

definition put_policy_handler ::
  "policy_service \<Rightarrow> string \<Rightarrow> proto_document option \<Rightarrow> policy_service \<times> (grpc_status + string)" where
  "put_policy_handler svc tenant_id policy =
     (if tenant_id = [] then (svc, Inl (InvalidArgument ''tenant_id must not be empty''))
      else case policy of
        None \<Rightarrow> (svc, Inl (InvalidArgument ''policy document must be provided''))
      | Some proto_doc \<Rightarrow>
          if proto_name proto_doc = [] then
            (svc, Inl (InvalidArgument ''policy name must not be empty''))
          else case proto_to_domain_document proto_doc of
            Inl e \<Rightarrow> (svc, Inl e)
          | Inr domain_doc \<Rightarrow>
              (svc\<lparr>svc_store := fst (put_policy tenant_id domain_doc (svc_store svc)),
                   svc_compiled := upsert tenant_id (doc_name domain_doc) (doc_rules domain_doc)
                     (svc_compiled svc)\<rparr>,
               Inr (proto_name proto_doc)))"

definition delete_policy_handler ::
  "policy_service \<Rightarrow> string \<Rightarrow> string \<Rightarrow> policy_service \<times> (grpc_status + unit)" where
  "delete_policy_handler svc tenant_id name =
     (if tenant_id = [] then (svc, Inl (InvalidArgument ''tenant_id must not be empty''))
      else if name = [] then (svc, Inl (InvalidArgument ''policy name must not be empty''))
      else if get_policy (svc_store svc) tenant_id name = None then
        (svc, Inl (NotFound (''policy '' @ [CHR 0x27] @ name @ [CHR 0x27] @
          '' not found for tenant '' @ [CHR 0x27] @ tenant_id @ [CHR 0x27])))
      else
        (svc\<lparr>svc_store := fst (delete_policy tenant_id name (svc_store svc)),
             svc_compiled := fst (compiled_remove tenant_id name (svc_compiled svc))\<rparr>,
         Inr ()))"

definition list_policies_handler :: "policy_service \<Rightarrow> string \<Rightarrow> grpc_status + string list" where
  "list_policies_handler svc tenant_id =
     (if tenant_id = [] then Inl (InvalidArgument ''tenant_id must not be empty'')
      else Inr (list_policies (svc_store svc) tenant_id))"

definition get_policy_handler :: "policy_service \<Rightarrow> string \<Rightarrow> string \<Rightarrow> grpc_status + proto_document" where
  "get_policy_handler svc tenant_id name =
     (if tenant_id = [] then Inl (InvalidArgument ''tenant_id must not be empty'')
      else if name = [] then Inl (InvalidArgument ''policy name must not be empty'')
      else and_then (ok_or (NotFound (''policy '' @ [CHR 0x27] @ name @ [CHR 0x27] @
              '' not found for tenant '' @ [CHR 0x27] @ tenant_id @ [CHR 0x27]))
            (get_policy (svc_store svc) tenant_id name))
          (\<lambda>doc. Inr (domain_to_proto_document doc)))"

text \<open>One tick of \<^verbatim>\<open>run_compilation_task\<close> with nothing running beside it.\<close>

definition compilation_tick :: "policy_service \<Rightarrow> policy_service" where
  "compilation_tick svc = svc\<lparr>svc_compiled := compile_docs (get_all (svc_store svc))\<rparr>"

section \<open>Lemmas on evaluation\<close>

text \<open>The rules that apply to a resource: those of the caller's named policies, looked up
  in the caller's tenant, one of whose patterns matches.\<close>

definition applicable :: "compiled_policies \<Rightarrow> string \<Rightarrow> string list \<Rightarrow> string \<Rightarrow> policy_rule list" where
  "applicable compiled tenant_id policies resource =
     filter (path_matched resource)
       (concat (map (\<lambda>n. case hm_get compiled (tenant_id, n) of None \<Rightarrow> [] | Some rs \<Rightarrow> rs) policies))"

definition denies :: "policy_rule \<Rightarrow> bool" where
  "denies rule \<longleftrightarrow> Cap_Deny \<in> rule_capabilities rule"

lemma eval_rules_deny:
  "list_ex denies (filter (path_matched res) rules) \<Longrightarrow>
     \<exists>r. eval_rules req n res rules any = Inl (Deny r)"
  by (induction rules arbitrary: any) (auto simp: denies_def split: if_splits)

lemma eval_rules_no_deny:
  "\<not> list_ex denies (filter (path_matched res) rules) \<Longrightarrow>
     eval_rules req n res rules any =
       Inr (any \<or> list_ex (\<lambda>rule. req \<in> rule_capabilities rule) (filter (path_matched res) rules))"
  by (induction rules arbitrary: any) (auto simp: denies_def split: if_splits)

lemma applicable_Nil [simp]: "applicable c t [] res = []"
  by (simp add: applicable_def)

lemma applicable_Cons:
  "applicable c t (n # ps) res =
     (case hm_get c (t, n) of None \<Rightarrow> [] | Some rules \<Rightarrow> filter (path_matched res) rules) @
     applicable c t ps res"
  by (simp add: applicable_def split: option.splits)

lemma eval_policies_deny:
  "list_ex denies (applicable c t ps res) \<Longrightarrow>
     \<exists>r. eval_policies c t req res ps any = Inl (Deny r)"
proof (induction ps arbitrary: any)
  case (Cons n ps)
  show ?case
  proof (cases "hm_get c (t, n)")
    case None
    with Cons show ?thesis by (simp add: applicable_Cons)
  next
    case (Some rules)
    show ?thesis
    proof (cases "list_ex denies (filter (path_matched res) rules)")
      case True
      from eval_rules_deny [OF this, of req n any] Some show ?thesis by auto
    next
      case False
      with Cons Some show ?thesis by (simp add: applicable_Cons eval_rules_no_deny)
    qed
  qed
qed simp

lemma eval_policies_no_deny:
  "\<not> list_ex denies (applicable c t ps res) \<Longrightarrow>
     eval_policies c t req res ps any =
       Inr (any \<or> list_ex (\<lambda>rule. req \<in> rule_capabilities rule) (applicable c t ps res))"
proof (induction ps arbitrary: any)
  case (Cons n ps)
  then show ?case
    by (cases "hm_get c (t, n)") (auto simp: applicable_Cons eval_rules_no_deny)
qed simp

lemma evaluate_allow:
  "evaluate c t ps action res = Allow \<longleftrightarrow>
     (\<exists>req. from_action action = Some req \<and>
        \<not> list_ex denies (applicable c t ps res) \<and>
        list_ex (\<lambda>rule. req \<in> rule_capabilities rule) (applicable c t ps res))"
proof (cases "from_action action")
  case None
  then show ?thesis by (simp add: evaluate_def split: option.split)
next
  case (Some req)
  show ?thesis
  proof (cases "list_ex denies (applicable c t ps res)")
    case True
    from eval_policies_deny [OF this, of req False] True Some show ?thesis
      by (auto simp: evaluate_def)
  next
    case False
    with Some show ?thesis by (simp add: evaluate_def eval_policies_no_deny)
  qed
qed

lemma set_applicable:
  "set (applicable c t ps res) =
     {rule. path_matched res rule \<and>
        (\<exists>n\<in>set ps. \<exists>rules. hm_get c (t, n) = Some rules \<and> rule \<in> set rules)}"
  by (auto simp: applicable_def split: option.splits) metis+

lemma evaluate_cong:
  assumes "\<And>n. hm_get c (t, n) = hm_get c' (t, n)"
  shows "evaluate c t ps action res = evaluate c' t ps action res"
proof -
  have "eval_policies c t req res ps = eval_policies c' t req res ps" for req
  proof (induction ps)
    case (Cons n ps)
    show ?case by (rule ext) (simp add: Cons.IH assms split: option.split)
  qed (rule ext, simp)
  then show ?thesis by (simp add: evaluate_def split: option.split)
qed

lemma compile_docs_fold:
  "compile_docs docs =
     fold (\<lambda>(k, v). AList.update k v) (map (\<lambda>(t, d). ((t, doc_name d), doc_rules d)) docs) []"
proof -
  have "fold (\<lambda>(t, d). upsert t (doc_name d) (doc_rules d)) docs m =
      fold (\<lambda>(k, v). AList.update k v) (map (\<lambda>(t, d). ((t, doc_name d), doc_rules d)) docs) m" for m
    by (induction docs arbitrary: m) (auto simp: upsert_def)
  then show ?thesis by (simp add: compile_docs_def compiled_new_def)
qed

lemma compile_docs_ok: "hm_ok (compile_docs docs)"
  unfolding compile_docs_fold by (rule hm.ok_fold_insert) simp

section \<open>The backend contract\<close>

text \<open>What the service and the compilation task rely on. A backend that keeps it serves
  every document under its own name.\<close>

locale policy_backend =
  fixes put :: "string \<Rightarrow> policy_document \<Rightarrow> 's \<Rightarrow> 's \<times> policy_document option"
    and lookup :: "'s \<Rightarrow> string \<Rightarrow> string \<Rightarrow> policy_document option"
    and delete :: "string \<Rightarrow> string \<Rightarrow> 's \<Rightarrow> 's \<times> policy_document option"
    and all_docs :: "'s \<Rightarrow> (string \<times> policy_document) list"
    and ok :: "'s \<Rightarrow> bool"
  assumes lookup_put: "ok s \<Longrightarrow> lookup (fst (put t d s)) t' n =
      (if t' = t \<and> n = doc_name d then Some d else lookup s t' n)"
    and lookup_delete: "ok s \<Longrightarrow> lookup (fst (delete t n s)) t' n' =
      (if t' = t \<and> n' = n then None else lookup s t' n')"
    and all_docs: "ok s \<Longrightarrow> (t, d) \<in> set (all_docs s) \<longleftrightarrow> lookup s t (doc_name d) = Some d"
    and lookup_name: "ok s \<Longrightarrow> lookup s t n = Some d \<Longrightarrow> doc_name d = n"
    and ok_put: "ok s \<Longrightarrow> ok (fst (put t d s))"
    and ok_delete: "ok s \<Longrightarrow> ok (fst (delete t n s))"
begin

definition agrees :: "'s \<Rightarrow> compiled_policies \<Rightarrow> bool" where
  "agrees s c \<longleftrightarrow> hm_ok c \<and> (\<forall>t n. hm_get c (t, n) = map_option doc_rules (lookup s t n))"

lemma compile_lookup:
  assumes "ok s"
  shows "hm_get (compile_docs (all_docs s)) (t, n) = map_option doc_rules (lookup s t n)"
proof -
  let ?kvs = "map (\<lambda>(t, d). ((t, doc_name d), doc_rules d)) (all_docs s)"
  have lk: "hm_get (compile_docs (all_docs s)) (t, n) = map_of (rev ?kvs) (t, n)"
    unfolding compile_docs_fold by (subst hm.lookup_fold_insert) (auto split: option.splits)
  show ?thesis
  proof (cases "lookup s t n")
    case None
    then have "(t, n) \<notin> fst ` set (rev ?kvs)" using all_docs [OF assms] by force
    then show ?thesis unfolding lk None by (simp add: map_of_eq_None_iff)
  next
    case (Some d)
    then have dn: "doc_name d = n" by (rule lookup_name [OF assms])
    then have "(t, d) \<in> set (all_docs s)" using all_docs [OF assms] Some by simp
    then have "((t, n), doc_rules d) \<in> set (rev ?kvs)" using dn by force
    then obtain rs where rs: "map_of (rev ?kvs) (t, n) = Some rs"
      by (blast dest: weak_map_of_SomeI)
    then have "((t, n), rs) \<in> set ?kvs" by (auto dest: map_of_SomeD)
    then obtain d' where "(t, d') \<in> set (all_docs s)" "doc_name d' = n" "rs = doc_rules d'" by auto
    then have "rs = doc_rules d" using all_docs [OF assms] Some by auto
    then show ?thesis using Some rs by (simp add: lk)
  qed
qed

lemma agrees_compile: "ok s \<Longrightarrow> agrees s (compile_docs (all_docs s))"
  by (simp add: agrees_def compile_lookup compile_docs_ok)

lemma agrees_put:
  "ok s \<Longrightarrow> agrees s c \<Longrightarrow> agrees (fst (put t d s)) (upsert t (doc_name d) (doc_rules d) c)"
  by (auto simp: agrees_def upsert_def lookup_put)

lemma agrees_delete:
  "ok s \<Longrightarrow> agrees s c \<Longrightarrow> agrees (fst (delete t n s)) (fst (compiled_remove t n c))"
  by (auto simp: agrees_def compiled_remove_def lookup_delete)

end

definition policy_store_ok :: "policy_store \<Rightarrow> bool" where
  "policy_store_ok store \<longleftrightarrow> hm_ok store \<and> list_all (\<lambda>((t, n), d). doc_name d = n) store"

lemma policy_store_ok_get:
  "policy_store_ok s \<Longrightarrow> hm_get s (t, n) = Some d \<Longrightarrow> doc_name d = n"
  by (auto simp: policy_store_ok_def list_all_iff dest!: map_of_SomeD)

lemma policy_store_ok_iff:
  "policy_store_ok s \<longleftrightarrow> hm_ok s \<and> (\<forall>t n d. hm_get s (t, n) = Some d \<longrightarrow> doc_name d = n)"
  by (auto simp: policy_store_ok_def list_all_iff hm_get_iff)

interpretation pb: policy_backend put_policy get_policy delete_policy get_all policy_store_ok
proof unfold_locales
  fix s t d
  assume ok: "policy_store_ok s"
  show "(t, d) \<in> set (get_all s) \<longleftrightarrow> get_policy s t (doc_name d) = Some d"
    using ok by (auto simp: get_all_def get_policy_def hm_get_iff policy_store_ok_def list_all_iff
        intro: rev_image_eqI)
qed (auto simp: put_policy_def get_policy_def delete_policy_def policy_store_ok_iff
    dest: policy_store_ok_get split: if_splits)

section \<open>The service as a whole\<close>

text \<open>The invariant between the two pieces of state: every stored document carries its own
  name, and the snapshot holds exactly the stored rules. A request is one handler
  call or one compilation tick.\<close>

definition service_ok :: "policy_service \<Rightarrow> bool" where
  "service_ok svc \<longleftrightarrow> policy_store_ok (svc_store svc) \<and> hm_ok (svc_compiled svc) \<and>
     (\<forall>t n. hm_get (svc_compiled svc) (t, n) =
        map_option doc_rules (get_policy (svc_store svc) t n))"

datatype policy_request =
    Put_Policy string "proto_document option"
  | Delete_Policy string string
  | Compile_Tick

fun policy_request_step :: "policy_service \<Rightarrow> policy_request \<Rightarrow> policy_service" where
  "policy_request_step svc (Put_Policy t d) = fst (put_policy_handler svc t d)"
| "policy_request_step svc (Delete_Policy t n) = fst (delete_policy_handler svc t n)"
| "policy_request_step svc Compile_Tick = compilation_tick svc"

definition policy_service_new :: policy_service where
  "policy_service_new = \<lparr>svc_store = [], svc_compiled = compiled_new\<rparr>"

lemma service_ok_agrees:
  "service_ok svc \<longleftrightarrow>
     policy_store_ok (svc_store svc) \<and> pb.agrees (svc_store svc) (svc_compiled svc)"
  by (auto simp: service_ok_def pb.agrees_def)

lemma put_policy_handler_ok:
  "service_ok svc \<Longrightarrow> service_ok (fst (put_policy_handler svc t d))"
  by (auto simp: put_policy_handler_def service_ok_agrees pb.ok_put pb.agrees_put
      split: option.splits sum.splits)

lemma delete_policy_handler_ok:
  "service_ok svc \<Longrightarrow> service_ok (fst (delete_policy_handler svc t n))"
  by (auto simp: delete_policy_handler_def service_ok_agrees pb.ok_delete pb.agrees_delete)

lemma compilation_tick_ok: "service_ok svc \<Longrightarrow> service_ok (compilation_tick svc)"
  by (simp add: compilation_tick_def service_ok_agrees pb.agrees_compile)

lemma service_run_ok: "service_ok svc \<Longrightarrow> service_ok (foldl policy_request_step svc reqs)"
proof (induction reqs arbitrary: svc)
  case (Cons r reqs)
  then have "service_ok (policy_request_step svc r)"
    by (cases r) (simp_all add: put_policy_handler_ok delete_policy_handler_ok compilation_tick_ok)
  with Cons.IH show ?case by simp
qed simp

lemma service_new_ok: "service_ok policy_service_new"
  by (simp add: service_ok_def policy_service_new_def compiled_new_def policy_store_ok_def
      get_policy_def)

text \<open>The decision on the stored documents, with no snapshot in between.\<close>

definition stored_decision :: "policy_store \<Rightarrow> string \<Rightarrow> string list \<Rightarrow> string \<Rightarrow> string \<Rightarrow> policy_decision" where
  "stored_decision store tenant_id policies action resource =
     evaluate (map (\<lambda>(k, d). (k, doc_rules d)) store) tenant_id policies action resource"

lemma stored_decision_eq:
  "service_ok svc \<Longrightarrow> evaluate (svc_compiled svc) t ps a r = stored_decision (svc_store svc) t ps a r"
  unfolding stored_decision_def
  by (rule evaluate_cong) (simp add: service_ok_def get_policy_def map_of_map)

section \<open>Interleavings\<close>

text \<open>
  A handler takes the two locks one after the other, and the compilation task reads the
  store before it takes the lock of the snapshot. \<open>policy_sys\<close> makes those points
  visible: \<open>sys_pending\<close> are the snapshot updates of handlers that have written the store
  and not yet the snapshot (the rules, or \<open>None\<close> for a removal), \<open>sys_task\<close> the documents
  the task has read and not yet swapped in.
\<close>

record policy_sys = policy_service +
  sys_pending :: "(string \<times> string \<times> policy_rule list option) list"
  sys_task :: "(string \<times> policy_document) list option"

definition apply_pending ::
  "string \<times> string \<times> policy_rule list option \<Rightarrow> compiled_policies \<Rightarrow> compiled_policies" where
  "apply_pending u c = (case u of
     (t, n, Some rules) \<Rightarrow> upsert t n rules c
   | (t, n, None) \<Rightarrow> fst (compiled_remove t n c))"

inductive policy_step :: "policy_sys \<Rightarrow> policy_sys \<Rightarrow> bool" where
  step_put: "policy_step s (s\<lparr>svc_store := fst (put_policy t d (svc_store s)),
      sys_pending := sys_pending s @ [(t, doc_name d, Some (doc_rules d))]\<rparr>)"
| step_delete: "get_policy (svc_store s) t n \<noteq> None \<Longrightarrow>
    policy_step s (s\<lparr>svc_store := fst (delete_policy t n (svc_store s)),
      sys_pending := sys_pending s @ [(t, n, None)]\<rparr>)"
| step_flush: "sys_pending s = us @ u # vs \<Longrightarrow>
    policy_step s (s\<lparr>svc_compiled := apply_pending u (svc_compiled s), sys_pending := us @ vs\<rparr>)"
| step_read: "sys_task s = None \<Longrightarrow> policy_step s (s\<lparr>sys_task := Some (get_all (svc_store s))\<rparr>)"
| step_swap: "sys_task s = Some docs \<Longrightarrow>
    policy_step s (s\<lparr>svc_compiled := compile_docs docs, sys_task := None\<rparr>)"

definition policy_sys_new :: policy_sys where
  "policy_sys_new = \<lparr>svc_store = [], svc_compiled = [], sys_pending = [], sys_task = None\<rparr>"

lemma policy_step_store_ok:
  "policy_step s s' \<Longrightarrow> policy_store_ok (svc_store s) \<Longrightarrow> policy_store_ok (svc_store s')"
  by (induction rule: policy_step.induct) (auto simp: pb.ok_put pb.ok_delete)

lemma policy_steps_store_ok:
  "policy_step\<^sup>*\<^sup>* policy_sys_new s \<Longrightarrow> policy_store_ok (svc_store s)"
proof (induction rule: rtranclp_induct)
  case base
  show ?case by (simp add: policy_sys_new_def policy_store_ok_def)
next
  case (step s s')
  then show ?case by (blast intro: policy_step_store_ok)
qed

section \<open>Properties\<close>

text \<open>C1. Deny wins and nothing is granted by default: a request is allowed exactly when
  its action is known, some rule of the caller's policies that matches the resource
  grants the capability, and no such rule carries the deny capability.\<close>

theorem evaluate_allow_iff:
  "evaluate compiled tenant_id policies action resource = Allow \<longleftrightarrow>
     (\<exists>required. from_action action = Some required \<and>
        list_ex (\<lambda>rule. required \<in> rule_capabilities rule)
          (applicable compiled tenant_id policies resource) \<and>
        list_all (\<lambda>rule. Cap_Deny \<notin> rule_capabilities rule)
          (applicable compiled tenant_id policies resource))"
  by (auto simp: evaluate_allow denies_def list_ex_iff list_all_iff)

text \<open>Whether a request is allowed depends on the set of policy names only: neither
  their order nor repetitions matter.\<close>

theorem evaluate_order_irrelevant:
  assumes "set policies = set policies'"
  shows "evaluate compiled t policies action res = Allow \<longleftrightarrow>
    evaluate compiled t policies' action res = Allow"
  using assms by (simp add: evaluate_allow list_ex_iff set_applicable)

theorem evaluate_order_irrelevant_witness:
  "evaluate [((''t'', ''a''), [\<lparr>rule_paths = [''**''], rule_capabilities = {Cap_Read}\<rparr>])]
     ''t'' [''a'', ''b''] ''read'' ''x'' = Allow \<longleftrightarrow>
   evaluate [((''t'', ''a''), [\<lparr>rule_paths = [''**''], rule_capabilities = {Cap_Read}\<rparr>])]
     ''t'' [''b'', ''a'', ''b''] ''read'' ''x'' = Allow"
  by (rule evaluate_order_irrelevant) auto

text \<open>C4. Tenant isolation of the snapshot: writing or removing a policy of one tenant
  changes no decision of another, whatever the policies are called.\<close>

theorem evaluate_tenant_isolation:
  assumes "hm_ok compiled" and "other \<noteq> tenant_id"
  shows "evaluate (upsert other name rules compiled) tenant_id policies action resource =
      evaluate compiled tenant_id policies action resource \<and>
    evaluate (fst (compiled_remove other name compiled)) tenant_id policies action resource =
      evaluate compiled tenant_id policies action resource"
  using assms by (auto simp: upsert_def compiled_remove_def intro!: evaluate_cong)

theorem evaluate_tenant_isolation_witness:
  "evaluate (upsert ''a'' ''admin'' [\<lparr>rule_paths = [''**''], rule_capabilities = {Cap_Read}\<rparr>] [])
     ''b'' [''admin''] ''read'' ''x'' = evaluate [] ''b'' [''admin''] ''read'' ''x''"
  using evaluate_tenant_isolation [of "[]" "''a''" "''b''" "''admin''"] by simp

text \<open>C3. After any sequence of put and delete calls and compilation ticks, successful or
  not, the service decides every authorization on exactly the documents in the
  store.\<close>

theorem service_decides_on_stored:
  "let svc = foldl policy_request_step policy_service_new reqs in
     evaluate (svc_compiled svc) t policies action resource =
       stored_decision (svc_store svc) t policies action resource"
  unfolding Let_def by (rule stored_decision_eq) (rule service_run_ok [OF service_new_ok])

text \<open>C5. Whatever interleaving of handlers and compilation ticks led to a state, a tick
  that reads and swaps with nothing in between leaves the snapshot equal to the
  stored rules.\<close>

theorem tick_recovers:
  assumes "policy_step\<^sup>*\<^sup>* policy_sys_new s" and "sys_task s = None"
  shows "\<exists>s1 s2. policy_step s s1 \<and> policy_step s1 s2 \<and> svc_store s2 = svc_store s \<and>
    (\<forall>t n. hm_get (svc_compiled s2) (t, n) = map_option doc_rules (get_policy (svc_store s) t n))"
proof -
  let ?s1 = "s\<lparr>sys_task := Some (get_all (svc_store s))\<rparr>"
  let ?s2 = "?s1\<lparr>svc_compiled := compile_docs (get_all (svc_store s)), sys_task := None\<rparr>"
  have "policy_step s ?s1" using assms(2) by (rule step_read)
  moreover have "policy_step ?s1 ?s2" by (rule step_swap) simp
  moreover have "pb.agrees (svc_store s) (compile_docs (get_all (svc_store s)))"
    using policy_steps_store_ok [OF assms(1)] by (rule pb.agrees_compile)
  ultimately show ?thesis
    by (intro exI [of _ ?s1] exI [of _ ?s2]) (simp add: pb.agrees_def)
qed

theorem tick_recovers_witness:
  "\<exists>s1 s2. policy_step policy_sys_new s1 \<and> policy_step s1 s2 \<and> svc_store s2 = []"
  using tick_recovers [of policy_sys_new] by (auto simp: policy_sys_new_def)

text \<open>C6. A tick that overlaps a delete undoes it: there is a run at whose end no
  handler and no tick is in flight, the policy is gone from the store, and a request
  that only that policy granted is still allowed. It stays so until the next tick.\<close>

theorem stale_tick_resurrects_deleted_policy:
  "\<exists>s. policy_step\<^sup>*\<^sup>* policy_sys_new s \<and> sys_pending s = [] \<and> sys_task s = None \<and>
     svc_store s = [] \<and>
     evaluate (svc_compiled s) ''t'' [''admin''] ''read'' ''secret'' = Allow"
proof -
  let ?r = "\<lparr>rule_paths = [''secret''], rule_capabilities = {Cap_Read}\<rparr>"
  let ?d = "\<lparr>doc_name = ''admin'', doc_rules = [?r]\<rparr>"
  let ?store = "[((''t'', ''admin''), ?d)]"
  let ?c = "[((''t'', ''admin''), [?r])]"
  let ?sys = "\<lambda>st c p tk. \<lparr>svc_store = st, svc_compiled = c, sys_pending = p, sys_task = tk\<rparr> :: policy_sys"
  have 1: "policy_step policy_sys_new (?sys ?store [] [(''t'', ''admin'', Some [?r])] None)"
    using step_put [of policy_sys_new "''t''" ?d] by (simp add: policy_sys_new_def put_policy_def)
  have 2: "policy_step (?sys ?store [] [(''t'', ''admin'', Some [?r])] None) (?sys ?store ?c [] None)"
    using step_flush [of "?sys ?store [] [(''t'', ''admin'', Some [?r])] None" "[]"]
    by (simp add: apply_pending_def upsert_def)
  have 3: "policy_step (?sys ?store ?c [] None) (?sys ?store ?c [] (Some [(''t'', ?d)]))"
    using step_read [of "?sys ?store ?c [] None"] by (simp add: get_all_def)
  have 4: "policy_step (?sys ?store ?c [] (Some [(''t'', ?d)]))
      (?sys [] ?c [(''t'', ''admin'', None)] (Some [(''t'', ?d)]))"
    using step_delete [of "?sys ?store ?c [] (Some [(''t'', ?d)])" "''t''" "''admin''"]
    by (simp add: get_policy_def delete_policy_def)
  have 5: "policy_step (?sys [] ?c [(''t'', ''admin'', None)] (Some [(''t'', ?d)]))
      (?sys [] [] [] (Some [(''t'', ?d)]))"
    using step_flush [of "?sys [] ?c [(''t'', ''admin'', None)] (Some [(''t'', ?d)])" "[]"]
    by (simp add: apply_pending_def compiled_remove_def)
  have 6: "policy_step (?sys [] [] [] (Some [(''t'', ?d)])) (?sys [] ?c [] None)"
    using step_swap [of "?sys [] [] [] (Some [(''t'', ?d)])"]
    by (simp add: compile_docs_def compiled_new_def upsert_def)
  from 1 2 3 4 5 6 have "policy_step\<^sup>*\<^sup>* policy_sys_new (?sys [] ?c [] None)"
    by (meson converse_rtranclp_into_rtranclp rtranclp.rtrancl_refl)
  moreover have "glob_match ''secret'' ''secret''"
    by (simp add: glob_match_def glob_match_recursive_sound(1) segs_def Let_def seg_matches_literal)
  then have "evaluate ?c ''t'' [''admin''] ''read'' ''secret'' = Allow"
    by (simp add: evaluate_def from_action_def path_matched_def)
  ultimately show ?thesis by (intro exI [of _ "?sys [] ?c [] None"]) simp
qed

end
