(* ===== verification/Secret_Backend.thy ===== *)
theory Secret_Backend
  imports Vault_Prelude
begin

text \<open>
  The contract the secret engine's handlers rely on when they write through the
  \<^verbatim>\<open>SecretStoreBackend\<close> trait (\<^verbatim>\<open>services/secret-engine/src/kv_store.rs\<close>), and what
  follows from it for any sequence of writes. Both backends are shown to keep it, each
  in its own theory.
\<close>

text \<open>What a reader should see at a key after some writes: the last accepted one.\<close>

fun last_accepted ::
  "('w \<Rightarrow> 's \<Rightarrow> 's \<times> ('e + 'r)) \<Rightarrow> ('w \<Rightarrow> 'k) \<Rightarrow> ('w \<Rightarrow> 'v) \<Rightarrow> 'k \<Rightarrow> 'w list \<Rightarrow> 's \<Rightarrow> 'v option \<Rightarrow> 'v option" where
  "last_accepted put key stored k [] s seen = seen"
| "last_accepted put key stored k (w # ws) s seen =
     (case put w s of
        (s', Inl _) \<Rightarrow> last_accepted put key stored k ws s' seen
      | (s', Inr _) \<Rightarrow> last_accepted put key stored k ws s' (if key w = k then Some (stored w) else seen))"

text \<open>Every write of a sequence is admissible in the state it meets.\<close>

fun all_admissible :: "('w \<Rightarrow> 's \<Rightarrow> 's \<times> 'r) \<Rightarrow> ('s \<Rightarrow> 'w \<Rightarrow> bool) \<Rightarrow> 'w list \<Rightarrow> 's \<Rightarrow> bool" where
  "all_admissible put adm [] s \<longleftrightarrow> True"
| "all_admissible put adm (w # ws) s \<longleftrightarrow> adm s w \<and> all_admissible put adm ws (fst (put w s))"

locale versioned_store =
  fixes put :: "'w \<Rightarrow> 's \<Rightarrow> 's \<times> ('e + 'r)"
    and read :: "'s \<Rightarrow> 'k \<Rightarrow> 'v option"
    and key :: "'w \<Rightarrow> 'k"
    and stored :: "'w \<Rightarrow> 'v"
    and admissible :: "'s \<Rightarrow> 'w \<Rightarrow> bool"
    and ok :: "'s \<Rightarrow> bool"
  assumes put_ok: "ok s \<Longrightarrow> admissible s w \<Longrightarrow> ok (fst (put w s))"
    and put_read: "ok s \<Longrightarrow> admissible s w \<Longrightarrow> put w s = (s', Inr r) \<Longrightarrow> read s' (key w) = Some (stored w)"
    and put_frame: "ok s \<Longrightarrow> admissible s w \<Longrightarrow> k \<noteq> key w \<Longrightarrow> read (fst (put w s)) k = read s k"
    and put_rejected: "ok s \<Longrightarrow> admissible s w \<Longrightarrow> put w s = (s', Inl e) \<Longrightarrow> read s' k = read s k"
begin

lemma ok_run:
  "ok s \<Longrightarrow> all_admissible put admissible ws s \<Longrightarrow> ok (fold (\<lambda>w s. fst (put w s)) ws s)"
  by (induction ws arbitrary: s) (auto intro: put_ok)

lemma last_write_wins:
  "ok s \<Longrightarrow> all_admissible put admissible ws s \<Longrightarrow>
     read (fold (\<lambda>w s. fst (put w s)) ws s) k = last_accepted put key stored k ws s (read s k)"
proof (induction ws arbitrary: s)
  case (Cons w ws)
  obtain s' r where p: "put w s = (s', r)" by (cases "put w s")
  have adm: "admissible s w" and ok': "ok s'"
    using Cons.prems put_ok [of s w] p by auto
  have IH: "read (fold (\<lambda>w s. fst (put w s)) ws s') k = last_accepted put key stored k ws s' (read s' k)"
    using Cons.IH [OF ok'] Cons.prems p by simp
  show ?case
  proof (cases r)
    case (Inl e)
    with put_rejected [OF Cons.prems(1) adm] p IH show ?thesis by simp
  next
    case (Inr x)
    with put_read [OF Cons.prems(1) adm] put_frame [OF Cons.prems(1) adm, of k] p IH
    show ?thesis by (cases "key w = k") auto
  qed
qed simp

end

end
