(* ===== verification/KV_Store.thy ===== *)
theory KV_Store
  imports Secret_Path Secret_Backend
begin

text \<open>
  The in-memory secret store (\<^verbatim>\<open>KvStore\<close> in
  \<^verbatim>\<open>services/secret-engine/src/kv_store.rs\<close>): versioned entries per tenant and path,
  check-and-set writes, pruning to \<^verbatim>\<open>max_versions\<close>, soft deletion and destruction.

  Every method holds the store's lock from its first to its last statement, so each is
  one function on the store. What the methods take from their surroundings, the current
  time and a fresh UUID, is an argument. A method that changes the store returns the
  new store with its result: a rejected write may have changed it too.
\<close>

section \<open>Data\<close>

record version_entry =
  ve_version :: u32
  ve_ciphertext :: string
  ve_dek_id :: string
  ve_created_at :: datetime
  ve_deleted_at :: "datetime option"
  ve_destroyed :: bool
  ve_custom_metadata :: "(string, string) hash_map"

record secret_entry =
  se_secret_id :: string
  se_tenant_id :: string
  se_path :: string
  se_max_versions :: u32
  se_cas_required :: bool
  se_created_at :: datetime
  se_updated_at :: datetime
  se_versions :: "version_entry list"
  se_environment :: string
  se_tags :: "string list"
  se_custom_metadata :: "(string, string) hash_map"

type_synonym secret_key = "string \<times> string"
type_synonym kv_store = "(secret_key, secret_entry) hash_map"

datatype version_status = VS_Active | VS_Pending | VS_Deprecated | VS_Revoked

fun version_status_as_str :: "version_status \<Rightarrow> string" where
  "version_status_as_str VS_Active = ''active''"
| "version_status_as_str VS_Pending = ''pending''"
| "version_status_as_str VS_Deprecated = ''deprecated''"
| "version_status_as_str VS_Revoked = ''revoked''"

definition version_status_from_str :: "string \<Rightarrow> string + version_status" where
  "version_status_from_str s =
     (if s = ''active'' then Inr VS_Active
      else if s = ''pending'' then Inr VS_Pending
      else if s = ''deprecated'' then Inr VS_Deprecated
      else if s = ''revoked'' then Inr VS_Revoked
      else Inl (''unknown version status: '' @ s))"

record rotation_info =
  ri_rotation_id :: string
  ri_secret_id :: string
  ri_path :: string
  ri_old_version :: u32
  ri_new_version :: u32
  ri_status :: string
  ri_initiated_by :: string
  ri_confirmed_by :: "string option"
  ri_created_at :: datetime
  ri_confirmed_at :: "datetime option"
  ri_grace_ends_at :: "datetime option"
  ri_expires_at :: datetime

record version_meta =
  vm_version :: u32
  vm_status :: version_status
  vm_created_by :: "string option"
  vm_created_at :: datetime
  vm_deleted_at :: "datetime option"
  vm_deprecated_at :: "datetime option"
  vm_revoked_at :: "datetime option"
  vm_destroyed :: bool

definition DEFAULT_MAX_VERSIONS :: u32 where
  "DEFAULT_MAX_VERSIONS = 10"

section \<open>Operations\<close>

definition live :: "version_entry \<Rightarrow> bool" where
  "live v \<longleftrightarrow> \<not> ve_destroyed v \<and> ve_deleted_at v = None"

definition current_version_number :: "secret_entry \<Rightarrow> u32" where
  "current_version_number e =
     (case find live (rev (se_versions e)) of None \<Rightarrow> 0 | Some v \<Rightarrow> ve_version v)"

definition get_version :: "secret_entry \<Rightarrow> u32 \<Rightarrow> version_entry option" where
  "get_version e version = find (\<lambda>v. ve_version v = version) (se_versions e)"

definition kv_get :: "kv_store \<Rightarrow> string \<Rightarrow> string \<Rightarrow> u32 option \<Rightarrow> vault_error + version_entry" where
  "kv_get store tenant_id path version =
     and_then (ok_or (SecretNotFound path version) (hm_get store (tenant_id, path))) (\<lambda>entry.
       let target_version = (case version of Some v \<Rightarrow> v | None \<Rightarrow> current_version_number entry) in
       if target_version = 0 then Inl (SecretNotFound path None)
       else and_then (ok_or (SecretNotFound path (Some target_version)) (get_version entry target_version))
         (\<lambda>ver_entry.
           if ve_destroyed ver_entry then Inl (VersionDestroyed target_version)
           else Inr ver_entry))"

definition parse_tags :: "string \<Rightarrow> string list" where
  "parse_tags s = filter (\<lambda>t. t \<noteq> []) (map trim (split_on CHR '','' s))"

definition new_entry ::
  "string \<Rightarrow> string \<Rightarrow> string \<Rightarrow> u32 option \<Rightarrow> (string, string) hash_map \<Rightarrow> u32 option \<Rightarrow> datetime \<Rightarrow> secret_entry" where
  "new_entry secret_id tenant_id path cas custom_metadata max_versions now =
     \<lparr>se_secret_id = secret_id,
      se_tenant_id = tenant_id,
      se_path = path,
      se_max_versions = (case max_versions of Some mv \<Rightarrow> mv | None \<Rightarrow> DEFAULT_MAX_VERSIONS),
      se_cas_required = (cas \<noteq> None),
      se_created_at = now,
      se_updated_at = now,
      se_versions = [],
      se_environment = (case hm_get custom_metadata ''environment'' of Some env \<Rightarrow> env | None \<Rightarrow> ''INT''),
      se_tags = (case hm_get custom_metadata ''tags'' of Some s \<Rightarrow> parse_tags s | None \<Rightarrow> []),
      se_custom_metadata = custom_metadata\<rparr>"

text \<open>The labels, the metadata and the limit are written before the check-and-set test.\<close>

definition refresh_entry ::
  "(string, string) hash_map \<Rightarrow> u32 option \<Rightarrow> secret_entry \<Rightarrow> secret_entry" where
  "refresh_entry custom_metadata max_versions e =
     e\<lparr>se_environment :=
         (case hm_get custom_metadata ''environment'' of Some env \<Rightarrow> env | None \<Rightarrow> se_environment e),
       se_tags :=
         (case hm_get custom_metadata ''tags'' of Some tags \<Rightarrow> parse_tags tags | None \<Rightarrow> se_tags e),
       se_custom_metadata := custom_metadata,
       se_max_versions := (case max_versions of Some mv \<Rightarrow> mv | None \<Rightarrow> se_max_versions e)\<rparr>"

definition push_version ::
  "string \<Rightarrow> string \<Rightarrow> (string, string) hash_map \<Rightarrow> datetime \<Rightarrow> secret_entry \<Rightarrow> secret_entry" where
  "push_version ciphertext dek_id custom_metadata now e =
     e\<lparr>se_versions := se_versions e @
         [\<lparr>ve_version = current_version_number e + 1,
           ve_ciphertext = ciphertext,
           ve_dek_id = dek_id,
           ve_created_at = now,
           ve_deleted_at = None,
           ve_destroyed = False,
           ve_custom_metadata = custom_metadata\<rparr>],
       se_updated_at := now\<rparr>"

definition prune_versions :: "secret_entry \<Rightarrow> secret_entry" where
  "prune_versions e =
     (let live_versions = map ve_version (filter (\<lambda>v. \<not> ve_destroyed v) (se_versions e));
          n = (of_nat (length live_versions) :: u32)
      in if n > se_max_versions e then
           let excess = n - se_max_versions e;
               to_remove = set (take (unat excess) live_versions)
           in e\<lparr>se_versions := filter (\<lambda>v. ve_version v \<notin> to_remove) (se_versions e)\<rparr>
         else e)"

definition kv_put ::
  "kv_store \<Rightarrow> string \<Rightarrow> string \<Rightarrow> string \<Rightarrow> string \<Rightarrow> u32 option \<Rightarrow> (string, string) hash_map \<Rightarrow>
   u32 option \<Rightarrow> datetime \<Rightarrow> string \<Rightarrow> kv_store \<times> (vault_error + string \<times> u32)" where
  "kv_put store tenant_id path ciphertext dek_id cas custom_metadata max_versions now fresh_id =
     (let key = (tenant_id, path);
          entry0 = (case hm_get store key of
                      Some e \<Rightarrow> e
                    | None \<Rightarrow> new_entry fresh_id tenant_id path cas custom_metadata max_versions now);
          entry = refresh_entry custom_metadata max_versions entry0;
          current = current_version_number entry
      in if cas \<noteq> None \<and> current \<noteq> the cas then
           (hm_insert key entry store, Inl (CasConflict (the cas) current))
         else
           (hm_insert key (prune_versions (push_version ciphertext dek_id custom_metadata now entry)) store,
            Inr (se_secret_id entry, current + 1)))"

text \<open>The loop over \<^verbatim>\<open>iter_mut()\<close> with its counter, for both kinds of deletion.\<close>

fun update_counting ::
  "(version_entry \<Rightarrow> bool) \<Rightarrow> (version_entry \<Rightarrow> version_entry) \<Rightarrow> version_entry list \<Rightarrow> u32 \<Rightarrow>
   version_entry list \<times> u32" where
  "update_counting hit f [] n = ([], n)"
| "update_counting hit f (v # vs) n =
     (if hit v then let (vs', n') = update_counting hit f vs (n + 1) in (f v # vs', n')
      else let (vs', n') = update_counting hit f vs n in (v # vs', n'))"

definition soft_delete_targets :: "secret_entry \<Rightarrow> u32 list \<Rightarrow> u32 set" where
  "soft_delete_targets entry versions =
     (if versions = [] then
        (let current = current_version_number entry in if current > 0 then {current} else {})
      else set versions)"

definition kv_soft_delete ::
  "kv_store \<Rightarrow> string \<Rightarrow> string \<Rightarrow> u32 list \<Rightarrow> datetime \<Rightarrow> kv_store \<times> (vault_error + u32)" where
  "kv_soft_delete store tenant_id path versions now =
     (case hm_get store (tenant_id, path) of
        None \<Rightarrow> (store, Inl (SecretNotFound path None))
      | Some entry \<Rightarrow>
          let target_versions = soft_delete_targets entry versions;
              (vs, deleted_count) = update_counting
                (\<lambda>ver. ve_version ver \<in> target_versions \<and> \<not> ve_destroyed ver \<and> ve_deleted_at ver = None)
                (\<lambda>ver. ver\<lparr>ve_deleted_at := Some now\<rparr>)
                (se_versions entry) 0
          in (hm_insert (tenant_id, path) (entry\<lparr>se_versions := vs\<rparr>) store, Inr deleted_count))"

definition destroy_targets :: "secret_entry \<Rightarrow> u32 list \<Rightarrow> u32 set" where
  "destroy_targets entry versions =
     (if versions = [] then set (map ve_version (filter (\<lambda>v. \<not> ve_destroyed v) (se_versions entry)))
      else set versions)"

definition destroy_version :: "datetime \<Rightarrow> version_entry \<Rightarrow> version_entry" where
  "destroy_version now ver =
     ver\<lparr>ve_ciphertext := [], ve_dek_id := [], ve_destroyed := True,
         ve_deleted_at := (case ve_deleted_at ver of Some t \<Rightarrow> Some t | None \<Rightarrow> Some now)\<rparr>"

definition kv_destroy ::
  "kv_store \<Rightarrow> string \<Rightarrow> string \<Rightarrow> u32 list \<Rightarrow> datetime \<Rightarrow> kv_store \<times> (vault_error + u32)" where
  "kv_destroy store tenant_id path versions now =
     (case hm_get store (tenant_id, path) of
        None \<Rightarrow> (store, Inl (SecretNotFound path None))
      | Some entry \<Rightarrow>
          let target_versions = destroy_targets entry versions;
              (vs, destroyed_count) = update_counting
                (\<lambda>ver. ve_version ver \<in> target_versions \<and> \<not> ve_destroyed ver)
                (destroy_version now)
                (se_versions entry) 0
          in (hm_insert (tenant_id, path) (entry\<lparr>se_versions := vs\<rparr>) store, Inr destroyed_count))"

definition kv_list :: "kv_store \<Rightarrow> string \<Rightarrow> string \<Rightarrow> string list" where
  "kv_list store tenant_id prefix =
     map (\<lambda>((t, p), e). p)
       (filter (\<lambda>((t, p), e). t = tenant_id \<and> (prefix = [] \<or> starts_with p prefix) \<and>
          list_ex (\<lambda>v. \<not> ve_destroyed v) (se_versions e)) store)"

definition get_metadata :: "kv_store \<Rightarrow> string \<Rightarrow> string \<Rightarrow> vault_error + secret_entry" where
  "get_metadata store tenant_id path =
     ok_or (SecretNotFound path None) (hm_get store (tenant_id, path))"

definition list_versions :: "kv_store \<Rightarrow> string \<Rightarrow> string \<Rightarrow> vault_error + version_meta list" where
  "list_versions store tenant_id path =
     and_then (get_metadata store tenant_id path) (\<lambda>entry.
       Inr (map (\<lambda>v. \<lparr>vm_version = ve_version v, vm_status = VS_Active, vm_created_by = None,
                      vm_created_at = ve_created_at v, vm_deleted_at = ve_deleted_at v,
                      vm_deprecated_at = None, vm_revoked_at = None, vm_destroyed = ve_destroyed v\<rparr>)
             (se_versions entry)))"

text \<open>The lifecycle methods of the trait that this backend refuses.\<close>

definition initiate_rotation ::
  "kv_store \<Rightarrow> string \<Rightarrow> string \<Rightarrow> string \<Rightarrow> string \<Rightarrow> string \<Rightarrow> string option \<Rightarrow> int option \<Rightarrow>
   kv_store \<times> (vault_error + string \<times> u32)" where
  "initiate_rotation store tenant_id path ciphertext dek_id initiated_by webhook_url timeout_secs =
     (store, Inl (UnsupportedOperation ''kv_memory'' ''initiate_rotation''))"

definition confirm_rotation ::
  "kv_store \<Rightarrow> string \<Rightarrow> string \<Rightarrow> string \<Rightarrow> kv_store \<times> (vault_error + u32 \<times> u32 \<times> datetime)" where
  "confirm_rotation store tenant_id rotation_id confirmed_by =
     (store, Inl (UnsupportedOperation ''kv_memory'' ''confirm_rotation''))"

definition rollback ::
  "kv_store \<Rightarrow> string \<Rightarrow> string \<Rightarrow> u32 \<Rightarrow> string \<Rightarrow> kv_store \<times> (vault_error + u32)" where
  "rollback store tenant_id path target_version rolled_back_by =
     (store, Inl (UnsupportedOperation ''kv_memory'' ''rollback''))"

definition get_active_rotation :: "kv_store \<Rightarrow> string \<Rightarrow> string \<Rightarrow> vault_error + rotation_info option" where
  "get_active_rotation store tenant_id path = Inr None"

section \<open>Vocabulary of the properties\<close>

definition entry_versions :: "kv_store \<Rightarrow> string \<Rightarrow> string \<Rightarrow> version_entry list" where
  "entry_versions store tenant_id path =
     (case hm_get store (tenant_id, path) of None \<Rightarrow> [] | Some e \<Rightarrow> se_versions e)"

text \<open>The history of a path whose newest version has been neither deleted nor destroyed.\<close>

definition versions_ok :: "version_entry list \<Rightarrow> bool" where
  "versions_ok vs \<longleftrightarrow>
     sorted_wrt (\<lambda>a b. ve_version a < ve_version b) vs \<and>
     list_all (\<lambda>v. ve_version v > 0) vs \<and>
     (vs = [] \<or> live (last vs))"

definition erased :: "version_entry \<Rightarrow> bool" where
  "erased v \<longleftrightarrow>
     (ve_destroyed v \<longrightarrow> ve_ciphertext v = [] \<and> ve_dek_id v = [] \<and> ve_deleted_at v \<noteq> None)"

text \<open>The write operations as values, with the tenant each acts for.\<close>

datatype kv_op =
    KvPut string string string string "u32 option" "(string, string) hash_map" "u32 option" datetime string
  | KvSoftDelete string string "u32 list" datetime
  | KvDestroy string string "u32 list" datetime

fun kv_step :: "kv_op \<Rightarrow> kv_store \<Rightarrow> kv_store" where
  "kv_step (KvPut t p c d cas md mv now i) s = fst (kv_put s t p c d cas md mv now i)"
| "kv_step (KvSoftDelete t p vs now) s = fst (kv_soft_delete s t p vs now)"
| "kv_step (KvDestroy t p vs now) s = fst (kv_destroy s t p vs now)"

fun kv_owner :: "kv_op \<Rightarrow> string" where
  "kv_owner (KvPut t p c d cas md mv now i) = t"
| "kv_owner (KvSoftDelete t p vs now) = t"
| "kv_owner (KvDestroy t p vs now) = t"

definition kv_view :: "kv_store \<Rightarrow> string \<Rightarrow> string \<Rightarrow> secret_entry option" where
  "kv_view s t = (\<lambda>p. hm_get s (t, p))"

text \<open>That an operation writes a version's content, and that two entries hold the same
  content under the same number.\<close>

fun kv_writes :: "kv_op \<Rightarrow> string \<Rightarrow> string \<Rightarrow> version_entry \<Rightarrow> bool" where
  "kv_writes (KvPut t' p' c d cas md mv now i) t p w \<longleftrightarrow>
     t' = t \<and> p' = p \<and> ve_ciphertext w = c \<and> ve_dek_id w = d \<and> ve_created_at w = now"
| "kv_writes (KvSoftDelete t' p' vs now) t p w \<longleftrightarrow> False"
| "kv_writes (KvDestroy t' p' vs now) t p w \<longleftrightarrow> False"

definition same_content :: "version_entry \<Rightarrow> version_entry \<Rightarrow> bool" where
  "same_content a b \<longleftrightarrow>
     ve_version a = ve_version b \<and> ve_ciphertext a = ve_ciphertext b \<and>
     ve_dek_id a = ve_dek_id b \<and> ve_created_at a = ve_created_at b"

definition kv_erased :: "kv_store \<Rightarrow> bool" where
  "kv_erased s \<longleftrightarrow> (\<forall>k e. hm_get s k = Some e \<longrightarrow> list_all erased (se_versions e))"

text \<open>The entry \<^const>\<open>kv_put\<close> works on before its check-and-set test.\<close>

definition put_base ::
  "kv_store \<Rightarrow> string \<Rightarrow> string \<Rightarrow> u32 option \<Rightarrow> (string, string) hash_map \<Rightarrow> u32 option \<Rightarrow> datetime \<Rightarrow>
   string \<Rightarrow> secret_entry" where
  "put_base store t p cas md mv now i =
     refresh_entry md mv (case hm_get store (t, p) of Some e \<Rightarrow> e | None \<Rightarrow> new_entry i t p cas md mv now)"

text \<open>A write as a value, what a reader of the latest version gets, and the stores on which
  the contract of \<^verbatim>\<open>SecretStoreBackend\<close> holds.\<close>

record kv_write =
  kw_key :: secret_key
  kw_ciphertext :: string
  kw_dek_id :: string
  kw_cas :: "u32 option"
  kw_custom_metadata :: "(string, string) hash_map"
  kw_max_versions :: "u32 option"
  kw_now :: datetime
  kw_fresh_id :: string

definition kv_write :: "kv_write \<Rightarrow> kv_store \<Rightarrow> kv_store \<times> (vault_error + string \<times> u32)" where
  "kv_write w s = kv_put s (fst (kw_key w)) (snd (kw_key w)) (kw_ciphertext w) (kw_dek_id w) (kw_cas w)
     (kw_custom_metadata w) (kw_max_versions w) (kw_now w) (kw_fresh_id w)"

definition kv_read :: "kv_store \<Rightarrow> secret_key \<Rightarrow> (string \<times> string) option" where
  "kv_read s k =
     (case kv_get s (fst k) (snd k) None of
        Inl _ \<Rightarrow> None
      | Inr v \<Rightarrow> Some (ve_ciphertext v, ve_dek_id v))"

definition kv_admissible :: "kv_store \<Rightarrow> kv_write \<Rightarrow> bool" where
  "kv_admissible s w \<longleftrightarrow> kw_max_versions w \<noteq> Some 0 \<and>
     (case hm_get s (kw_key w) of None \<Rightarrow> True | Some e \<Rightarrow> current_version_number e + 1 \<noteq> 0)"

definition kv_ok :: "kv_store \<Rightarrow> bool" where
  "kv_ok s \<longleftrightarrow> (\<forall>k e. hm_get s k = Some e \<longrightarrow> versions_ok (se_versions e) \<and> se_max_versions e > 0)"

section \<open>Lemmas\<close>

lemma update_counting_eq:
  "update_counting hit f vs n =
     (map (\<lambda>v. if hit v then f v else v) vs, n + of_nat (length (filter hit vs)))"
  by (induction vs arbitrary: n) (simp_all add: Let_def)

lemma version_status_roundtrip:
  "version_status_from_str s = Inr st \<longleftrightarrow> s = version_status_as_str st"
  by (cases st) (auto simp: version_status_from_str_def)

lemma find_skip: "\<forall>x\<in>set xs. \<not> P x \<Longrightarrow> find P (xs @ ys) = find P ys"
  by (induction xs) simp_all

lemma word_less_succ: "n + 1 \<noteq> 0 \<Longrightarrow> n < n + 1" for n :: u32
  using unatSuc [of n] by (simp add: word_less_nat_alt add.commute)

lemma refresh_entry_keeps [simp]:
  "se_versions (refresh_entry md mv e) = se_versions e"
  "se_secret_id (refresh_entry md mv e) = se_secret_id e"
  "current_version_number (refresh_entry md mv e) = current_version_number e"
  by (simp_all add: refresh_entry_def current_version_number_def)

lemma new_entry_versions [simp]: "se_versions (new_entry i t p cas md mv now) = []"
  by (simp add: new_entry_def)

lemma current_version_number_Nil [simp]:
  "se_versions e = [] \<Longrightarrow> current_version_number e = 0"
  by (simp add: current_version_number_def)

lemma current_version_number_last:
  "vs \<noteq> [] \<Longrightarrow> live (last vs) \<Longrightarrow> se_versions e = vs \<Longrightarrow>
     current_version_number e = ve_version (last vs)"
  by (cases vs rule: rev_cases) (simp_all add: current_version_number_def)

lemma unat_excess: "m < n \<Longrightarrow> unat (n - m) = unat n - unat m" for m n :: u32
  by (rule unat_sub) (rule less_imp_le)

lemma word_excess_less: "0 < m \<Longrightarrow> m < n \<Longrightarrow> unat (n - m) < unat n" for m n :: u32
  using unat_excess [of m n] by (simp add: word_less_nat_alt)

text \<open>Pruning: what is left, and how much.\<close>

lemma length_filter_not_in_take:
  "length (filter (\<lambda>x. f x \<notin> set (take k (map f xs))) xs) \<le> length xs - k"
proof -
  let ?P = "\<lambda>x. f x \<notin> set (take k (map f xs))"
  have "filter ?P (take k xs) = []"
    by (auto simp: filter_empty_conv take_map)
  then have "filter ?P xs = filter ?P (drop k xs)"
    by (metis append_Nil append_take_drop_id filter_append)
  then show ?thesis
    by (metis length_drop length_filter_le)
qed

lemma prune_versions_bound:
  assumes "length (se_versions e) < 2 ^ 32"
  shows "length (filter (\<lambda>v. \<not> ve_destroyed v) (se_versions (prune_versions e)))
           \<le> unat (se_max_versions e)"
proof -
  let ?L = "filter (\<lambda>v. \<not> ve_destroyed v) (se_versions e)"
  let ?n = "of_nat (length ?L) :: u32"
  have n: "unat ?n = length ?L"
    using assms le_less_trans [OF length_filter_le, of "se_versions e"]
    by (simp add: unat_of_nat)
  show ?thesis
  proof (cases "?n > se_max_versions e")
    case True
    let ?k = "unat (?n - se_max_versions e)"
    have k: "length ?L - ?k = unat (se_max_versions e)"
      using unat_excess [OF True] True n by (simp add: word_less_nat_alt)
    have "filter (\<lambda>v. \<not> ve_destroyed v) (se_versions (prune_versions e)) =
          filter (\<lambda>v. ve_version v \<notin> set (take ?k (map ve_version ?L))) ?L"
      using True by (simp add: prune_versions_def Let_def conj_commute)
    with length_filter_not_in_take [of ve_version ?k ?L] k show ?thesis by simp
  next
    case False
    with n show ?thesis by (simp add: prune_versions_def Let_def word_less_nat_alt)
  qed
qed

lemma prune_versions_frame [simp]:
  "se_max_versions (prune_versions e) = se_max_versions e"
  "se_secret_id (prune_versions e) = se_secret_id e"
  by (simp_all add: prune_versions_def Let_def)

lemma prune_versions_subset: "set (se_versions (prune_versions e)) \<subseteq> set (se_versions e)"
  by (auto simp: prune_versions_def Let_def)

lemma last_not_in_take:
  assumes "sorted_wrt (\<lambda>a b. f a < (f b :: 'b :: order)) (xs @ [x])" "k \<le> length xs"
  shows "f x \<notin> set (take k (map f (xs @ [x])))"
  using assms by (auto simp: sorted_wrt_append take_map dest: in_set_takeD)

text \<open>With a positive limit the newest version is never the one pruned.\<close>

lemma prune_versions_ok:
  assumes ok: "versions_ok (se_versions e)" and vs: "se_versions e = us @ [v]"
    and limit: "se_max_versions e > 0"
  shows "\<exists>us'. se_versions (prune_versions e) = us' @ [v] \<and> versions_ok (us' @ [v]) \<and>
           set us' \<subseteq> set us"
proof (cases "of_nat (length (filter (\<lambda>v. \<not> ve_destroyed v) (us @ [v]))) > se_max_versions e")
  case False
  with ok vs show ?thesis by (simp add: prune_versions_def Let_def)
next
  case True
  let ?U = "filter (\<lambda>v. \<not> ve_destroyed v) us"
  let ?n = "of_nat (length (?U @ [v])) :: u32"
  let ?k = "unat (?n - se_max_versions e)"
  have live: "\<not> ve_destroyed v" using ok vs by (simp add: versions_ok_def live_def)
  have big: "?n > se_max_versions e" using True live by simp
  have "unat (?n - se_max_versions e) < unat ?n"
    by (rule word_excess_less [OF limit big])
  also have "unat ?n \<le> length (?U @ [v])" by (simp only: unat_of_nat mod_less_eq_dividend)
  finally have k: "?k \<le> length ?U" by simp
  have sorted: "sorted_wrt (\<lambda>a b. ve_version a < ve_version b) (?U @ [v])"
    using ok vs by (auto simp: versions_ok_def sorted_wrt_append intro: sorted_wrt_filter)
  define R where "R = set (take ?k (map ve_version (?U @ [v])))"
  have notin: "ve_version v \<notin> R"
    unfolding R_def by (rule last_not_in_take [OF sorted k])
  have "se_versions (prune_versions e) = filter (\<lambda>w. ve_version w \<notin> R) us @ [v]"
    using big vs live notin by (simp add: prune_versions_def Let_def R_def)
  moreover have "versions_ok (filter (\<lambda>w. ve_version w \<notin> R) us @ [v])"
    using ok vs by (auto simp: versions_ok_def sorted_wrt_append list_all_iff intro: sorted_wrt_filter)
  ultimately show ?thesis by auto
qed

subsection \<open>What one operation does to the store\<close>

lemma put_base_versions [simp]: "se_versions (put_base store t p cas md mv now i) = entry_versions store t p"
  by (simp add: put_base_def entry_versions_def split: option.split)

lemma put_base_limit:
  "se_max_versions (put_base store t p cas md mv now i) =
     (case mv of Some m \<Rightarrow> m | None \<Rightarrow>
        (case hm_get store (t, p) of Some e \<Rightarrow> se_max_versions e | None \<Rightarrow> DEFAULT_MAX_VERSIONS))"
  by (simp add: put_base_def refresh_entry_def new_entry_def split: option.split)

lemma kv_put_eq:
  "kv_put store t p c d cas md mv now i =
     (let b = put_base store t p cas md mv now i; current = current_version_number b in
      if cas \<noteq> None \<and> current \<noteq> the cas
      then (hm_insert (t, p) b store, Inl (CasConflict (the cas) current))
      else (hm_insert (t, p) (prune_versions (push_version c d md now b)) store,
            Inr (se_secret_id b, current + 1)))"
  by (simp add: kv_put_def put_base_def Let_def)

lemma kv_soft_delete_eq:
  "kv_soft_delete store t p versions now =
     (case hm_get store (t, p) of
        None \<Rightarrow> (store, Inl (SecretNotFound p None))
      | Some e \<Rightarrow>
          (hm_insert (t, p) (e\<lparr>se_versions := map (\<lambda>v.
             if ve_version v \<in> soft_delete_targets e versions \<and> live v
             then v\<lparr>ve_deleted_at := Some now\<rparr> else v) (se_versions e)\<rparr>) store,
           Inr (of_nat (length (filter (\<lambda>v. ve_version v \<in> soft_delete_targets e versions \<and> live v)
             (se_versions e))))))"
  by (simp add: kv_soft_delete_def update_counting_eq live_def Let_def split: option.split)

lemma kv_destroy_eq:
  "kv_destroy store t p versions now =
     (case hm_get store (t, p) of
        None \<Rightarrow> (store, Inl (SecretNotFound p None))
      | Some e \<Rightarrow>
          (hm_insert (t, p) (e\<lparr>se_versions := map (\<lambda>v.
             if ve_version v \<in> destroy_targets e versions \<and> \<not> ve_destroyed v
             then destroy_version now v else v) (se_versions e)\<rparr>) store,
           Inr (of_nat (length (filter (\<lambda>v. ve_version v \<in> destroy_targets e versions \<and> \<not> ve_destroyed v)
             (se_versions e))))))"
  by (simp add: kv_destroy_def update_counting_eq Let_def split: option.split)

lemmas kv_step_eqs = kv_put_eq kv_soft_delete_eq kv_destroy_eq

interpretation kv: tenant_system kv_step kv_owner kv_view hm_ok
proof unfold_locales
  fix s :: kv_store and op
  assume "hm_ok s"
  then show "hm_ok (kv_step op s)"
    by (cases op) (simp_all add: kv_step_eqs Let_def split: option.split)
next
  fix s :: kv_store and op t
  assume "hm_ok s" "kv_owner op \<noteq> t"
  then show "kv_view (kv_step op s) t = kv_view s t"
    by (cases op) (simp_all add: kv_view_def kv_step_eqs Let_def split: option.split)
next
  fix s s' :: kv_store and op
  assume "kv_view s (kv_owner op) = kv_view s' (kv_owner op)"
  then have "\<And>p. hm_get s (kv_owner op, p) = hm_get s' (kv_owner op, p)"
    by (simp add: kv_view_def fun_eq_iff)
  then show "kv_view (kv_step op s) (kv_owner op) = kv_view (kv_step op s') (kv_owner op)"
    by (cases op)
      (auto simp: kv_view_def kv_step_eqs put_base_def Let_def fun_eq_iff split: option.split)
qed

text \<open>No operation leaves ciphertext behind in a destroyed version.\<close>

lemma erased_put:
  "list_all erased (se_versions e) \<Longrightarrow>
     list_all erased (se_versions (prune_versions (push_version c d md now e)))"
  using prune_versions_subset [of "push_version c d md now e"]
  by (auto simp: list_all_iff push_version_def erased_def)

lemma erased_soft_delete: "erased v \<Longrightarrow> live v \<Longrightarrow> erased (v\<lparr>ve_deleted_at := Some now\<rparr>)"
  by (simp add: erased_def live_def)

lemma erased_destroy: "erased (destroy_version now v)"
  by (simp add: erased_def destroy_version_def split: option.split)

lemma kv_erased_insert:
  "kv_erased s \<Longrightarrow> list_all erased (se_versions e) \<Longrightarrow> kv_erased (hm_insert k e s)"
  by (simp add: kv_erased_def)

lemma kv_erased_entry: "kv_erased s \<Longrightarrow> list_all erased (entry_versions s t p)"
  by (simp add: kv_erased_def entry_versions_def split: option.split)

lemma kv_erased_step:
  assumes "kv_erased s"
  shows "kv_erased (kv_step op s)"
proof (cases op)
  case (KvPut t p c d cas md mv now i)
  with assms show ?thesis
    by (simp add: kv_put_eq Let_def kv_erased_insert kv_erased_entry erased_put)
next
  case (KvSoftDelete t p vs now)
  have "\<And>e. hm_get s (t, p) = Some e \<Longrightarrow> list_all erased (se_versions e)"
    using assms by (simp add: kv_erased_def)
  with assms KvSoftDelete show ?thesis
    by (auto simp: kv_soft_delete_eq list_all_iff intro!: kv_erased_insert erased_soft_delete
        split: option.split)
next
  case (KvDestroy t p vs now)
  have "\<And>e. hm_get s (t, p) = Some e \<Longrightarrow> list_all erased (se_versions e)"
    using assms by (simp add: kv_erased_def)
  with assms KvDestroy show ?thesis
    by (auto simp: kv_destroy_eq list_all_iff intro!: kv_erased_insert erased_destroy
        split: option.split)
qed

lemma kv_erased_run: "kv_erased s \<Longrightarrow> kv_erased (fold kv_step ops s)"
  by (induction ops arbitrary: s) (simp_all add: kv_erased_step)

lemma kv_erased_empty [simp]: "kv_erased []"
  by (simp add: kv_erased_def)

text \<open>A version that is not destroyed was not destroyed before the operation either, with
  the same content, or is the one the operation wrote.\<close>

lemma readable_origin_step:
  assumes "w \<in> set (entry_versions (kv_step op s) t p)" "\<not> ve_destroyed w"
  shows "(\<exists>v \<in> set (entry_versions s t p). \<not> ve_destroyed v \<and> same_content v w) \<or> kv_writes op t p w"
proof (cases op)
  case (KvPut t' p' c d cas md mv now i)
  let ?b = "put_base s t' p' cas md mv now i"
  have "w \<in> set (entry_versions s t p) \<or>
      (t' = t \<and> p' = p \<and> w \<in> set (se_versions (push_version c d md now ?b)))"
    using assms(1) KvPut prune_versions_subset [of "push_version c d md now ?b"]
    by (cases "(t', p') = (t, p)")
      (auto simp: kv_put_eq Let_def entry_versions_def [of "hm_insert _ _ _"] entry_versions_def [of s t p]
        put_base_versions split: if_splits)
  then show ?thesis using assms(2) KvPut by (auto simp: push_version_def same_content_def)
next
  case (KvSoftDelete t' p' vs now)
  then show ?thesis using assms
    by (cases "(t', p') = (t, p)")
      (auto simp: kv_soft_delete_eq entry_versions_def same_content_def split: option.splits if_splits)
next
  case (KvDestroy t' p' vs now)
  then show ?thesis using assms
    by (cases "(t', p') = (t, p)")
      (auto simp: kv_destroy_eq entry_versions_def same_content_def destroy_version_def
        split: option.splits if_splits)
qed

lemma readable_origin_run:
  "w \<in> set (entry_versions (fold kv_step ops s) t p) \<Longrightarrow> \<not> ve_destroyed w \<Longrightarrow>
   (\<exists>v \<in> set (entry_versions s t p). \<not> ve_destroyed v \<and> same_content v w) \<or>
   (\<exists>op \<in> set ops. kv_writes op t p w)"
proof (induction ops arbitrary: s)
  case Nil
  then show ?case by (auto simp: same_content_def)
next
  case (Cons op ops)
  from Cons.IH [of "kv_step op s"] Cons.prems consider
      (kept) v where "v \<in> set (entry_versions (kv_step op s) t p)" "\<not> ve_destroyed v" "same_content v w"
    | (written) "\<exists>op' \<in> set ops. kv_writes op' t p w" by auto
  then show ?case
  proof cases
    case kept
    have "kv_writes op t p w" if "kv_writes op t p v"
      using that kept(3) by (cases op) (auto simp: same_content_def)
    with readable_origin_step [OF kept(1,2)] kept(3) show ?thesis by (auto simp: same_content_def)
  qed auto
qed

section \<open>Properties\<close>

text \<open>C8. Tenants cannot affect each other: after any sequence of writes, deletions and
  destructions by any number of tenants, everything stored for a tenant is what it
  would be had only that tenant's operations been executed.\<close>

theorem kv_noninterference:
  "kv_view (fold kv_step ops []) t =
     kv_view (fold kv_step (filter (\<lambda>op. kv_owner op = t) ops) []) t"
  by (rule kv.noninterference) simp

lemma kv_put_versions:
  assumes ok: "versions_ok (entry_versions store t p)"
    and limit: "se_max_versions (put_base store t p cas md mv now i) > 0"
    and room: "current_version_number (put_base store t p cas md mv now i) + 1 \<noteq> 0"
    and put: "kv_put store t p c d cas md mv now i = (store', Inr (sid, n))"
  shows "\<exists>us e. hm_get store' (t, p) = Some e \<and>
           se_versions e = us @ [\<lparr>ve_version = n, ve_ciphertext = c, ve_dek_id = d, ve_created_at = now,
             ve_deleted_at = None, ve_destroyed = False, ve_custom_metadata = md\<rparr>] \<and>
           versions_ok (se_versions e) \<and> set us \<subseteq> set (entry_versions store t p)"
proof -
  define b where "b = put_base store t p cas md mv now i"
  let ?v = "\<lparr>ve_version = n, ve_ciphertext = c, ve_dek_id = d, ve_created_at = now,
             ve_deleted_at = None, ve_destroyed = False, ve_custom_metadata = md\<rparr>"
  let ?e = "push_version c d md now b"
  from put have n: "n = current_version_number b + 1"
    and store': "store' = hm_insert (t, p) (prune_versions ?e) store"
    by (simp_all add: kv_put_eq Let_def b_def split: if_splits)
  have vs: "se_versions ?e = entry_versions store t p @ [?v]"
    by (simp add: push_version_def n) (simp add: b_def)
  have "ve_version w < n" if w: "w \<in> set (entry_versions store t p)" for w
  proof -
    have "ve_version w \<le> current_version_number b"
      using ok w by (cases "entry_versions store t p" rule: rev_cases)
        (auto simp: b_def versions_ok_def sorted_wrt_append live_def current_version_number_def
          split: option.split intro: less_imp_le)
    also have "\<dots> < n"
      using room unfolding n b_def by (rule word_less_succ)
    finally show ?thesis .
  qed
  moreover have "n > 0" using room by (simp add: n b_def word_gt_0)
  ultimately have ok': "versions_ok (se_versions ?e)"
    using ok by (auto simp: vs versions_ok_def sorted_wrt_append live_def list_all_iff)
  have "se_max_versions ?e > 0"
    using limit by (simp add: push_version_def b_def)
  from prune_versions_ok [OF ok' vs this] show ?thesis
    by (auto simp: store')
qed

lemma put_base_current:
  "hm_get s (t, p) = None \<Longrightarrow> current_version_number (put_base s t p cas md mv now i) = 0"
  "hm_get s (t, p) = Some e \<Longrightarrow>
     current_version_number (put_base s t p cas md mv now i) = current_version_number e"
  by (simp_all add: put_base_def)

lemma put_base_limit_pos:
  "kv_ok s \<Longrightarrow> mv \<noteq> Some 0 \<Longrightarrow> se_max_versions (put_base s t p cas md mv now i) > 0"
  by (auto simp: put_base_limit kv_ok_def DEFAULT_MAX_VERSIONS_def word_gt_0 split: option.split)

lemma kv_put_fst:
  "fst (kv_put s t p c d cas md mv now i) = hm_insert (t, p)
     (if cas \<noteq> None \<and> current_version_number (put_base s t p cas md mv now i) \<noteq> the cas
      then put_base s t p cas md mv now i
      else prune_versions (push_version c d md now (put_base s t p cas md mv now i))) s"
  by (simp add: kv_put_eq Let_def)

lemma kv_get_cong: "hm_get s (t, p) = hm_get s' (t, p) \<Longrightarrow> kv_get s t p v = kv_get s' t p v"
  by (simp add: kv_get_def)

text \<open>
  Read your writes: on a path whose newest version is live, with a positive limit and a
  version number left, an accepted write returns the successor of the current version
  number, and both reads return what was written.
\<close>

lemma kv_put_reads:
  assumes "versions_ok (entry_versions store t p)"
    and "se_max_versions (put_base store t p cas md mv now i) > 0"
    and "current_version_number (put_base store t p cas md mv now i) + 1 \<noteq> 0"
    and "kv_put store t p c d cas md mv now i = (store', Inr (sid, n))"
  shows "kv_get store' t p None = Inr \<lparr>ve_version = n, ve_ciphertext = c, ve_dek_id = d,
           ve_created_at = now, ve_deleted_at = None, ve_destroyed = False, ve_custom_metadata = md\<rparr> \<and>
         kv_get store' t p (Some n) = kv_get store' t p None \<and>
         n = current_version_number (put_base store t p cas md mv now i) + 1 \<and>
         versions_ok (entry_versions store' t p)"
proof -
  let ?v = "\<lparr>ve_version = n, ve_ciphertext = c, ve_dek_id = d, ve_created_at = now,
             ve_deleted_at = None, ve_destroyed = False, ve_custom_metadata = md\<rparr>"
  from kv_put_versions [OF assms] obtain us e where e: "hm_get store' (t, p) = Some e"
    and vs: "se_versions e = us @ [?v]" and ok: "versions_ok (us @ [?v])"
    by auto
  from ok have n: "n > 0" and less: "\<forall>w\<in>set us. ve_version w < n"
    by (simp_all add: versions_ok_def sorted_wrt_append)
  have "current_version_number e = n"
    by (simp add: current_version_number_def vs live_def)
  moreover have "get_version e n = Some ?v"
    using less by (subst get_version_def, subst vs, subst find_skip) auto
  ultimately have "kv_get store' t p None = Inr ?v" "kv_get store' t p (Some n) = Inr ?v"
    using n by (simp_all add: kv_get_def e)
  moreover have "n = current_version_number (put_base store t p cas md mv now i) + 1"
    using assms(4) by (simp add: kv_put_eq Let_def split: if_splits)
  ultimately show ?thesis using ok e vs by (simp add: entry_versions_def)
qed

text \<open>
  The in-memory backend keeps the contract on stores whose newest versions are live.
\<close>

lemma kv_ok_versions: "kv_ok s \<Longrightarrow> versions_ok (entry_versions s t p)"
  by (simp add: kv_ok_def entry_versions_def versions_ok_def split: option.split)

lemma kv_read_unaffected:
  "entry_versions s' t p = entry_versions s t p \<Longrightarrow> kv_read s' (t, p) = kv_read s (t, p)"
  by (cases "hm_get s (t, p)"; cases "hm_get s' (t, p)")
    (auto simp: kv_read_def kv_get_def entry_versions_def current_version_number_def get_version_def Let_def
      ok_or_def and_then_def split: option.splits sum.splits)

interpretation kvs: versioned_store kv_write kv_read kw_key "\<lambda>w. (kw_ciphertext w, kw_dek_id w)"
  kv_admissible kv_ok
proof unfold_locales
  fix s :: kv_store and w :: kv_write
  obtain t p where k: "kw_key w = (t, p)" by (cases "kw_key w")
  define b where "b = put_base s t p (kw_cas w) (kw_custom_metadata w) (kw_max_versions w) (kw_now w) (kw_fresh_id w)"
  assume ok: "kv_ok s" and adm: "kv_admissible s w"
  have limit: "se_max_versions b > 0"
    using put_base_limit_pos [OF ok] adm by (simp add: b_def kv_admissible_def)
  have room: "current_version_number b + 1 \<noteq> 0"
    using adm by (cases "hm_get s (t, p)") (simp_all add: b_def kv_admissible_def k put_base_current)
  note vok = kv_ok_versions [OF ok, of t p]
  {
    fix s' sid n
    assume "kv_write w s = (s', Inr (sid, n))"
    then have put: "kv_put s t p (kw_ciphertext w) (kw_dek_id w) (kw_cas w) (kw_custom_metadata w)
        (kw_max_versions w) (kw_now w) (kw_fresh_id w) = (s', Inr (sid, n))"
      by (simp add: kv_write_def k)
    note kv_put_reads [OF vok limit [unfolded b_def] room [unfolded b_def] put]
  } note reads = this
  have e: "versions_ok (se_versions e) \<and> se_max_versions e > 0"
    if "hm_get (fst (kv_write w s)) (t, p) = Some e" for e
  proof (cases "snd (kv_write w s)")
    case (Inl err)
    then have "fst (kv_write w s) = hm_insert (t, p) b s"
      by (auto simp: kv_write_def kv_put_eq k b_def Let_def split: if_splits)
    with that have "e = b" by simp
    moreover have "se_versions b = entry_versions s t p" by (simp add: b_def)
    ultimately show ?thesis using vok limit by simp
  next
    case (Inr r)
    obtain sid n where r: "kv_write w s = (fst (kv_write w s), Inr (sid, n))"
      using Inr by (metis prod.collapse)
    have "versions_ok (se_versions e)"
      using reads [OF r] that by (simp add: entry_versions_def)
    moreover have "se_max_versions e = se_max_versions b"
      using that Inr by (auto simp: kv_write_def kv_put_eq k b_def Let_def push_version_def split: if_splits)
    ultimately show ?thesis using limit by simp
  qed
  show "kv_ok (fst (kv_write w s))"
    unfolding kv_ok_def
  proof (intro allI impI)
    fix k' e' assume g: "hm_get (fst (kv_write w s)) k' = Some e'"
    show "versions_ok (se_versions e') \<and> se_max_versions e' > 0"
    proof (cases "k' = (t, p)")
      case False
      with g have "hm_get s k' = Some e'" by (simp add: kv_write_def kv_put_fst k)
      with ok show ?thesis unfolding kv_ok_def by blast
    qed (use g e in simp)
  qed
  show "kv_read s' (kw_key w) = Some (kw_ciphertext w, kw_dek_id w)" if wr: "kv_write w s = (s', Inr r)" for s' r
  proof -
    obtain sid n where "kv_write w s = (s', Inr (sid, n))" using wr by (cases r) simp
    from reads [OF this] show ?thesis by (simp add: kv_read_def k)
  qed
  show "kv_read (fst (kv_write w s)) k' = kv_read s k'" if "k' \<noteq> kw_key w" for k'
    using that kv_get_cong [of "fst (kv_write w s)" "fst k'" "snd k'" s]
    by (simp add: kv_read_def kv_write_def kv_put_fst)
  show "kv_read s' k' = kv_read s k'" if "kv_write w s = (s', Inl err)" for s' err k'
  proof -
    have s': "s' = hm_insert (t, p) b s"
      using that by (auto simp: kv_write_def kv_put_eq k b_def Let_def split: if_splits)
    have "entry_versions s' (fst k') (snd k') = entry_versions s (fst k') (snd k')"
      by (cases "k' = (t, p)") (auto simp: s' b_def entry_versions_def prod_eq_iff split: option.split)
    from kv_read_unaffected [OF this] show ?thesis by simp
  qed
qed

text \<open>C9. Last write wins, in memory: after any sequence of writes with positive limits that
  starts from an empty store, a read of a path's latest version returns the ciphertext
  and key of the last accepted write to that path, whatever was written to other paths
  and whatever check-and-set conflicts there were.\<close>

theorem kv_last_write_wins:
  assumes "all_admissible kv_write kv_admissible ws []"
  shows "kv_read (fold (\<lambda>w s. fst (kv_write w s)) ws []) k =
           last_accepted kv_write kw_key (\<lambda>w. (kw_ciphertext w, kw_dek_id w)) k ws [] None"
proof -
  have "kv_ok []" by (simp add: kv_ok_def)
  moreover have "kv_read [] k = None" by (simp add: kv_read_def kv_get_def)
  ultimately show ?thesis using kvs.last_write_wins [OF _ assms, of k] by simp
qed

theorem kv_last_write_wins_witness:
  "kv_read (fold (\<lambda>w s. fst (kv_write w s))
     [\<lparr>kw_key = (''t'', ''p''), kw_ciphertext = ''c1'', kw_dek_id = ''d1'', kw_cas = None, kw_custom_metadata = [],
       kw_max_versions = None, kw_now = 1, kw_fresh_id = ''i''\<rparr>,
      \<lparr>kw_key = (''t'', ''p''), kw_ciphertext = ''c2'', kw_dek_id = ''d2'', kw_cas = Some 0, kw_custom_metadata = [],
       kw_max_versions = None, kw_now = 2, kw_fresh_id = ''j''\<rparr>] []) (''t'', ''p'') = Some (''c1'', ''d1'')"
  by (subst kv_last_write_wins)
    (simp_all add: kv_admissible_def kv_write_def kv_put_eq put_base_def new_entry_def refresh_entry_def
      push_version_def prune_versions_def current_version_number_def live_def DEFAULT_MAX_VERSIONS_def Let_def)

text \<open>C11. A write never leaves more than the configured number of non-destroyed versions
  behind, whatever the path's history, as long as it has fewer than \<open>2^32 - 1\<close> versions.\<close>

theorem kv_put_bounded:
  assumes "kv_put store t p c d cas md mv now i = (store', Inr r)"
    and "length (entry_versions store t p) < 2 ^ 32 - 1"
    and "hm_get store' (t, p) = Some e"
  shows "length (filter (\<lambda>v. \<not> ve_destroyed v) (se_versions e)) \<le> unat (se_max_versions e)"
proof -
  define b where "b = push_version c d md now (put_base store t p cas md mv now i)"
  have "length (se_versions b) < 2 ^ 32"
    using assms(2) by (simp add: b_def push_version_def)
  moreover have "e = prune_versions b"
    using assms(1,3) by (auto simp: kv_put_eq Let_def b_def split: if_splits)
  ultimately show ?thesis
    using prune_versions_bound [of b] by simp
qed

theorem kv_put_bounded_witness:
  "\<exists>e. hm_get (fst (kv_put [] ''t'' ''p'' ''c'' ''d'' None [] (Some 1) 5 ''id'')) (''t'', ''p'') = Some e \<and>
     length (filter (\<lambda>v. \<not> ve_destroyed v) (se_versions e)) \<le> unat (se_max_versions e)"
  using kv_put_bounded [of "[]" "''t''" "''p''" "''c''" "''d''" None "[]" "Some 1" 5 "''id''"
      "fst (kv_put [] ''t'' ''p'' ''c'' ''d'' None [] (Some 1) 5 ''id'')" "(''id'', 1)"]
  by (simp add: entry_versions_def kv_put_eq Let_def put_base_def new_entry_def refresh_entry_def
      current_version_number_def)

text \<open>Check-and-set: a write with \<open>cas = Some n\<close> is accepted exactly when the current
  live version number is \<open>n\<close> (0 for a new path). A rejected write reports both numbers
  and adds, changes and removes no version of any path.\<close>

theorem kv_put_cas:
  "let current = current_version_number (put_base store t p (Some n) md mv now i);
       r = kv_put store t p c d (Some n) md mv now i
   in (if current = n then snd r = Inr (se_secret_id (put_base store t p (Some n) md mv now i), n + 1)
       else snd r = Inl (CasConflict n current) \<and>
            entry_versions (fst r) = entry_versions store)"
  by (auto simp: kv_put_eq Let_def entry_versions_def fun_eq_iff put_base_def split: option.split)

text \<open>C10. Destruction is final: in any store reached from the empty one, destroying
  versions of a path (all of them, if none are named) makes each of them unreadable and
  leaves no ciphertext or key reference of it. No later operation takes that back: after
  any further operations, a version of the path that is not destroyed either was not
  destroyed then, with the same number, ciphertext, key and time of writing, or has the
  content one of the later writes to the path gave it; and every destroyed version is
  still without ciphertext and key reference.\<close>

theorem kv_destroy_final:
  assumes "kv_destroy (fold kv_step ops []) t p vs now = (store', Inr n)"
    and "vs = [] \<or> v \<in> set vs"
  shows "(\<exists>err. kv_get store' t p (Some v) = Inl err) \<and>
         (\<forall>w \<in> set (entry_versions store' t p). ve_version w = v \<longrightarrow>
            ve_destroyed w \<and> ve_ciphertext w = [] \<and> ve_dek_id w = []) \<and>
         (\<forall>w \<in> set (entry_versions (fold kv_step ops' store') t p).
            if ve_destroyed w then ve_ciphertext w = [] \<and> ve_dek_id w = []
            else (\<exists>w' \<in> set (entry_versions store' t p). \<not> ve_destroyed w' \<and> same_content w' w) \<or>
                 (\<exists>op \<in> set ops'. kv_writes op t p w))"
proof -
  let ?s = "fold kv_step ops []"
  have erased: "kv_erased store'"
    using kv_erased_step [of ?s "KvDestroy t p vs now"] kv_erased_run [of "[]" ops] assms(1) by simp
  obtain e where e: "hm_get ?s (t, p) = Some e"
    using assms(1) by (auto simp: kv_destroy_eq split: option.splits)
  have vs': "entry_versions store' t p = map (\<lambda>w.
      if ve_version w \<in> destroy_targets e vs \<and> \<not> ve_destroyed w then destroy_version now w else w)
      (se_versions e)"
    using assms(1) e by (auto simp: kv_destroy_eq entry_versions_def)
  have all: "\<forall>w\<in>set (entry_versions store' t p). ve_version w = v \<longrightarrow> ve_destroyed w"
    using assms(2) by (auto simp: vs' destroy_version_def destroy_targets_def)
  with kv_erased_entry [OF erased, of t p]
  have "\<forall>w\<in>set (entry_versions store' t p). ve_version w = v \<longrightarrow>
      ve_destroyed w \<and> ve_ciphertext w = [] \<and> ve_dek_id w = []"
    by (auto simp: list_all_iff erased_def)
  moreover have "\<exists>err. kv_get store' t p (Some v) = Inl err"
    using all by (auto simp: kv_get_def entry_versions_def get_version_def find_Some_iff
        split: option.splits sum.splits simp: and_then_def ok_or_def)
  moreover have "\<forall>w \<in> set (entry_versions (fold kv_step ops' store') t p).
      if ve_destroyed w then ve_ciphertext w = [] \<and> ve_dek_id w = []
      else (\<exists>w' \<in> set (entry_versions store' t p). \<not> ve_destroyed w' \<and> same_content w' w) \<or>
           (\<exists>op \<in> set ops'. kv_writes op t p w)"
    using kv_erased_entry [OF kv_erased_run [OF erased], of ops' t p]
      readable_origin_run [of _ ops' store' t p]
    by (simp add: list_all_iff erased_def)
  ultimately show ?thesis by blast
qed

lemmas kv_eval =
  kv_put_eq kv_soft_delete_eq kv_destroy_eq put_base_def new_entry_def refresh_entry_def
  push_version_def prune_versions_def current_version_number_def live_def get_version_def
  entry_versions_def soft_delete_targets_def destroy_targets_def destroy_version_def
  DEFAULT_MAX_VERSIONS_def kv_get_def Let_def

theorem kv_destroy_final_witness:
  "\<exists>err. kv_get (fst (kv_destroy (fold kv_step [KvPut ''t'' ''p'' ''c'' ''d'' None [] None 1 ''i''] [])
     ''t'' ''p'' [] 2)) ''t'' ''p'' (Some 1) = Inl err"
  using kv_destroy_final [of "[KvPut ''t'' ''p'' ''c'' ''d'' None [] None 1 ''i'']" "''t''" "''p''" "[]" 2
      "fst (kv_destroy (fold kv_step [KvPut ''t'' ''p'' ''c'' ''d'' None [] None 1 ''i''] []) ''t'' ''p'' [] 2)"
      1 1 "[]"]
  by (simp add: kv_eval)

text \<open>Soft deletion counts exactly the live versions among its targets, keeps every
  version's number, ciphertext and key, and repeating it with the same explicit
  versions deletes nothing more.\<close>

theorem kv_soft_delete_idempotent:
  assumes "kv_soft_delete store t p vs now = (store', Inr n)" and "vs \<noteq> []"
  shows "n = of_nat (length (filter (\<lambda>v. ve_version v \<in> set vs \<and> live v) (entry_versions store t p))) \<and>
         map (\<lambda>v. (ve_version v, ve_ciphertext v, ve_dek_id v, ve_destroyed v)) (entry_versions store' t p) =
         map (\<lambda>v. (ve_version v, ve_ciphertext v, ve_dek_id v, ve_destroyed v)) (entry_versions store t p) \<and>
         snd (kv_soft_delete store' t p vs later) = Inr 0"
proof -
  obtain e where e: "hm_get store (t, p) = Some e"
    using assms(1) by (auto simp: kv_soft_delete_eq split: option.splits)
  have t: "soft_delete_targets e' vs = set vs" for e'
    using assms(2) by (simp add: soft_delete_targets_def)
  from assms(1) e have n: "n = of_nat (length (filter (\<lambda>v. ve_version v \<in> set vs \<and> live v) (se_versions e)))"
    and s: "store' = hm_insert (t, p) (e\<lparr>se_versions := map (\<lambda>v.
      if ve_version v \<in> set vs \<and> live v then v\<lparr>ve_deleted_at := Some now\<rparr> else v) (se_versions e)\<rparr>) store"
    by (simp_all add: kv_soft_delete_eq t)
  show ?thesis
    by (simp add: n s e t kv_soft_delete_eq entry_versions_def filter_map o_def live_def)
qed

theorem kv_soft_delete_idempotent_witness:
  "snd (kv_soft_delete (fst (kv_soft_delete (fst (kv_put [] ''t'' ''p'' ''c'' ''d'' None [] None 1 ''i''))
     ''t'' ''p'' [1] 2)) ''t'' ''p'' [1] 3) = Inr 0"
  using kv_soft_delete_idempotent [of "fst (kv_put [] ''t'' ''p'' ''c'' ''d'' None [] None 1 ''i'')"
      "''t''" "''p''" "[1]" 2
      "fst (kv_soft_delete (fst (kv_put [] ''t'' ''p'' ''c'' ''d'' None [] None 1 ''i'')) ''t'' ''p'' [1] 2)"
      1 3]
  by (simp add: kv_eval)

text \<open>A listing returns exactly the tenant's paths under the prefix that have a
  version which is not destroyed, each once.\<close>

theorem kv_list_exact:
  assumes "hm_ok store"
  shows "set (kv_list store t prefix) =
           {p. starts_with p prefix \<and> (\<exists>v \<in> set (entry_versions store t p). \<not> ve_destroyed v)} \<and>
         distinct (kv_list store t prefix)"
proof
  have "p \<in> set (kv_list store t prefix) \<longleftrightarrow>
      starts_with p prefix \<and> (\<exists>v \<in> set (entry_versions store t p). \<not> ve_destroyed v)" for p
  proof -
    have "p \<in> set (kv_list store t prefix) \<longleftrightarrow>
        (\<exists>e. ((t, p), e) \<in> set store \<and> starts_with p prefix \<and> (\<exists>v\<in>set (se_versions e). \<not> ve_destroyed v))"
      by (auto simp: kv_list_def list_ex_iff starts_with_iff image_iff split: prod.split)
    also have "\<dots> \<longleftrightarrow> (\<exists>e. hm_get store (t, p) = Some e \<and> starts_with p prefix \<and>
        (\<exists>v\<in>set (se_versions e). \<not> ve_destroyed v))"
      by (simp add: hm_get_iff [OF assms])
    finally show ?thesis by (cases "hm_get store (t, p)") (auto simp: entry_versions_def)
  qed
  then show "set (kv_list store t prefix) =
      {p. starts_with p prefix \<and> (\<exists>v \<in> set (entry_versions store t p). \<not> ve_destroyed v)}"
    by blast
next
  show "distinct (kv_list store t prefix)"
    using assms unfolding hm_ok_def
  proof (induction store)
    case (Cons x store)
    obtain t' p' e where x: "x = ((t', p'), e)" by (cases x) auto
    have "p \<in> set (kv_list store t prefix) \<Longrightarrow> (t, p) \<in> fst ` set store" for p
      by (force simp: kv_list_def)
    moreover have "kv_list (x # store) t prefix =
        (if t' = t \<and> (prefix = [] \<or> starts_with p' prefix) \<and> list_ex (\<lambda>v. \<not> ve_destroyed v) (se_versions e)
         then p' # kv_list store t prefix else kv_list store t prefix)"
      by (simp add: x kv_list_def)
    ultimately show ?case using Cons x by auto
  qed (simp add: kv_list_def)
qed

theorem kv_list_exact_witness:
  "hm_ok (fst (kv_put [] ''t'' ''a/b'' ''c'' ''d'' None [] None 1 ''i'')) \<and>
   ''a/b'' \<in> set (kv_list (fst (kv_put [] ''t'' ''a/b'' ''c'' ''d'' None [] None 1 ''i'')) ''t'' ''a'')"
  using kv_list_exact [of "fst (kv_put [] ''t'' ''a/b'' ''c'' ''d'' None [] None 1 ''i'')" "''t''" "''a''"]
  by (simp add: kv_eval hm_ok_def starts_with_def)

text \<open>Version numbers are reused. The number of a write is computed from the newest
  version that is still live, so writing, deleting and writing again gives the second
  write number 1 too, and reading the latest version returns the deleted first value
  instead of the value just written. After a destruction in between, the value just
  written cannot be read at all.\<close>

theorem kv_version_number_reused:
  "let s1 = fst (kv_put [] t p c1 d1 None [] None n1 i1);
       r2 = kv_put (fst (kv_soft_delete s1 t p [] n2)) t p c2 d2 None [] None n3 i2;
       r3 = kv_put (fst (kv_destroy s1 t p [] n2)) t p c2 d2 None [] None n3 i2
   in snd r2 = Inr (i1, 1) \<and>
      kv_get (fst r2) t p None = Inr \<lparr>ve_version = 1, ve_ciphertext = c1, ve_dek_id = d1,
        ve_created_at = n1, ve_deleted_at = Some n2, ve_destroyed = False, ve_custom_metadata = []\<rparr> \<and>
      snd r3 = Inr (i1, 1) \<and>
      kv_get (fst r3) t p None = Inl (VersionDestroyed 1)"
  by (simp add: kv_eval)

text \<open>A rejected check-and-set write is not without effect: the environment label, the
  tags, the metadata and the version limit of the path are replaced, and a path that
  did not exist is created with no versions.\<close>

theorem kv_cas_conflict_writes:
  "let s1 = fst (kv_put [] t p c1 d1 None [] None n1 i1);
       r2 = kv_put s1 t p c2 d2 (Some 7) [(''environment'', env)] (Some mv) n2 i2;
       r3 = kv_put [] t p c2 d2 (Some 7) [(''environment'', env)] (Some mv) n2 i2
   in snd r2 = Inl (CasConflict 7 1) \<and>
      map_option se_environment (hm_get (fst r2) (t, p)) = Some env \<and>
      map_option se_max_versions (hm_get (fst r2) (t, p)) = Some mv \<and>
      snd r3 = Inl (CasConflict 7 0) \<and>
      map_option se_environment (hm_get (fst r3) (t, p)) = Some env"
  by (simp add: kv_eval)

end
