(* ===== verification/Replication_Outbox.thy ===== *)
theory Replication_Outbox
  imports Vault_Prelude
begin

text \<open>
  JSON values (\<^verbatim>\<open>serde_json::Value\<close>) with the accessors the sources use, and the rows of the
  replication outbox \<^verbatim>\<open>system.replication_events\<close> (\<^verbatim>\<open>storage/postgres/init/007_regions.sql\<close>),
  which the writers of a region fill and its replication agent serves.

  An object is the list of its members; \<^verbatim>\<open>jsonb\<close> and \<^verbatim>\<open>serde_json\<close> keep one value per
  key. A number that is not an integer is kept as its text.
\<close>

section \<open>JSON\<close>

datatype json =
    JNull
  | JBool bool
  | JInt int
  | JFloat string
  | JStr string
  | JArr "json list"
  | JObj "(string \<times> json) list"

text \<open>\<^verbatim>\<open>Value::get\<close>, and indexing, which gives \<^verbatim>\<open>Null\<close> for what is absent.\<close>

fun json_get :: "json \<Rightarrow> string \<Rightarrow> json option" where
  "json_get (JObj members) k = map_of members k"
| "json_get _ k = None"

definition json_index :: "json \<Rightarrow> string \<Rightarrow> json" where
  "json_index v k = (case json_get v k of Some x \<Rightarrow> x | None \<Rightarrow> JNull)"

fun as_str :: "json \<Rightarrow> string option" where
  "as_str (JStr s) = Some s"
| "as_str _ = None"

fun as_i64 :: "json \<Rightarrow> int option" where
  "as_i64 (JInt n) = (if - (2 ^ 63) \<le> n \<and> n < 2 ^ 63 then Some n else None)"
| "as_i64 _ = None"

definition as_i32 :: "json \<Rightarrow> int option" where
  "as_i32 v = (case as_i64 v of
                 Some n \<Rightarrow> if - (2 ^ 31) \<le> n \<and> n < 2 ^ 31 then Some n else None
               | None \<Rightarrow> None)"

text \<open>\<^verbatim>\<open>serde_json::from_value(v).unwrap_or_default()\<close> at the types the sources use: the
  whole value is dropped when one element does not fit.\<close>

definition json_strings :: "json \<Rightarrow> string list" where
  "json_strings v = (case v of
      JArr xs \<Rightarrow> (case those (map as_str xs) of Some ys \<Rightarrow> ys | None \<Rightarrow> [])
    | _ \<Rightarrow> [])"

definition json_i32s :: "json \<Rightarrow> int list" where
  "json_i32s v = (case v of
      JArr xs \<Rightarrow> (case those (map as_i32 xs) of Some ys \<Rightarrow> ys | None \<Rightarrow> [])
    | _ \<Rightarrow> [])"

definition json_clock :: "json \<Rightarrow> (string, int) hash_map" where
  "json_clock v = (case v of
      JObj kvs \<Rightarrow> (case those (map (\<lambda>(k, x). map_option (Pair k) (as_i64 x)) kvs) of
                    Some ys \<Rightarrow> ys | None \<Rightarrow> [])
    | _ \<Rightarrow> [])"

definition json_datetime :: "(string \<Rightarrow> datetime option) \<Rightarrow> json \<Rightarrow> datetime option" where
  "json_datetime parse_datetime v = (case v of JStr s \<Rightarrow> parse_datetime s | _ \<Rightarrow> None)"

section \<open>The outbox\<close>

record replication_event =
  rv_id :: string
  rv_event_type :: string
  rv_source_region :: string
  rv_payload :: json
  rv_vector_clock :: json
  rv_created_at :: datetime

text \<open>An insert that names event type, source region and payload; the clock defaults to the
  empty object, the time to \<open>now()\<close>.\<close>

definition outbox_row ::
  "string \<Rightarrow> datetime \<Rightarrow> string \<Rightarrow> string \<Rightarrow> json \<Rightarrow> replication_event" where
  "outbox_row event_id now event_type source_region payload =
     \<lparr>rv_id = event_id, rv_event_type = event_type, rv_source_region = source_region,
      rv_payload = payload, rv_vector_clock = JObj [], rv_created_at = now\<rparr>"

section \<open>Lemmas\<close>

lemma json_index_simps [simp]:
  "json_index (JObj members) k = (case map_of members k of Some x \<Rightarrow> x | None \<Rightarrow> JNull)"
  by (simp add: json_index_def)

lemma as_str_iff: "as_str v = Some s \<longleftrightarrow> v = JStr s"
  by (cases v) auto

lemma as_i64_iff: "as_i64 v = Some n \<longleftrightarrow> v = JInt n \<and> - (2 ^ 63) \<le> n \<and> n < 2 ^ 63"
  by (cases v) auto

lemma those_map_Some: "those (map (\<lambda>x. Some (f x)) xs) = Some (map f xs)"
  by (induction xs) auto

lemma json_strings_of [simp]: "json_strings (JArr (map JStr xs)) = xs"
  using those_map_Some [of "\<lambda>x. x" xs] by (simp add: json_strings_def comp_def)

lemma json_clock_empty [simp]: "json_clock (JObj []) = []"
  by (simp add: json_clock_def)

end
