(* ===== verification/Secret_Lifecycle.thy ===== *)
theory Secret_Lifecycle
  imports Vault_Prelude Replication_Outbox
begin

text \<open>
  The stored functions that implement the secret lifecycle in PostgreSQL
  (\<^verbatim>\<open>storage/postgres/init/003_functions.sql\<close> and \<^verbatim>\<open>010_secret_lifecycle.sql\<close>, tables from
  \<^verbatim>\<open>001_schema.sql\<close>): writing, pruning, soft deletion, destruction, two-phase rotation,
  revocation and rollback.

  A table is the list of its rows. The secrets table is keyed by its unique constraint
  \<open>(tenant_id, path)\<close>, the versions table enforces \<open>UNIQUE (secret_id, version)\<close> on
  insertion. A function call is one transaction: it returns the new database or an
  error, and an error leaves the database as it was. \<open>now()\<close> and the UUIDs
  \<open>gen_random_uuid()\<close> draws are arguments. \<open>INTEGER\<close> columns are \<^typ>\<open>int\<close>.
\<close>

section \<open>Tables\<close>

record secret_row =
  sr_id :: string
  sr_tenant_id :: string
  sr_path :: string
  sr_engine :: string
  sr_current_version :: int
  sr_max_versions :: int
  sr_cas_required :: bool
  sr_custom_metadata :: "(string, string) hash_map"
  sr_created_at :: datetime
  sr_updated_at :: datetime
  sr_secret_type :: string
  sr_ttl_seconds :: "int option"
  sr_soft_warn_seconds :: "int option"
  sr_rotation_interval_seconds :: "int option"
  sr_grace_period_seconds :: "int option"
  sr_webhook_url :: "string option"
  sr_expires_at :: "datetime option"
  sr_last_rotated_at :: "datetime option"
  sr_next_rotation_at :: "datetime option"
  sr_rotation_status :: string
  sr_environment :: string
  sr_tags :: "string list"
  sr_origin_region :: "string option"
  sr_vector_clock :: json

record version_row =
  vr_secret_id :: string
  vr_version :: int
  vr_ciphertext :: string
  vr_dek_id :: string
  vr_custom_metadata :: "(string, string) hash_map"
  vr_created_at :: datetime
  vr_deleted_at :: "datetime option"
  vr_destroyed :: bool
  vr_status :: string
  vr_created_by :: "string option"
  vr_deprecated_at :: "datetime option"
  vr_revoked_at :: "datetime option"

record rotation_row =
  rr_id :: string
  rr_secret_id :: string
  rr_tenant_id :: string
  rr_path :: string
  rr_old_version :: int
  rr_new_version :: int
  rr_status :: string
  rr_initiated_by :: string
  rr_confirmed_by :: "string option"
  rr_webhook_url :: "string option"
  rr_created_at :: datetime
  rr_confirmed_at :: "datetime option"
  rr_completed_at :: "datetime option"
  rr_grace_ends_at :: "datetime option"
  rr_expires_at :: datetime

record pg_db =
  pg_secrets :: "(string \<times> string, secret_row) hash_map"
  pg_versions :: "version_row list"
  pg_rotations :: "rotation_row list"

datatype sql_error =
    CasMismatch int int
  | SecretMissing string
  | RotationPending string
  | RotationMissing string
  | VersionMissing int string
  | UniqueViolation string

definition seconds :: "int \<Rightarrow> int" where
  "seconds n = n * 1000000000"

definition coalesce :: "'a option \<Rightarrow> 'a option \<Rightarrow> 'a option" where
  "coalesce a b = (case a of Some x \<Rightarrow> Some x | None \<Rightarrow> b)"

text \<open>The row a primary key names.\<close>

definition row_of :: "pg_db \<Rightarrow> string \<Rightarrow> secret_row option" where
  "row_of db sid = find (\<lambda>s. sr_id s = sid) (map snd (pg_secrets db))"

section \<open>Writes\<close>

text \<open>The parameters of \<^verbatim>\<open>vault_upsert_secret\<close> that have a default.\<close>

record lifecycle_params =
  lp_created_by :: "string option"
  lp_secret_type :: string
  lp_ttl_seconds :: "int option"
  lp_rotation_interval :: "int option"
  lp_grace_secs :: "int option"
  lp_webhook_url :: "string option"

definition default_lifecycle :: lifecycle_params where
  "default_lifecycle = \<lparr>lp_created_by = None, lp_secret_type = ''STALE_TTL'', lp_ttl_seconds = None,
     lp_rotation_interval = None, lp_grace_secs = Some 3600, lp_webhook_url = None\<rparr>"

definition insert_version :: "version_row \<Rightarrow> pg_db \<Rightarrow> sql_error + pg_db" where
  "insert_version row db =
     (if list_ex (\<lambda>v. vr_secret_id v = vr_secret_id row \<and> vr_version v = vr_version row) (pg_versions db)
      then Inl (UniqueViolation ''secret_versions_secret_id_version_key'')
      else Inr (db\<lparr>pg_versions := pg_versions db @ [row]\<rparr>))"

text \<open>\<open>UPDATE shared.secrets SET ... WHERE id = $1\<close>, with the trigger on that table.\<close>

definition update_secret :: "datetime \<Rightarrow> string \<Rightarrow> (secret_row \<Rightarrow> secret_row) \<Rightarrow> pg_db \<Rightarrow> pg_db" where
  "update_secret now sid f db =
     db\<lparr>pg_secrets := hm_map_values (\<lambda>r. if sr_id r = sid then (f r)\<lparr>sr_updated_at := now\<rparr> else r)
          (pg_secrets db)\<rparr>"

definition update_versions ::
  "(version_row \<Rightarrow> bool) \<Rightarrow> (version_row \<Rightarrow> version_row) \<Rightarrow> pg_db \<Rightarrow> pg_db" where
  "update_versions P f db = db\<lparr>pg_versions := map (\<lambda>v. if P v then f v else v) (pg_versions db)\<rparr>"

definition upsert_secret_row ::
  "datetime \<Rightarrow> string \<Rightarrow> string \<Rightarrow> string \<Rightarrow> string \<Rightarrow> int \<Rightarrow> bool \<Rightarrow> (string, string) hash_map \<Rightarrow>
   lifecycle_params \<Rightarrow> secret_row option \<Rightarrow> secret_row" where
  "upsert_secret_row now fresh_id tenant_id path engine max_versions cas_required custom_meta lp old =
     (let expires_at = map_option (\<lambda>s. now + seconds s) (lp_ttl_seconds lp);
          next_rotation_at = map_option (\<lambda>s. now + seconds s) (lp_rotation_interval lp)
      in case old of
           None \<Rightarrow>
             \<lparr>sr_id = fresh_id, sr_tenant_id = tenant_id, sr_path = path, sr_engine = engine,
              sr_current_version = 0, sr_max_versions = max_versions, sr_cas_required = cas_required,
              sr_custom_metadata = custom_meta, sr_created_at = now, sr_updated_at = now,
              sr_secret_type = lp_secret_type lp, sr_ttl_seconds = lp_ttl_seconds lp, sr_soft_warn_seconds = None,
              sr_rotation_interval_seconds = lp_rotation_interval lp,
              sr_grace_period_seconds = lp_grace_secs lp, sr_webhook_url = lp_webhook_url lp,
              sr_expires_at = expires_at, sr_last_rotated_at = None,
              sr_next_rotation_at = next_rotation_at, sr_rotation_status = ''none'',
              sr_environment = ''INT'', sr_tags = [], sr_origin_region = None, sr_vector_clock = JObj []\<rparr>
         | Some r \<Rightarrow>
             r\<lparr>sr_updated_at := now,
               sr_secret_type := lp_secret_type lp,
               sr_ttl_seconds := coalesce (lp_ttl_seconds lp) (sr_ttl_seconds r),
               sr_rotation_interval_seconds :=
                 coalesce (lp_rotation_interval lp) (sr_rotation_interval_seconds r),
               sr_grace_period_seconds := coalesce (lp_grace_secs lp) (sr_grace_period_seconds r),
               sr_webhook_url := coalesce (lp_webhook_url lp) (sr_webhook_url r),
               sr_expires_at := coalesce expires_at (sr_expires_at r),
               sr_next_rotation_at := coalesce next_rotation_at (sr_next_rotation_at r)\<rparr>)"

definition new_version_row ::
  "datetime \<Rightarrow> string \<Rightarrow> int \<Rightarrow> string \<Rightarrow> string \<Rightarrow> (string, string) hash_map \<Rightarrow> string \<Rightarrow> string option \<Rightarrow>
   version_row" where
  "new_version_row now sid version ciphertext dek_id custom_meta status created_by =
     \<lparr>vr_secret_id = sid, vr_version = version, vr_ciphertext = ciphertext, vr_dek_id = dek_id,
      vr_custom_metadata = custom_meta, vr_created_at = now, vr_deleted_at = None, vr_destroyed = False,
      vr_status = status, vr_created_by = created_by, vr_deprecated_at = None, vr_revoked_at = None\<rparr>"

definition vault_upsert_secret ::
  "datetime \<Rightarrow> string \<Rightarrow> string \<Rightarrow> string \<Rightarrow> string \<Rightarrow> string \<Rightarrow> string \<Rightarrow> int option \<Rightarrow> int \<Rightarrow> bool \<Rightarrow>
   (string, string) hash_map \<Rightarrow> lifecycle_params \<Rightarrow> pg_db \<Rightarrow> sql_error + pg_db \<times> string \<times> int" where
  "vault_upsert_secret now fresh_id tenant_id path engine ciphertext dek_id cas_version max_versions
       cas_required custom_meta lp db =
     (let row = upsert_secret_row now fresh_id tenant_id path engine max_versions cas_required custom_meta lp
                  (hm_get (pg_secrets db) (tenant_id, path));
          db1 = db\<lparr>pg_secrets := hm_insert (tenant_id, path) row (pg_secrets db)\<rparr>;
          v_secret_id = sr_id row;
          v_current_ver = sr_current_version row
      in if hm_get (pg_secrets db) (tenant_id, path) = None \<and> row_of db fresh_id \<noteq> None
         then Inl (UniqueViolation ''secrets_pkey'')
         else if cas_version \<noteq> None \<and> the cas_version \<noteq> v_current_ver
         then Inl (CasMismatch (the cas_version) v_current_ver)
         else
           let v_new_version = v_current_ver + 1 in
           and_then (insert_version
               (new_version_row now v_secret_id v_new_version ciphertext dek_id custom_meta ''active''
                  (lp_created_by lp)) db1) (\<lambda>db2.
             let db3 = update_secret now v_secret_id (\<lambda>r. r\<lparr>sr_current_version := v_new_version\<rparr>) db2;
                 db4 = db3\<lparr>pg_versions := filter (\<lambda>sv. \<not> (vr_secret_id sv = v_secret_id \<and>
                          vr_version sv \<le> v_new_version - max_versions \<and> \<not> vr_destroyed sv)) (pg_versions db3)\<rparr>
             in Inr (db4, v_secret_id, v_new_version)))"

section \<open>Deletion\<close>

definition vault_soft_delete_versions ::
  "datetime \<Rightarrow> string \<Rightarrow> int list \<Rightarrow> pg_db \<Rightarrow> pg_db \<times> int" where
  "vault_soft_delete_versions now sid versions db =
     (let hit = (\<lambda>v. vr_secret_id v = sid \<and> vr_version v \<in> set versions \<and>
                     vr_deleted_at v = None \<and> \<not> vr_destroyed v)
      in (update_versions hit (\<lambda>v. v\<lparr>vr_deleted_at := Some now\<rparr>) db,
          int (length (filter hit (pg_versions db)))))"

definition destroy_row :: "datetime \<Rightarrow> version_row \<Rightarrow> version_row" where
  "destroy_row now v =
     v\<lparr>vr_ciphertext := [], vr_dek_id := [], vr_destroyed := True,
       vr_deleted_at := coalesce (vr_deleted_at v) (Some now)\<rparr>"

definition vault_destroy_versions ::
  "datetime \<Rightarrow> string \<Rightarrow> int list \<Rightarrow> pg_db \<Rightarrow> pg_db \<times> int" where
  "vault_destroy_versions now sid versions db =
     (let hit = (\<lambda>v. vr_secret_id v = sid \<and> vr_version v \<in> set versions \<and> \<not> vr_destroyed v)
      in (update_versions hit (destroy_row now) db,
          int (length (filter hit (pg_versions db)))))"

section \<open>Rotation\<close>

definition vault_initiate_rotation ::
  "datetime \<Rightarrow> string \<Rightarrow> string \<Rightarrow> string \<Rightarrow> string \<Rightarrow> string \<Rightarrow> string \<Rightarrow> string option \<Rightarrow> int option \<Rightarrow>
   pg_db \<Rightarrow> sql_error + pg_db \<times> string \<times> int" where
  "vault_initiate_rotation now rotation_id tenant_id path ciphertext dek_id initiated_by webhook_url
       timeout_secs db =
     and_then (ok_or (SecretMissing path) (hm_get (pg_secrets db) (tenant_id, path))) (\<lambda>s.
       if list_ex (\<lambda>r. rr_secret_id r = sr_id s \<and> rr_status r = ''pending_activation'') (pg_rotations db)
       then Inl (RotationPending path)
       else if list_ex (\<lambda>r. rr_id r = rotation_id) (pg_rotations db)
       then Inl (UniqueViolation ''secret_rotations_pkey'')
       else
         let v_old_version = sr_current_version s; v_new_version = v_old_version + 1 in
         and_then (insert_version
             (new_version_row now (sr_id s) v_new_version ciphertext dek_id [] ''pending'' (Some initiated_by)) db)
           (\<lambda>db1.
             let rotation = \<lparr>rr_id = rotation_id, rr_secret_id = sr_id s, rr_tenant_id = tenant_id,
                   rr_path = path, rr_old_version = v_old_version, rr_new_version = v_new_version,
                   rr_status = ''pending_activation'', rr_initiated_by = initiated_by,
                   rr_confirmed_by = None, rr_webhook_url = webhook_url, rr_created_at = now,
                   rr_confirmed_at = None, rr_completed_at = None, rr_grace_ends_at = None,
                   rr_expires_at = now + seconds (case timeout_secs of Some t \<Rightarrow> t | None \<Rightarrow> 86400)\<rparr>;
                 db2 = db1\<lparr>pg_rotations := pg_rotations db1 @ [rotation]\<rparr>;
                 db3 = update_secret now (sr_id s) (\<lambda>r. r\<lparr>sr_rotation_status := ''pending''\<rparr>) db2
             in Inr (db3, rotation_id, v_new_version)))"

definition vault_confirm_rotation ::
  "datetime \<Rightarrow> string \<Rightarrow> string \<Rightarrow> pg_db \<Rightarrow> sql_error + pg_db \<times> int \<times> int \<times> datetime" where
  "vault_confirm_rotation now rotation_id confirmed_by db =
     and_then (ok_or (RotationMissing rotation_id)
         (find (\<lambda>r. rr_id r = rotation_id \<and> rr_status r = ''pending_activation'' \<and> rr_expires_at r > now)
            (pg_rotations db))) (\<lambda>sr.
       let sid = rr_secret_id sr; v_old_ver = rr_old_version sr; v_new_ver = rr_new_version sr;
           v_grace_secs = (case row_of db sid of
                             Some s \<Rightarrow> (case sr_grace_period_seconds s of Some g \<Rightarrow> g | None \<Rightarrow> 3600)
                           | None \<Rightarrow> 3600);
           v_grace_end = now + seconds v_grace_secs;
           db1 = update_versions (\<lambda>v. vr_secret_id v = sid \<and> vr_version v = v_new_ver)
                   (\<lambda>v. v\<lparr>vr_status := ''active''\<rparr>) db;
           db2 = update_versions (\<lambda>v. vr_secret_id v = sid \<and> vr_version v = v_old_ver)
                   (\<lambda>v. v\<lparr>vr_status := ''deprecated'', vr_deprecated_at := Some now\<rparr>) db1;
           db3 = update_secret now sid (\<lambda>s. s\<lparr>sr_current_version := v_new_ver,
                   sr_rotation_status := ''confirmed'', sr_last_rotated_at := Some now,
                   sr_next_rotation_at := map_option (\<lambda>i. now + seconds i) (sr_rotation_interval_seconds s)\<rparr>) db2;
           db4 = db3\<lparr>pg_rotations := map (\<lambda>r. if rr_id r = rotation_id then
                   r\<lparr>rr_status := ''confirmed'', rr_confirmed_by := Some confirmed_by,
                     rr_confirmed_at := Some now, rr_grace_ends_at := Some v_grace_end\<rparr> else r) (pg_rotations db3)\<rparr>
       in Inr (db4, v_old_ver, v_new_ver, v_grace_end))"

definition vault_revoke_deprecated_versions :: "datetime \<Rightarrow> nat \<Rightarrow> pg_db \<Rightarrow> pg_db \<times> string list" where
  "vault_revoke_deprecated_versions now batch_size db =
     (let to_revoke = take batch_size (filter (\<lambda>r. rr_status r = ''confirmed'' \<and>
            (case rr_grace_ends_at r of Some g \<Rightarrow> g < now | None \<Rightarrow> False)) (pg_rotations db));
          db1 = update_versions
            (\<lambda>v. list_ex (\<lambda>tr. vr_secret_id v = rr_secret_id tr \<and> vr_version v = rr_old_version tr) to_revoke)
            (\<lambda>v. (destroy_row now v)\<lparr>vr_status := ''revoked'', vr_revoked_at := Some now\<rparr>) db;
          db2 = db1\<lparr>pg_rotations := map (\<lambda>r. if list_ex (\<lambda>tr. rr_id tr = rr_id r) to_revoke
                  then r\<lparr>rr_status := ''completed'', rr_completed_at := Some now\<rparr> else r) (pg_rotations db1)\<rparr>
      in (db2, remdups (map rr_id to_revoke)))"

definition vault_rollback_secret ::
  "datetime \<Rightarrow> string \<Rightarrow> string \<Rightarrow> int \<Rightarrow> string \<Rightarrow> pg_db \<Rightarrow> sql_error + pg_db \<times> int" where
  "vault_rollback_secret now tenant_id path target_version rolled_back_by db =
     and_then (ok_or (SecretMissing path) (hm_get (pg_secrets db) (tenant_id, path))) (\<lambda>s.
     and_then (ok_or (VersionMissing target_version path)
         (find (\<lambda>v. vr_secret_id v = sr_id s \<and> vr_version v = target_version \<and> \<not> vr_destroyed v)
            (pg_versions db))) (\<lambda>target.
       let v_new_version = sr_current_version s + 1 in
       and_then (insert_version
           (new_version_row now (sr_id s) v_new_version (vr_ciphertext target) (vr_dek_id target)
              (vr_custom_metadata target) ''active'' (Some rolled_back_by)) db) (\<lambda>db1.
         let db2 = update_versions (\<lambda>v. vr_secret_id v = sr_id s \<and>
                     vr_version v = sr_current_version s \<and> vr_status v = ''active'')
                     (\<lambda>v. v\<lparr>vr_status := ''deprecated'', vr_deprecated_at := Some now\<rparr>) db1;
             db3 = update_secret now (sr_id s) (\<lambda>r. r\<lparr>sr_current_version := v_new_version\<rparr>) db2
         in Inr (db3, v_new_version))))"

definition vault_list_version_history :: "string \<Rightarrow> string \<Rightarrow> pg_db \<Rightarrow> version_row list" where
  "vault_list_version_history tenant_id path db =
     (case hm_get (pg_secrets db) (tenant_id, path) of
        None \<Rightarrow> []
      | Some s \<Rightarrow> rev (sort_key vr_version (filter (\<lambda>v. vr_secret_id v = sr_id s) (pg_versions db))))"

section \<open>Vocabulary of the properties\<close>

definition current :: "pg_db \<Rightarrow> string \<Rightarrow> int option" where
  "current db sid = map_option sr_current_version (row_of db sid)"

definition version_keys :: "pg_db \<Rightarrow> (string \<times> int) list" where
  "version_keys db = map (\<lambda>v. (vr_secret_id v, vr_version v)) (pg_versions db)"

definition pending :: "rotation_row \<Rightarrow> bool" where
  "pending r \<longleftrightarrow> rr_status r = ''pending_activation''"

text \<open>
  Ids and version numbers are unique; a version is at most the current one, or the
  next one while a rotation is pending; and a pending rotation has its version. The
  condition depends on the current version of each secret, the numbers in use and the
  rotations only.
\<close>

definition lifecycle_ok ::
  "(string \<Rightarrow> int option) \<Rightarrow> (string \<times> int) list \<Rightarrow> rotation_row list \<Rightarrow> bool" where
  "lifecycle_ok cur ks rots \<longleftrightarrow>
     distinct ks \<and>
     (\<forall>sid v. (sid, v) \<in> set ks \<longrightarrow> (\<exists>c. cur sid = Some c \<and>
        (v \<le> c \<or> v = c + 1 \<and> (\<exists>r \<in> set rots. pending r \<and> rr_secret_id r = sid)))) \<and>
     (\<forall>r \<in> set rots. pending r \<longrightarrow>
        cur (rr_secret_id r) = Some (rr_old_version r) \<and> rr_new_version r = rr_old_version r + 1 \<and>
        (rr_secret_id r, rr_new_version r) \<in> set ks) \<and>
     distinct (map rr_id rots) \<and> distinct (map rr_secret_id (filter pending rots))"

definition pg_inv :: "pg_db \<Rightarrow> bool" where
  "pg_inv db \<longleftrightarrow>
     hm_ok (pg_secrets db) \<and> distinct (map (sr_id \<circ> snd) (pg_secrets db)) \<and>
     lifecycle_ok (current db) (version_keys db) (pg_rotations db)"

inductive pg_step :: "pg_db \<Rightarrow> pg_db \<Rightarrow> bool" where
  step_upsert: "vault_upsert_secret now i t p eng c d cas mv req md lp db = Inr (db', sid, n) \<Longrightarrow> pg_step db db'"
| step_soft_delete: "pg_step db (fst (vault_soft_delete_versions now sid vs db))"
| step_destroy: "pg_step db (fst (vault_destroy_versions now sid vs db))"
| step_initiate: "vault_initiate_rotation now i t p c d b w to db = Inr (db', rid, n) \<Longrightarrow> pg_step db db'"
| step_confirm: "vault_confirm_rotation now rid b db = Inr (db', vo, vn, g) \<Longrightarrow> pg_step db db'"
| step_revoke: "pg_step db (fst (vault_revoke_deprecated_versions now k db))"
| step_rollback: "vault_rollback_secret now t p v b db = Inr (db', n) \<Longrightarrow> pg_step db db'"

definition pg_empty :: pg_db where
  "pg_empty = \<lparr>pg_secrets = [], pg_versions = [], pg_rotations = []\<rparr>"

section \<open>Lemmas\<close>

lemma find_map_keep:
  "(\<And>x. P (f x) \<longleftrightarrow> P x) \<Longrightarrow> find P (map f xs) = map_option f (find P xs)"
  by (induction xs) auto

lemma find_update_value:
  "map_of al k = Some v \<Longrightarrow> h v' = h v \<Longrightarrow> map (h \<circ> snd) (AList.update k v' al) = map (h \<circ> snd) al"
  by (induction al) auto

lemma update_new: "map_of al k = None \<Longrightarrow> AList.update k v al = al @ [(k, v)]"
  by (induction al) auto

lemma row_of_update_secret:
  assumes "\<And>r. sr_id (f r) = sr_id r"
  shows "row_of (update_secret now sid f db) x =
           (if x = sid then map_option (\<lambda>r. (f r)\<lparr>sr_updated_at := now\<rparr>) (row_of db x) else row_of db x)"
proof -
  have "row_of (update_secret now sid f db) x =
      map_option (\<lambda>r. if sr_id r = sid then (f r)\<lparr>sr_updated_at := now\<rparr> else r) (row_of db x)"
    using assms unfolding row_of_def update_secret_def hm_map_values_def
    by (simp add: case_prod_beta o_def)
      (subst find_map_keep [of "\<lambda>s. sr_id s = x"
         "\<lambda>r. if sr_id r = sid then (f r)\<lparr>sr_updated_at := now\<rparr> else r" "map snd (pg_secrets db)", symmetric],
       auto simp: o_def case_prod_beta)
  moreover have "row_of db x = Some r \<Longrightarrow> sr_id r = x" for r
    by (auto simp: row_of_def find_Some_iff)
  ultimately show ?thesis by (cases "row_of db x") auto
qed

lemma row_of_simps [simp]:
  "row_of (db\<lparr>pg_versions := vs\<rparr>) = row_of db"
  "row_of (db\<lparr>pg_rotations := rs\<rparr>) = row_of db"
  by (simp_all add: row_of_def fun_eq_iff)

lemma current_simps [simp]:
  "current (db\<lparr>pg_versions := vs\<rparr>) = current db"
  "current (db\<lparr>pg_rotations := rs\<rparr>) = current db"
  "current (update_versions P f db) = current db"
  by (simp_all add: current_def update_versions_def fun_eq_iff)

lemma update_secret_frame [simp]:
  "pg_versions (update_secret now sid f db) = pg_versions db"
  "pg_rotations (update_secret now sid f db) = pg_rotations db"
  "map fst (pg_secrets (update_secret now sid f db)) = map fst (pg_secrets db)"
  "hm_ok (pg_secrets (update_secret now sid f db)) \<longleftrightarrow> hm_ok (pg_secrets db)"
  by (simp_all add: update_secret_def)

subsection \<open>Preservation, on the part of the database the invariant depends on\<close>

lemma lifecycle_okD:
  assumes "lifecycle_ok cur ks rots"
  shows lifecycle_distinct: "distinct ks"
    and lifecycle_version: "(sid, v) \<in> set ks \<Longrightarrow> \<exists>c. cur sid = Some c \<and>
      (v \<le> c \<or> v = c + 1 \<and> (\<exists>r \<in> set rots. pending r \<and> rr_secret_id r = sid))"
    and lifecycle_pending: "r \<in> set rots \<Longrightarrow> pending r \<Longrightarrow>
      cur (rr_secret_id r) = Some (rr_old_version r) \<and> rr_new_version r = rr_old_version r + 1 \<and>
      (rr_secret_id r, rr_new_version r) \<in> set ks"
    and lifecycle_rots: "distinct (map rr_id rots)" "distinct (map rr_secret_id (filter pending rots))"
  using assms unfolding lifecycle_ok_def by blast+

lemma lifecycle_new_secret:
  assumes ok: "lifecycle_ok cur ks rots" and "cur sid = None"
  shows "lifecycle_ok (cur(sid := Some 0)) ks rots"
proof -
  have "x \<noteq> sid" if "(x, v) \<in> set ks" for x v
    using lifecycle_version [OF ok that] assms(2) by auto
  moreover have "rr_secret_id r \<noteq> sid" if "r \<in> set rots" "pending r" for r
    using lifecycle_pending [OF ok that] assms(2) by auto
  ultimately show ?thesis
    using ok unfolding lifecycle_ok_def by (simp add: fun_upd_apply) metis
qed

lemma lifecycle_no_pending:
  assumes "lifecycle_ok cur ks rots" "cur sid = Some c" "(sid, c + 1) \<notin> set ks" "r \<in> set rots" "pending r"
  shows "rr_secret_id r \<noteq> sid"
  using lifecycle_pending [OF assms(1,4,5)] assms(2,3) by auto

lemma lifecycle_write:
  assumes ok: "lifecycle_ok cur ks rots" and c: "cur sid = Some c" and new: "(sid, c + 1) \<notin> set ks"
    and ks': "distinct ks'" "set ks' \<subseteq> insert (sid, c + 1) (set ks)"
      "\<And>x v. x \<noteq> sid \<Longrightarrow> (x, v) \<in> set ks \<Longrightarrow> (x, v) \<in> set ks'"
  shows "lifecycle_ok (cur(sid := Some (c + 1))) ks' rots"
  unfolding lifecycle_ok_def
proof (intro conjI allI impI ballI)
  fix x v assume v: "(x, v) \<in> set ks'"
  show "\<exists>c'. (cur(sid := Some (c + 1))) x = Some c' \<and>
      (v \<le> c' \<or> v = c' + 1 \<and> (\<exists>r \<in> set rots. pending r \<and> rr_secret_id r = x))"
  proof (cases "x = sid")
    case True
    from v ks'(2) True have "v = c + 1 \<or> (sid, v) \<in> set ks" by auto
    then have "v \<le> c + 1" using lifecycle_version [OF ok, of sid v] c by auto
    with True show ?thesis by simp
  next
    case False
    with v ks'(2) lifecycle_version [OF ok, of x v] show ?thesis by auto
  qed
next
  fix r assume r: "r \<in> set rots" "pending r"
  have ne: "rr_secret_id r \<noteq> sid" by (rule lifecycle_no_pending [OF ok c new r])
  with lifecycle_pending [OF ok r] ks'(3)
  show "(cur(sid := Some (c + 1))) (rr_secret_id r) = Some (rr_old_version r)"
    "rr_new_version r = rr_old_version r + 1" "(rr_secret_id r, rr_new_version r) \<in> set ks'"
    by auto
qed (use ks'(1) lifecycle_rots [OF ok] in auto)

lemma lifecycle_initiate:
  assumes ok: "lifecycle_ok cur ks rots" and c: "cur (rr_secret_id r) = Some (rr_old_version r)"
    and r: "pending r" "rr_new_version r = rr_old_version r + 1"
    and new: "(rr_secret_id r, rr_new_version r) \<notin> set ks" "rr_id r \<notin> rr_id ` set rots"
    and none: "\<forall>r' \<in> set rots. pending r' \<longrightarrow> rr_secret_id r' \<noteq> rr_secret_id r"
  shows "lifecycle_ok cur (ks @ [(rr_secret_id r, rr_new_version r)]) (rots @ [r])"
  unfolding lifecycle_ok_def
proof (intro conjI allI impI ballI)
  fix x v assume "(x, v) \<in> set (ks @ [(rr_secret_id r, rr_new_version r)])"
  then show "\<exists>c'. cur x = Some c' \<and>
      (v \<le> c' \<or> v = c' + 1 \<and> (\<exists>r' \<in> set (rots @ [r]). pending r' \<and> rr_secret_id r' = x))"
    using lifecycle_version [OF ok, of x v] c r by auto
next
  fix r' assume "r' \<in> set (rots @ [r])" "pending r'"
  then show "cur (rr_secret_id r') = Some (rr_old_version r')" "rr_new_version r' = rr_old_version r' + 1"
    "(rr_secret_id r', rr_new_version r') \<in> set (ks @ [(rr_secret_id r, rr_new_version r)])"
    using lifecycle_pending [OF ok, of r'] c r by auto
qed (use lifecycle_distinct [OF ok] lifecycle_rots [OF ok] new r none in auto)

lemma lifecycle_confirm:
  assumes ok: "lifecycle_ok cur ks rots" and r: "r \<in> set rots" "pending r"
    and f: "\<And>x. rr_id (f x) = rr_id x \<and> rr_secret_id (f x) = rr_secret_id x" "\<not> pending (f r)"
  shows "lifecycle_ok (cur(rr_secret_id r := Some (rr_new_version r))) ks
           (map (\<lambda>x. if rr_id x = rr_id r then f x else x) rots)" (is "lifecycle_ok ?cur ks ?rots")
proof -
  note p = lifecycle_pending [OF ok r]
  have same: "x = r" if "x \<in> set rots" "rr_id x = rr_id r" for x
    using lifecycle_rots(1) [OF ok] r(1) that by (auto simp: distinct_map dest: inj_onD)
  have other: "rr_secret_id x \<noteq> rr_secret_id r" if "x \<in> set rots" "pending x" "rr_id x \<noteq> rr_id r" for x
    using lifecycle_rots(2) [OF ok] r that by (auto simp: distinct_map dest: inj_onD)
  have rots: "filter pending ?rots = filter (\<lambda>x. rr_id x \<noteq> rr_id r) (filter pending rots)"
    using same f(2) by (induction rots) (auto split: if_splits)
  show ?thesis
    unfolding lifecycle_ok_def
  proof (intro conjI allI impI ballI)
    fix x v assume v: "(x, v) \<in> set ks"
    show "\<exists>c. ?cur x = Some c \<and> (v \<le> c \<or> v = c + 1 \<and> (\<exists>r' \<in> set ?rots. pending r' \<and> rr_secret_id r' = x))"
    proof (cases "x = rr_secret_id r")
      case True
      with lifecycle_version [OF ok v] p show ?thesis by auto
    next
      case False
      with lifecycle_version [OF ok v] obtain c where "cur x = Some c"
        "v \<le> c \<or> v = c + 1 \<and> (\<exists>r' \<in> set rots. pending r' \<and> rr_secret_id r' = x)" by auto
      moreover have "r' \<in> set ?rots" if "r' \<in> set rots" "rr_secret_id r' = x" for r'
        using that False same by force
      ultimately show ?thesis using False by auto
    qed
  next
    fix r' assume r': "r' \<in> set ?rots" "pending r'"
    then have "r' \<in> set (filter pending ?rots)" by simp
    then have "r' \<in> set rots" "rr_id r' \<noteq> rr_id r" unfolding rots by simp_all
    with other r'(2) lifecycle_pending [OF ok, of r']
    show "?cur (rr_secret_id r') = Some (rr_old_version r')" "rr_new_version r' = rr_old_version r' + 1"
      "(rr_secret_id r', rr_new_version r') \<in> set ks" by auto
  next
    have "map rr_id ?rots = map rr_id rots" using f(1) by (induction rots) auto
    with lifecycle_rots(1) [OF ok] show "distinct (map rr_id ?rots)" by (simp only:)
  next
    show "distinct (map rr_secret_id (filter pending ?rots))"
      unfolding rots using lifecycle_rots(2) [OF ok] by (rule distinct_map_filter)
  qed (rule lifecycle_distinct [OF ok])
qed

subsection \<open>Preservation by each function\<close>

lemma row_of_iff:
  assumes "distinct (map (sr_id \<circ> snd) (pg_secrets db))"
  shows "row_of db sid = Some r \<longleftrightarrow> r \<in> snd ` set (pg_secrets db) \<and> sr_id r = sid"
proof -
  have "find (\<lambda>s. sr_id s = sid) rs = Some r \<longleftrightarrow> r \<in> set rs \<and> sr_id r = sid"
    if "distinct (map sr_id rs)" for rs
    using that by (induction rs) auto
  from this [of "map snd (pg_secrets db)"] assms show ?thesis
    by (simp add: row_of_def o_def)
qed

lemma find_append: "find P (xs @ ys) = (case find P xs of Some x \<Rightarrow> Some x | None \<Rightarrow> find P ys)"
  by (induction xs) auto

lemma current_cong:
  assumes "map ((\<lambda>s. (sr_id s, sr_current_version s)) \<circ> snd) (pg_secrets db') =
           map ((\<lambda>s. (sr_id s, sr_current_version s)) \<circ> snd) (pg_secrets db)"
  shows "current db' = current db"
proof
  fix x
  have eq: "map_option sr_current_version (find (\<lambda>s. sr_id s = x) rs) =
      map_option snd (find (\<lambda>p. fst p = x) (map (\<lambda>s. (sr_id s, sr_current_version s)) rs))" for rs
    by (induction rs) auto
  show "current db' x = current db x"
    unfolding current_def row_of_def eq using assms by (simp add: o_def)
qed

lemma row_of_get:
  assumes "pg_inv db" "hm_get (pg_secrets db) k = Some r"
  shows "row_of db (sr_id r) = Some r"
proof -
  from assms have "(k, r) \<in> set (pg_secrets db)" by (simp add: pg_inv_def hm_get_iff)
  then have "r \<in> snd ` set (pg_secrets db)" by force
  with assms(1) show ?thesis by (simp add: pg_inv_def row_of_iff)
qed

lemma version_keys_update_versions:
  assumes "\<And>v. vr_secret_id (f v) = vr_secret_id v \<and> vr_version (f v) = vr_version v"
  shows "version_keys (update_versions P f db) = version_keys db"
  using assms by (simp add: version_keys_def update_versions_def o_def if_distrib [of vr_secret_id]
      if_distrib [of vr_version] cong: if_cong)

lemma pg_inv_update_versions:
  assumes "pg_inv db" "\<And>v. vr_secret_id (f v) = vr_secret_id v \<and> vr_version (f v) = vr_version v"
  shows "pg_inv (update_versions P f db)"
proof -
  have "pg_secrets (update_versions P f db) = pg_secrets db"
    "pg_rotations (update_versions P f db) = pg_rotations db"
    by (simp_all add: update_versions_def)
  with assms show ?thesis by (simp add: pg_inv_def version_keys_update_versions)
qed

lemma ids_update_secret:
  assumes "\<And>r. sr_id (f r) = sr_id r"
  shows "map (sr_id \<circ> snd) (pg_secrets (update_secret now sid f db)) = map (sr_id \<circ> snd) (pg_secrets db)"
  using assms by (simp add: update_secret_def hm_map_values_def o_def case_prod_beta)

lemma current_update_secret:
  assumes "\<And>r. sr_id (f r) = sr_id r"
  shows "current (update_secret now sid f db) x =
           (if x = sid then map_option (\<lambda>r. sr_current_version (f r)) (row_of db x) else current db x)"
  using assms by (simp add: current_def row_of_update_secret option.map_comp o_def)

lemma pg_inv_write:
  assumes inv: "pg_inv db" and row: "row_of db sid = Some r"
    and ins: "insert_version (new_version_row now sid (sr_current_version r + 1) c d md st by') db = Inr db1"
    and keys: "pg_secrets db2 = pg_secrets db" "pg_rotations db2 = pg_rotations db"
      "distinct (version_keys db2)" "set (version_keys db2) \<subseteq> set (version_keys db1)"
      "\<And>x v. x \<noteq> sid \<Longrightarrow> (x, v) \<in> set (version_keys db) \<Longrightarrow> (x, v) \<in> set (version_keys db2)"
    and n: "n = sr_current_version r + 1"
  shows "pg_inv (update_secret now sid (\<lambda>r. r\<lparr>sr_current_version := n\<rparr>) db2)"
proof -
  let ?u = "update_secret now sid (\<lambda>r. r\<lparr>sr_current_version := n\<rparr>) db2"
  let ?c = "sr_current_version r"
  from ins have new: "(sid, ?c + 1) \<notin> set (version_keys db)"
    and db1: "version_keys db1 = version_keys db @ [(sid, ?c + 1)]"
    by (auto simp: insert_version_def new_version_row_def version_keys_def list_ex_iff split: if_splits)
  have row2: "row_of db2 = row_of db" by (simp add: row_of_def keys(1) fun_eq_iff)
  have cur: "current ?u = (current db)(sid := Some (?c + 1))"
    using row row2 n by (simp add: fun_eq_iff current_update_secret) (simp add: current_def)
  have "lifecycle_ok (current ?u) (version_keys db2) (pg_rotations db)"
    unfolding cur
    by (rule lifecycle_write [of _ "version_keys db"])
      (use inv row new keys db1 in \<open>auto simp: pg_inv_def current_def\<close>)
  moreover have "version_keys ?u = version_keys db2" by (simp add: version_keys_def)
  ultimately show ?thesis
    using inv keys by (simp add: pg_inv_def ids_update_secret)
qed

lemma pg_inv_upsert_row:
  assumes inv: "pg_inv db"
    and fresh: "hm_get (pg_secrets db) (t, p) = None \<Longrightarrow> row_of db i = None"
    and row: "row = upsert_secret_row now i t p eng mv req md lp (hm_get (pg_secrets db) (t, p))"
  shows "pg_inv (db\<lparr>pg_secrets := hm_insert (t, p) row (pg_secrets db)\<rparr>) \<and>
         row_of (db\<lparr>pg_secrets := hm_insert (t, p) row (pg_secrets db)\<rparr>) (sr_id row) = Some row"
    (is "pg_inv ?db \<and> _")
proof -
  have keys: "version_keys ?db = version_keys db" "pg_rotations ?db = pg_rotations db"
    by (simp_all add: version_keys_def)
  have ok: "hm_ok (pg_secrets ?db)" using inv by (simp add: pg_inv_def)
  have *: "distinct (map (sr_id \<circ> snd) (pg_secrets ?db)) \<and>
      lifecycle_ok (current ?db) (version_keys ?db) (pg_rotations ?db)"
  proof (cases "hm_get (pg_secrets db) (t, p)")
    case None
    have ids: "pg_secrets ?db = pg_secrets db @ [((t, p), row)]" using None by (simp add: update_new)
    have i: "sr_id row = i" "sr_current_version row = 0" using row None by (simp_all add: upsert_secret_row_def)
    from fresh [OF None] have notin: "i \<notin> set (map (sr_id \<circ> snd) (pg_secrets db))"
      by (force simp: row_of_def find_None_iff)
    have "row_of ?db x = (if x = i then Some row else row_of db x)" for x
      using fresh [OF None] i by (auto simp: row_of_def ids find_append split: option.split)
    then have "current ?db = (current db)(i := Some 0)"
      using i by (simp add: fun_eq_iff current_def)
    moreover have "current db i = None" using fresh [OF None] by (simp add: current_def)
    ultimately show ?thesis
      using inv notin i lifecycle_new_secret [of "current db" "version_keys db" "pg_rotations db" i]
      by (simp add: pg_inv_def keys ids)
  next
    case (Some r)
    have i: "sr_id row = sr_id r" "sr_current_version row = sr_current_version r"
      using row Some by (simp_all add: upsert_secret_row_def)
    have "map (sr_id \<circ> snd) (pg_secrets ?db) = map (sr_id \<circ> snd) (pg_secrets db)"
      "map ((\<lambda>s. (sr_id s, sr_current_version s)) \<circ> snd) (pg_secrets ?db) =
       map ((\<lambda>s. (sr_id s, sr_current_version s)) \<circ> snd) (pg_secrets db)"
      using find_update_value [OF Some, of sr_id row]
        find_update_value [OF Some, of "\<lambda>s. (sr_id s, sr_current_version s)" row] i by simp_all
    moreover from this(2) have "current ?db = current db"
      by (rule current_cong)
    ultimately show ?thesis using inv by (simp add: pg_inv_def keys)
  qed
  with ok have inv': "pg_inv ?db" by (simp add: pg_inv_def)
  moreover have "hm_get (pg_secrets ?db) (t, p) = Some row" by simp
  ultimately show ?thesis using row_of_get by blast
qed

lemma version_keys_insert:
  assumes "insert_version row db = Inr db'"
  shows "version_keys db' = version_keys db @ [(vr_secret_id row, vr_version row)]"
    "(vr_secret_id row, vr_version row) \<notin> set (version_keys db)"
    "pg_secrets db' = pg_secrets db" "pg_rotations db' = pg_rotations db"
  using assms by (auto simp: insert_version_def version_keys_def list_ex_iff split: if_splits)

lemma new_version_row_simps [simp]:
  "vr_secret_id (new_version_row now sid v c d md st b) = sid"
  "vr_version (new_version_row now sid v c d md st b) = v"
  "vr_ciphertext (new_version_row now sid v c d md st b) = c"
  "vr_status (new_version_row now sid v c d md st b) = st"
  "vr_destroyed (new_version_row now sid v c d md st b) = False"
  "vr_deleted_at (new_version_row now sid v c d md st b) = None"
  by (simp_all add: new_version_row_def)

lemma pg_inv_upsert:
  assumes inv: "pg_inv db"
    and up: "vault_upsert_secret now i t p eng c d cas mv req md lp db = Inr (db', sid, n)"
  shows "pg_inv db'"
proof -
  define row where "row = upsert_secret_row now i t p eng mv req md lp (hm_get (pg_secrets db) (t, p))"
  define db1 where "db1 = db\<lparr>pg_secrets := hm_insert (t, p) row (pg_secrets db)\<rparr>"
  from up obtain db2 where ins: "insert_version (new_version_row now (sr_id row)
      (sr_current_version row + 1) c d md ''active'' (lp_created_by lp)) db1 = Inr db2"
    and db': "db' = (update_secret now (sr_id row) (\<lambda>r. r\<lparr>sr_current_version := n\<rparr>) db2)
      \<lparr>pg_versions := filter (\<lambda>sv. \<not> (vr_secret_id sv = sr_id row \<and> vr_version sv \<le> n - mv \<and>
        \<not> vr_destroyed sv)) (pg_versions db2)\<rparr>"
    and n: "n = sr_current_version row + 1"
    and fresh: "hm_get (pg_secrets db) (t, p) = None \<Longrightarrow> row_of db i = None"
    by (auto simp: vault_upsert_secret_def Let_def row_def db1_def result_iff split: if_splits)
  from pg_inv_upsert_row [OF inv fresh row_def]
  have inv1: "pg_inv db1" and row1: "row_of db1 (sr_id row) = Some row" by (simp_all add: db1_def)
  define db3 where "db3 = db2\<lparr>pg_versions := filter (\<lambda>sv. \<not> (vr_secret_id sv = sr_id row \<and>
      vr_version sv \<le> n - mv \<and> \<not> vr_destroyed sv)) (pg_versions db2)\<rparr>"
  have d2: "distinct (version_keys db2)"
    using inv1 version_keys_insert [OF ins] by (simp add: pg_inv_def lifecycle_ok_def)
  have "db' = update_secret now (sr_id row) (\<lambda>r. r\<lparr>sr_current_version := n\<rparr>) db3"
    by (simp add: db' db3_def update_secret_def)
  also have "pg_inv \<dots>"
  proof (rule pg_inv_write [OF inv1 row1 ins _ _ _ _ _ n])
    show "distinct (version_keys db3)"
      using d2 by (simp add: version_keys_def db3_def distinct_map_filter)
    show "set (version_keys db3) \<subseteq> set (version_keys db2)"
      by (auto simp: version_keys_def db3_def)
    fix x v assume x: "x \<noteq> sr_id row" "(x, v) \<in> set (version_keys db1)"
    then have "(x, v) \<in> set (version_keys db2)" using version_keys_insert(1) [OF ins] by simp
    with x(1) show "(x, v) \<in> set (version_keys db3)" by (auto simp: version_keys_def db3_def)
  qed (use version_keys_insert [OF ins] in \<open>simp_all add: db3_def\<close>)
  finally show ?thesis .
qed

lemma pg_inv_rollback:
  assumes inv: "pg_inv db" and rb: "vault_rollback_secret now t p v b db = Inr (db', n)"
  shows "pg_inv db'"
proof -
  from rb obtain s target where s: "hm_get (pg_secrets db) (t, p) = Some s"
    and target: "find (\<lambda>w. vr_secret_id w = sr_id s \<and> vr_version w = v \<and> \<not> vr_destroyed w) (pg_versions db) = Some target"
    by (auto simp: vault_rollback_secret_def Let_def result_iff)
  from rb s target obtain db1 where ins: "insert_version (new_version_row now (sr_id s) (sr_current_version s + 1)
      (vr_ciphertext target) (vr_dek_id target) (vr_custom_metadata target) ''active'' (Some b)) db = Inr db1"
    by (auto simp: vault_rollback_secret_def Let_def result_iff)
  from rb s target ins have n: "n = sr_current_version s + 1"
    and db': "db' = update_secret now (sr_id s) (\<lambda>r. r\<lparr>sr_current_version := n\<rparr>)
      (update_versions (\<lambda>v. vr_secret_id v = sr_id s \<and> vr_version v = sr_current_version s \<and>
         vr_status v = ''active'') (\<lambda>v. v\<lparr>vr_status := ''deprecated'', vr_deprecated_at := Some now\<rparr>) db1)"
    by (auto simp: vault_rollback_secret_def Let_def)
  have "distinct (version_keys db1)"
    using inv version_keys_insert [OF ins] by (simp add: pg_inv_def lifecycle_ok_def)
  with version_keys_insert [OF ins] show ?thesis
    unfolding db'
    by (intro pg_inv_write [OF inv row_of_get [OF inv s] ins _ _ _ _ _ n])
      (simp_all add: version_keys_update_versions, simp_all add: update_versions_def)
qed

lemma pg_inv_initiate:
  assumes inv: "pg_inv db" and up: "vault_initiate_rotation now i t p c d b w to db = Inr (db', rid, n)"
  shows "pg_inv db'"
proof -
  from up obtain s db1 where s: "hm_get (pg_secrets db) (t, p) = Some s"
    and none: "\<not> list_ex (\<lambda>r. rr_secret_id r = sr_id s \<and> rr_status r = ''pending_activation'') (pg_rotations db)"
    and i: "\<not> list_ex (\<lambda>r. rr_id r = i) (pg_rotations db)"
    and ins: "insert_version (new_version_row now (sr_id s) (sr_current_version s + 1) c d [] ''pending'' (Some b)) db = Inr db1"
    by (auto simp: vault_initiate_rotation_def Let_def result_iff split: if_splits)
  define r where "r = \<lparr>rr_id = i, rr_secret_id = sr_id s, rr_tenant_id = t,
      rr_path = p, rr_old_version = sr_current_version s, rr_new_version = sr_current_version s + 1,
      rr_status = ''pending_activation'', rr_initiated_by = b, rr_confirmed_by = None, rr_webhook_url = w,
      rr_created_at = now, rr_confirmed_at = None, rr_completed_at = None, rr_grace_ends_at = None,
      rr_expires_at = now + seconds (case to of Some t \<Rightarrow> t | None \<Rightarrow> 86400)\<rparr>"
  define db2 where "db2 = db1\<lparr>pg_rotations := pg_rotations db1 @ [r]\<rparr>"
  have db': "db' = update_secret now (sr_id s) (\<lambda>r. r\<lparr>sr_rotation_status := ''pending''\<rparr>) db2"
    using up s none i ins by (auto simp: vault_initiate_rotation_def Let_def db2_def r_def)
  note k = version_keys_insert [OF ins]
  have row: "row_of db (sr_id s) = Some s" by (rule row_of_get [OF inv s])
  have rows: "row_of db2 = row_of db" by (simp add: row_of_def db2_def k(3) fun_eq_iff)
  have cur: "current db' = current db"
    by (simp add: db' fun_eq_iff current_update_secret rows) (simp add: current_def rows)
  have "lifecycle_ok (current db) (version_keys db @ [(rr_secret_id r, rr_new_version r)]) (pg_rotations db @ [r])"
    by (rule lifecycle_initiate)
      (use inv row k none i in \<open>auto simp: pg_inv_def r_def current_def pending_def list_ex_iff\<close>)
  moreover have "version_keys db' = version_keys db @ [(rr_secret_id r, rr_new_version r)]"
    using k(1) by (simp add: db' db2_def version_keys_def r_def)
  ultimately show ?thesis
    using inv k by (simp add: pg_inv_def cur) (simp add: db' ids_update_secret db2_def)
qed

lemma find_SomeD: "find P xs = Some x \<Longrightarrow> x \<in> set xs \<and> P x"
  by (induction xs) (auto split: if_splits)

lemma pg_inv_confirm:
  assumes inv: "pg_inv db" and up: "vault_confirm_rotation now rid b db = Inr (db', vo, vn, g)"
  shows "pg_inv db'"
proof -
  from up obtain r where f: "find (\<lambda>r. rr_id r = rid \<and> rr_status r = ''pending_activation'' \<and> rr_expires_at r > now)
      (pg_rotations db) = Some r"
    by (auto simp: vault_confirm_rotation_def Let_def result_iff)
  from find_SomeD [OF f] have r: "r \<in> set (pg_rotations db)" "pending r" "rr_id r = rid"
    by (auto simp: pending_def)
  let ?f = "\<lambda>x. x\<lparr>rr_status := ''confirmed'', rr_confirmed_by := Some b,
      rr_confirmed_at := Some now, rr_grace_ends_at := Some g\<rparr>"
  have rots: "pg_rotations db' = map (\<lambda>x. if rr_id x = rr_id r then ?f x else x) (pg_rotations db)"
    and keys: "version_keys db' = version_keys db"
    and ids: "map (sr_id \<circ> snd) (pg_secrets db') = map (sr_id \<circ> snd) (pg_secrets db)"
    and ok: "hm_ok (pg_secrets db') = hm_ok (pg_secrets db)"
    using up f r(3)
    by (auto simp: vault_confirm_rotation_def Let_def version_keys_def update_versions_def
        update_secret_def hm_map_values_def case_prod_beta o_def hm_ok_def)
  have "row_of db (rr_secret_id r) \<noteq> None"
    using lifecycle_pending [OF _ r(1,2), of "current db" "version_keys db"] inv
    by (auto simp: pg_inv_def current_def)
  then have cur: "current db' = (current db)(rr_secret_id r := Some (rr_new_version r))"
    using up f by (auto simp: vault_confirm_rotation_def Let_def fun_eq_iff current_update_secret)
      (auto simp: update_versions_def row_of_def)
  have "lifecycle_ok (current db') (version_keys db') (pg_rotations db')"
    unfolding cur rots keys
    by (rule lifecycle_confirm [OF _ r(1,2)]) (use inv in \<open>auto simp: pg_inv_def pending_def\<close>)
  with inv ids ok show ?thesis by (simp add: pg_inv_def)
qed

lemma lifecycle_ok_cong:
  assumes "filter pending rots' = filter pending rots" "map rr_id rots' = map rr_id rots"
  shows "lifecycle_ok cur ks rots' = lifecycle_ok cur ks rots"
proof -
  have mem: "(r \<in> set rots' \<and> pending r) = (r \<in> set rots \<and> pending r)" for r
    using arg_cong [OF assms(1), of "\<lambda>l. r \<in> set l"] by simp
  have ex: "(\<exists>r\<in>set rots'. pending r \<and> Q r) = (\<exists>r\<in>set rots. pending r \<and> Q r)" for Q
    using mem by blast
  have all: "(\<forall>r\<in>set rots'. pending r \<longrightarrow> Q r) = (\<forall>r\<in>set rots. pending r \<longrightarrow> Q r)" for Q
    using mem by blast
  show ?thesis
    unfolding lifecycle_ok_def ex all assms ..
qed

lemma pg_inv_rotations_map:
  assumes inv: "pg_inv db" and f: "\<And>r. rr_id (f r) = rr_id r"
    "\<And>r. r \<in> set (pg_rotations db) \<Longrightarrow> P r \<Longrightarrow> \<not> pending r \<and> \<not> pending (f r)"
  shows "pg_inv (db\<lparr>pg_rotations := map (\<lambda>r. if P r then f r else r) (pg_rotations db)\<rparr>)" (is "pg_inv ?db")
proof -
  let ?g = "\<lambda>r. if P r then f r else r"
  have p: "filter pending (map ?g rs) = filter pending rs" if "set rs \<subseteq> set (pg_rotations db)" for rs
    using that f(2) by (induction rs) auto
  have i: "map rr_id (map ?g (pg_rotations db)) = map rr_id (pg_rotations db)" using f(1) by simp
  have "lifecycle_ok (current db) (version_keys db) (map ?g (pg_rotations db))"
    using inv lifecycle_ok_cong [OF p [OF subset_refl] i] by (simp add: pg_inv_def)
  with inv show ?thesis by (simp add: pg_inv_def version_keys_def)
qed

lemma pg_inv_step: "pg_step db db' \<Longrightarrow> pg_inv db \<Longrightarrow> pg_inv db'"
proof (induction rule: pg_step.induct)
  case (step_revoke db now k)
  define R where "R = take k (filter (\<lambda>r. rr_status r = ''confirmed'' \<and>
            (case rr_grace_ends_at r of Some g \<Rightarrow> g < now | None \<Rightarrow> False)) (pg_rotations db))"
  let ?db1 = "update_versions
      (\<lambda>v. list_ex (\<lambda>tr. vr_secret_id v = rr_secret_id tr \<and> vr_version v = rr_old_version tr) R)
      (\<lambda>v. (destroy_row now v)\<lparr>vr_status := ''revoked'', vr_revoked_at := Some now\<rparr>) db"
  have "pg_inv ?db1"
    by (rule pg_inv_update_versions [OF step_revoke]) (simp add: destroy_row_def)
  moreover have "\<not> pending r" if "r \<in> set (pg_rotations db)" "list_ex (\<lambda>tr. rr_id tr = rr_id r) R" for r
  proof -
    from that(2) obtain tr where tr: "tr \<in> set R" "rr_id tr = rr_id r" by (auto simp: list_ex_iff)
    then have "tr \<in> set (pg_rotations db)" "rr_status tr = ''confirmed''"
      by (auto simp: R_def dest: in_set_takeD)
    with tr(2) that(1) step_revoke have "tr = r"
      by (auto simp: pg_inv_def lifecycle_ok_def distinct_map dest: inj_onD)
    with \<open>rr_status tr = _\<close> show ?thesis by (simp add: pending_def)
  qed
  ultimately have "pg_inv (?db1\<lparr>pg_rotations := map (\<lambda>r. if list_ex (\<lambda>tr. rr_id tr = rr_id r) R
      then r\<lparr>rr_status := ''completed'', rr_completed_at := Some now\<rparr> else r) (pg_rotations ?db1)\<rparr>)"
    by (intro pg_inv_rotations_map) (auto simp: pending_def update_versions_def)
  then show ?case by (simp add: vault_revoke_deprecated_versions_def Let_def R_def)
next
  case (step_destroy db now sid vs)
  then show ?case
    by (auto simp: vault_destroy_versions_def Let_def destroy_row_def intro!: pg_inv_update_versions)
next
  case (step_soft_delete db now sid vs)
  then show ?case
    by (auto simp: vault_soft_delete_versions_def Let_def intro!: pg_inv_update_versions)
qed (blast intro: pg_inv_upsert pg_inv_initiate pg_inv_confirm pg_inv_rollback)+

lemma pg_inv_empty: "pg_inv pg_empty"
  by (simp add: pg_inv_def pg_empty_def lifecycle_ok_def version_keys_def hm_ok_def)

lemma pg_inv_reachable: "pg_step\<^sup>*\<^sup>* db db' \<Longrightarrow> pg_inv db \<Longrightarrow> pg_inv db'"
  by (induction rule: rtranclp_induct) (auto intro: pg_inv_step)

subsection \<open>The current version only grows\<close>

lemma upsert_current:
  assumes inv: "pg_inv db"
    and up: "vault_upsert_secret now i t p eng c d cas mv req md lp db = Inr (db', sid, n)"
  shows "current db' = (current db)(sid := Some n) \<and>
         n = (case current db sid of Some c \<Rightarrow> c | None \<Rightarrow> 0) + 1 \<and> (sid, n) \<notin> set (version_keys db)"
proof -
  define row where "row = upsert_secret_row now i t p eng mv req md lp (hm_get (pg_secrets db) (t, p))"
  define db1 where "db1 = db\<lparr>pg_secrets := hm_insert (t, p) row (pg_secrets db)\<rparr>"
  from up obtain db2 where ins: "insert_version (new_version_row now (sr_id row)
      (sr_current_version row + 1) c d md ''active'' (lp_created_by lp)) db1 = Inr db2"
    and db': "db' = (update_secret now (sr_id row) (\<lambda>r. r\<lparr>sr_current_version := n\<rparr>) db2)
      \<lparr>pg_versions := filter (\<lambda>sv. \<not> (vr_secret_id sv = sr_id row \<and> vr_version sv \<le> n - mv \<and>
        \<not> vr_destroyed sv)) (pg_versions db2)\<rparr>"
    and n: "n = sr_current_version row + 1" "sid = sr_id row"
    and fresh: "hm_get (pg_secrets db) (t, p) = None \<Longrightarrow> row_of db i = None"
    by (auto simp: vault_upsert_secret_def Let_def row_def db1_def result_iff split: if_splits)
  have row1: "row_of db1 (sr_id row) = Some row"
    using pg_inv_upsert_row [OF inv fresh row_def] by (simp add: db1_def)
  have rows: "row_of db2 = row_of db1"
    using version_keys_insert(3) [OF ins] by (simp add: row_of_def fun_eq_iff)
  have other: "current db1 x = current db x" if "x \<noteq> sid" for x
  proof (cases "hm_get (pg_secrets db) (t, p)")
    case None
    then show ?thesis
      using that n(2) by (simp add: current_def row_of_def db1_def update_new find_append split: option.split)
  next
    case (Some r)
    have "sr_id row = sr_id r \<and> sr_current_version row = sr_current_version r"
      by (simp add: row_def Some upsert_secret_row_def)
    then have "map ((\<lambda>s. (sr_id s, sr_current_version s)) \<circ> snd) (pg_secrets db1) =
       map ((\<lambda>s. (sr_id s, sr_current_version s)) \<circ> snd) (pg_secrets db)"
      using find_update_value [OF Some, of "\<lambda>s. (sr_id s, sr_current_version s)" row]
      by (simp add: db1_def)
    from current_cong [OF this] show ?thesis by simp
  qed
  have "current db' x = ((current db)(sid := Some n)) x" for x
    using row1 other [of x] by (simp add: db' current_update_secret rows n(2)) (simp add: current_def rows)
  moreover have "(case current db sid of Some c \<Rightarrow> c | None \<Rightarrow> 0) = sr_current_version row"
  proof (cases "hm_get (pg_secrets db) (t, p)")
    case None
    with fresh show ?thesis by (simp add: n(2) row_def upsert_secret_row_def current_def)
  next
    case (Some r)
    with row_of_get [OF inv Some] show ?thesis
      by (simp add: n(2) row_def upsert_secret_row_def current_def)
  qed
  moreover have "(sid, n) \<notin> set (version_keys db)"
    using version_keys_insert(2) [OF ins] n by (simp add: version_keys_def db1_def)
  ultimately show ?thesis using n(1) by (auto simp: fun_eq_iff)
qed

lemma current_mono_step:
  "pg_step db db' \<Longrightarrow> pg_inv db \<Longrightarrow> current db sid = Some c \<Longrightarrow> \<exists>c'\<ge>c. current db' sid = Some c'"
proof (induction rule: pg_step.induct)
  case (step_upsert now i t p eng c' d cas mv req md lp db db' x n)
  with upsert_current [OF step_upsert(2,1)] show ?case by (cases "x = sid") auto
next
  case (step_initiate now i t p c' d b w to db db' rid n)
  then obtain s db1 where s: "hm_get (pg_secrets db) (t, p) = Some s"
    and ins: "insert_version (new_version_row now (sr_id s) (sr_current_version s + 1) c' d [] ''pending'' (Some b)) db = Inr db1"
    by (auto simp: vault_initiate_rotation_def Let_def result_iff split: if_splits)
  have "row_of db1 = row_of db"
    using version_keys_insert(3) [OF ins] by (simp add: row_of_def fun_eq_iff)
  with step_initiate s ins have "current db' sid = current db sid"
    by (auto simp: vault_initiate_rotation_def Let_def current_update_secret split: if_splits)
      (auto simp: current_def)
  with step_initiate.prems show ?case by auto
next
  case (step_confirm now rid b db db' vo vn g)
  then obtain r where f: "find (\<lambda>r. rr_id r = rid \<and> rr_status r = ''pending_activation'' \<and> rr_expires_at r > now)
      (pg_rotations db) = Some r"
    by (auto simp: vault_confirm_rotation_def Let_def result_iff)
  from find_SomeD [OF f] have r: "r \<in> set (pg_rotations db)" "pending r" by (auto simp: pending_def)
  from step_confirm.prems(1) have p: "current db (rr_secret_id r) = Some (rr_old_version r)"
      "rr_new_version r = rr_old_version r + 1"
    using lifecycle_pending [OF _ r] by (auto simp: pg_inv_def)
  from step_confirm.hyps f have "current db' sid = (if sid = rr_secret_id r
      then map_option (\<lambda>_. rr_new_version r) (row_of db sid) else current db sid)"
    by (auto simp: vault_confirm_rotation_def Let_def current_update_secret)
      (auto simp: update_versions_def row_of_def)
  with p step_confirm.prems(2) show ?case by (auto simp: current_def)
next
  case (step_rollback now t p v b db db' n)
  from step_rollback.hyps obtain s target where s: "hm_get (pg_secrets db) (t, p) = Some s"
    and target: "find (\<lambda>w. vr_secret_id w = sr_id s \<and> vr_version w = v \<and> \<not> vr_destroyed w) (pg_versions db) = Some target"
    by (auto simp: vault_rollback_secret_def Let_def result_iff)
  from step_rollback.hyps s target obtain db1 where ins: "insert_version (new_version_row now (sr_id s) (sr_current_version s + 1)
      (vr_ciphertext target) (vr_dek_id target) (vr_custom_metadata target) ''active'' (Some b)) db = Inr db1"
    by (auto simp: vault_rollback_secret_def Let_def result_iff)
  have rows: "row_of (update_versions P f db1) = row_of db" for P f
    using version_keys_insert(3) [OF ins] by (simp add: update_versions_def row_of_def fun_eq_iff)
  have "current db1 = current db"
    using version_keys_insert(3) [OF ins] by (simp add: current_def row_of_def fun_eq_iff)
  then have "current db' sid = (if sid = sr_id s then map_option (\<lambda>_. sr_current_version s + 1) (row_of db sid) else current db sid)"
    using step_rollback.hyps s target ins
    by (auto simp: vault_rollback_secret_def Let_def current_update_secret rows)
  with row_of_get [OF step_rollback.prems(1) s] step_rollback.prems(2) show ?case by (auto simp: current_def)
qed (auto simp: vault_revoke_deprecated_versions_def vault_soft_delete_versions_def vault_destroy_versions_def Let_def)

lemma current_mono:
  "pg_step\<^sup>*\<^sup>* db db' \<Longrightarrow> pg_inv db \<Longrightarrow> current db sid = Some c \<Longrightarrow> \<exists>c'\<ge>c. current db' sid = Some c'"
proof (induction rule: rtranclp_induct)
  case (step y z)
  then obtain c' where "c' \<ge> c" "current y sid = Some c'" by auto
  with current_mono_step [OF step.hyps(2) pg_inv_reachable [OF step.hyps(1) step.prems(1)]] show ?case
    by (meson order_trans)
qed auto

lemma pg_inv_distinct: "pg_inv db \<Longrightarrow> distinct (version_keys db)"
  by (simp add: pg_inv_def lifecycle_ok_def)

lemma upsert_above:
  assumes "pg_inv db" "vault_upsert_secret now i t p eng c d cas mv req md lp db = Inr (db', sid, n)"
    "v \<in> set (pg_versions db)" "vr_secret_id v = sid"
  shows "vr_version v < n"
proof -
  have key: "(sid, vr_version v) \<in> set (version_keys db)"
    using assms(3,4) by (auto simp: version_keys_def)
  with lifecycle_version [of "current db" "version_keys db" "pg_rotations db" sid] assms(1)
  obtain cur where "current db sid = Some cur" "vr_version v \<le> cur + 1" by (fastforce simp: pg_inv_def)
  with upsert_current [OF assms(1,2)] key show ?thesis by (cases "vr_version v = cur + 1") auto
qed

subsection \<open>A rotation\<close>

lemma initiate_result:
  assumes "vault_initiate_rotation now i t p c d b w to db = Inr (db', rid, n)"
  shows "\<exists>s r. hm_get (pg_secrets db) (t, p) = Some s \<and> n = sr_current_version s + 1 \<and> rid = i \<and>
     \<not> list_ex (\<lambda>r. rr_id r = i) (pg_rotations db) \<and>
     hm_get (pg_secrets db') (t, p) = Some (s\<lparr>sr_rotation_status := ''pending'', sr_updated_at := now\<rparr>) \<and>
     pg_versions db' = pg_versions db @ [new_version_row now (sr_id s) n c d [] ''pending'' (Some b)] \<and>
     pg_rotations db' = pg_rotations db @ [r] \<and> rr_id r = i \<and> rr_secret_id r = sr_id s \<and>
     rr_status r = ''pending_activation'' \<and> rr_old_version r = sr_current_version s \<and> rr_new_version r = n \<and>
     rr_expires_at r = now + seconds (case to of Some t \<Rightarrow> t | None \<Rightarrow> 86400)"
proof -
  from assms obtain s db1 where s: "hm_get (pg_secrets db) (t, p) = Some s"
    and i: "\<not> list_ex (\<lambda>r. rr_id r = i) (pg_rotations db)"
    and ins: "insert_version (new_version_row now (sr_id s) (sr_current_version s + 1) c d [] ''pending'' (Some b)) db = Inr db1"
    by (auto simp: vault_initiate_rotation_def Let_def result_iff split: if_splits)
  from ins have "db1 = db\<lparr>pg_versions := pg_versions db @
      [new_version_row now (sr_id s) (sr_current_version s + 1) c d [] ''pending'' (Some b)]\<rparr>"
    by (simp add: insert_version_def split: if_splits)
  with assms s i ins show ?thesis
    by (auto simp: vault_initiate_rotation_def Let_def update_secret_def split: if_splits)
qed

lemma find_last_new: "\<forall>x\<in>set xs. \<not> P x \<Longrightarrow> P y \<Longrightarrow> find P (xs @ [y]) = Some y"
  by (induction xs) auto

lemma confirm_result:
  assumes "vault_initiate_rotation now i t p c d b w to db = Inr (db', rid, n)"
    and "now' < now + seconds (case to of Some t \<Rightarrow> t | None \<Rightarrow> 86400)"
    and "hm_get (pg_secrets db) (t, p) = Some s"
  shows "\<exists>db'' g. vault_confirm_rotation now' rid b' db' = Inr (db'', n - 1, n, g) \<and>
     pg_versions db'' = map (\<lambda>v.
       if vr_secret_id v = sr_id s \<and> vr_version v = n then v\<lparr>vr_status := ''active''\<rparr>
       else if vr_secret_id v = sr_id s \<and> vr_version v = n - 1
            then v\<lparr>vr_status := ''deprecated'', vr_deprecated_at := Some now'\<rparr> else v) (pg_versions db') \<and>
     (\<exists>r \<in> set (pg_rotations db''). rr_id r = rid \<and> rr_status r = ''confirmed'' \<and> rr_grace_ends_at r = Some g \<and>
        rr_secret_id r = sr_id s \<and> rr_old_version r = n - 1) \<and>
     map_option sr_current_version (hm_get (pg_secrets db'') (t, p)) = Some n"
proof -
  from initiate_result [OF assms(1)] assms(3) obtain r where
    i: "n = sr_current_version s + 1" "rid = i" "\<not> list_ex (\<lambda>r. rr_id r = i) (pg_rotations db)"
      "hm_get (pg_secrets db') (t, p) = Some (s\<lparr>sr_rotation_status := ''pending'', sr_updated_at := now\<rparr>)"
    and r: "pg_rotations db' = pg_rotations db @ [r]" "rr_id r = i" "rr_secret_id r = sr_id s"
      "rr_status r = ''pending_activation''" "rr_old_version r = sr_current_version s" "rr_new_version r = n"
      "rr_expires_at r = now + seconds (case to of Some t \<Rightarrow> t | None \<Rightarrow> 86400)"
    by auto
  have f: "find (\<lambda>r. rr_id r = i \<and> rr_status r = ''pending_activation'' \<and> rr_expires_at r > now')
      (pg_rotations db') = Some r"
    unfolding r(1) by (rule find_last_new) (use i(3) r assms(2) in \<open>auto simp: list_ex_iff\<close>)
  show ?thesis
    using i r f
    by (auto simp: vault_confirm_rotation_def Let_def update_versions_def update_secret_def o_def)
qed

lemma find_ex: "list_ex P xs \<longleftrightarrow> find P xs \<noteq> None"
  by (auto simp: find_None_iff list_ex_iff)

text \<open>A pending rotation holds the next version number of its secret, cannot be confirmed after its
  deadline, and only a confirmation ends it.\<close>

lemma pending_version:
  assumes "pg_inv db" "hm_get (pg_secrets db) k = Some s" "r \<in> set (pg_rotations db)"
    "rr_secret_id r = sr_id s" "rr_status r = ''pending_activation''"
  shows "(sr_id s, sr_current_version s + 1) \<in> set (version_keys db)"
  using lifecycle_pending [of "current db" "version_keys db" "pg_rotations db" r] row_of_get [OF assms(1,2)] assms
  by (auto simp: pg_inv_def pending_def current_def)

lemma rotation_id_unique:
  "pg_inv db \<Longrightarrow> r \<in> set (pg_rotations db) \<Longrightarrow> r' \<in> set (pg_rotations db) \<Longrightarrow> rr_id r' = rr_id r \<Longrightarrow> r' = r"
  by (auto simp: pg_inv_def lifecycle_ok_def distinct_map inj_on_def)

lemma confirm_expired:
  assumes "pg_inv db" "r \<in> set (pg_rotations db)" "rr_expires_at r \<le> now"
  shows "vault_confirm_rotation now (rr_id r) b db = Inl (RotationMissing (rr_id r))"
proof -
  have "find (\<lambda>r'. rr_id r' = rr_id r \<and> rr_status r' = ''pending_activation'' \<and> rr_expires_at r' > now)
      (pg_rotations db) = None"
    using rotation_id_unique [OF assms(1,2)] assms(3) by (fastforce simp: find_None_iff)
  then show ?thesis by (simp add: vault_confirm_rotation_def)
qed

lemma pending_stays:
  "pg_step db db' \<Longrightarrow> pg_inv db \<Longrightarrow> r \<in> set (pg_rotations db) \<Longrightarrow> rr_status r = ''pending_activation'' \<Longrightarrow>
   r \<in> set (pg_rotations db') \<or>
   (\<exists>at by' vo vn g. vault_confirm_rotation at (rr_id r) by' db = Inr (db', vo, vn, g))"
proof (induction rule: pg_step.induct)
  case (step_upsert now i t p eng c d cas mv req md lp db db' sid n)
  then show ?case
    by (auto simp: vault_upsert_secret_def Let_def result_iff insert_version_def update_secret_def split: if_splits)
next
  case (step_initiate now i t p c d b w to db db' rid n)
  then show ?case using initiate_result [OF step_initiate.hyps] by auto
next
  case (step_confirm now rid b db db' vo vn g)
  show ?case
  proof (cases "rr_id r = rid")
    case True
    with step_confirm show ?thesis by blast
  next
    case False
    with step_confirm show ?thesis
      by (auto simp: vault_confirm_rotation_def Let_def result_iff image_iff
          update_secret_def update_versions_def intro!: bexI [of _ r])
  qed
next
  case (step_revoke db now k)
  have "\<not> list_ex (\<lambda>tr. rr_id tr = rr_id r) (take k (filter (\<lambda>r. rr_status r = ''confirmed'' \<and>
      (case rr_grace_ends_at r of Some g \<Rightarrow> g < now | None \<Rightarrow> False)) (pg_rotations db)))"
    using rotation_id_unique [OF step_revoke.prems(1,2)] step_revoke.prems(3)
    by (fastforce simp: list_ex_iff dest!: in_set_takeD)
  with step_revoke.prems(2) show ?case
    by (auto simp: vault_revoke_deprecated_versions_def Let_def image_iff update_versions_def intro!: bexI [of _ r])
next
  case (step_rollback now t p v b db db' n)
  then show ?case
    by (auto simp: vault_rollback_secret_def Let_def result_iff insert_version_def update_secret_def
        update_versions_def split: if_splits)
qed (auto simp: vault_soft_delete_versions_def vault_destroy_versions_def update_versions_def Let_def)

section \<open>Properties\<close>

text \<open>C16. Version numbers are never reused: in every reachable database no two stored versions
  of a secret have the same number; and whatever writes, deletions, destructions,
  rotations, revocations and rollbacks happen in between, a later write of a secret gets
  a larger number than an earlier one, and a larger number than every version stored for
  the secret at that time.\<close>

theorem version_numbers_never_reused:
  assumes "pg_step\<^sup>*\<^sup>* pg_empty db"
    and "vault_upsert_secret now i t p eng c d cas mv req md lp db = Inr (db1, sid, n)"
    and "pg_step\<^sup>*\<^sup>* db1 db2"
    and "vault_upsert_secret now' i' t' p' eng' c' d' cas' mv' req' md' lp' db2 = Inr (db3, sid, n')"
  shows "distinct (version_keys db) \<and> distinct (version_keys db3) \<and> n < n' \<and>
         (\<forall>v \<in> set (pg_versions db2). vr_secret_id v = sid \<longrightarrow> vr_version v < n')"
proof -
  have inv: "pg_inv db" using pg_inv_reachable [OF assms(1) pg_inv_empty] .
  have inv1: "pg_inv db1" by (rule pg_inv_upsert [OF inv assms(2)])
  have inv2: "pg_inv db2" by (rule pg_inv_reachable [OF assms(3) inv1])
  have "current db1 sid = Some n" using upsert_current [OF inv assms(2)] by simp
  from current_mono [OF assms(3) inv1 this] obtain c2 where "c2 \<ge> n" "current db2 sid = Some c2" by auto
  with upsert_current [OF inv2 assms(4)] upsert_above [OF inv2 assms(4)] show ?thesis
    using pg_inv_distinct [OF inv] pg_inv_distinct [OF pg_inv_upsert [OF inv2 assms(4)]] by auto
qed

lemmas upsert_eval =
  vault_upsert_secret_def pg_empty_def upsert_secret_row_def insert_version_def row_of_def Let_def
  update_versions_def update_secret_def hm_map_values_def

theorem version_numbers_never_reused_witness:
  "\<exists>db1 db2. vault_upsert_secret 1 ''i'' ''t'' ''p'' ''kv_v2'' ''c'' ''d'' None 10 False [] default_lifecycle pg_empty
       = Inr (db1, ''i'', 1) \<and>
     vault_upsert_secret 2 ''j'' ''t'' ''p'' ''kv_v2'' ''c'' ''d'' None 10 False [] default_lifecycle
       (fst (vault_soft_delete_versions 2 ''i'' [1] db1)) = Inr (db2, ''i'', 2) \<and>
     (\<forall>v \<in> set (pg_versions (fst (vault_soft_delete_versions 2 ''i'' [1] db1))).
        vr_secret_id v = ''i'' \<longrightarrow> vr_version v < 2)"
proof -
  obtain db1 where up1: "vault_upsert_secret 1 ''i'' ''t'' ''p'' ''kv_v2'' ''c'' ''d'' None 10 False [] default_lifecycle pg_empty
       = Inr (db1, ''i'', 1)"
    by (simp add: upsert_eval)
  then obtain db2 where up2: "vault_upsert_secret 2 ''j'' ''t'' ''p'' ''kv_v2'' ''c'' ''d'' None 10 False [] default_lifecycle
       (fst (vault_soft_delete_versions 2 ''i'' [1] db1)) = Inr (db2, ''i'', 2)"
    by (auto simp: upsert_eval vault_soft_delete_versions_def)
  have "pg_step\<^sup>*\<^sup>* db1 (fst (vault_soft_delete_versions 2 ''i'' [1] db1))"
    by (rule r_into_rtranclp) (rule step_soft_delete)
  with version_numbers_never_reused [OF rtranclp.rtrancl_refl up1 _ up2] up1 up2 show ?thesis by blast
qed

text \<open>C17. A rotation runs to its end: in any reachable database, an initiated rotation that is
  confirmed before its deadline makes the new version current and active with the
  ciphertext it was initiated with and the previous one deprecated; a revocation after
  the grace period then leaves no ciphertext of the previous version.\<close>

theorem rotation_completes:
  assumes "pg_step\<^sup>*\<^sup>* pg_empty db" and "hm_get (pg_secrets db) (t, p) = Some s"
    and "vault_initiate_rotation now i t p c d b w to db = Inr (db1, rid, n)"
    and "now' < now + seconds (case to of Some t \<Rightarrow> t | None \<Rightarrow> 86400)"
  shows "\<exists>db2 g. vault_confirm_rotation now' rid b' db1 = Inr (db2, n - 1, n, g) \<and>
     map_option sr_current_version (hm_get (pg_secrets db2) (t, p)) = Some n \<and>
     (\<forall>v \<in> set (pg_versions db2). vr_secret_id v = sr_id s \<longrightarrow>
        (vr_version v = n \<longrightarrow> vr_status v = ''active'' \<and> vr_ciphertext v = c) \<and>
        (vr_version v = n - 1 \<longrightarrow> vr_status v = ''deprecated'')) \<and>
     (\<forall>v \<in> set (pg_versions (fst (vault_revoke_deprecated_versions (g + 1) (length (pg_rotations db2)) db2))).
        vr_secret_id v = sr_id s \<longrightarrow>
        (vr_version v = n - 1 \<longrightarrow> vr_destroyed v \<and> vr_ciphertext v = [] \<and> vr_dek_id v = []))"
proof -
  from initiate_result [OF assms(3)] assms(2)
  have vs: "pg_versions db1 = pg_versions db @ [new_version_row now (sr_id s) n c d [] ''pending'' (Some b)]"
    by auto
  have "pg_inv db1"
    by (rule pg_inv_initiate [OF pg_inv_reachable [OF assms(1) pg_inv_empty] assms(3)])
  then have dist: "distinct (version_keys db1)" by (simp add: pg_inv_def lifecycle_ok_def)
  from confirm_result [OF assms(3,4,2), of b'] obtain db2 g r where
    c: "vault_confirm_rotation now' rid b' db1 = Inr (db2, n - 1, n, g)"
      "map_option sr_current_version (hm_get (pg_secrets db2) (t, p)) = Some n"
    and vs2: "pg_versions db2 = map (\<lambda>v.
       if vr_secret_id v = sr_id s \<and> vr_version v = n then v\<lparr>vr_status := ''active''\<rparr>
       else if vr_secret_id v = sr_id s \<and> vr_version v = n - 1
            then v\<lparr>vr_status := ''deprecated'', vr_deprecated_at := Some now'\<rparr> else v) (pg_versions db1)"
    and r: "r \<in> set (pg_rotations db2)" "rr_status r = ''confirmed''" "rr_grace_ends_at r = Some g"
        "rr_secret_id r = sr_id s" "rr_old_version r = n - 1"
    by blast
  have new: "vr_ciphertext v = c" if "v \<in> set (pg_versions db1)" "vr_secret_id v = sr_id s" "vr_version v = n" for v
  proof (cases "v \<in> set (pg_versions db)")
    case True
    with that have "(sr_id s, n) \<in> set (version_keys db)"
      by (auto simp: version_keys_def intro!: image_eqI [of _ _ v])
    with dist show ?thesis by (simp add: vs version_keys_def)
  qed (use that in \<open>simp add: vs\<close>)
  have "\<forall>v \<in> set (pg_versions db2). vr_secret_id v = sr_id s \<longrightarrow>
      (vr_version v = n \<longrightarrow> vr_status v = ''active'' \<and> vr_ciphertext v = c) \<and>
      (vr_version v = n - 1 \<longrightarrow> vr_status v = ''deprecated'')"
  proof
    fix v assume "v \<in> set (pg_versions db2)"
    then obtain w where w: "w \<in> set (pg_versions db1)" and v: "v =
        (if vr_secret_id w = sr_id s \<and> vr_version w = n then w\<lparr>vr_status := ''active''\<rparr>
         else if vr_secret_id w = sr_id s \<and> vr_version w = n - 1
              then w\<lparr>vr_status := ''deprecated'', vr_deprecated_at := Some now'\<rparr> else w)"
      unfolding vs2 set_map by (elim imageE)
    show "vr_secret_id v = sr_id s \<longrightarrow>
      (vr_version v = n \<longrightarrow> vr_status v = ''active'' \<and> vr_ciphertext v = c) \<and>
      (vr_version v = n - 1 \<longrightarrow> vr_status v = ''deprecated'')"
      using new [OF w] by (cases "vr_secret_id w = sr_id s") (simp_all add: v)
  qed
  moreover have "list_ex (\<lambda>tr. vr_secret_id v = rr_secret_id tr \<and> vr_version v = rr_old_version tr)
      (filter (\<lambda>r. rr_status r = ''confirmed'' \<and> (case rr_grace_ends_at r of Some g' \<Rightarrow> g' < g + 1 | None \<Rightarrow> False))
         (pg_rotations db2))" if "vr_secret_id v = sr_id s" "vr_version v = n - 1" for v
    using r that by (auto simp: list_ex_iff)
  then have "\<forall>v \<in> set (pg_versions (fst (vault_revoke_deprecated_versions (g + 1) (length (pg_rotations db2)) db2))).
      vr_secret_id v = sr_id s \<longrightarrow>
      (vr_version v = n - 1 \<longrightarrow> vr_destroyed v \<and> vr_ciphertext v = [] \<and> vr_dek_id v = [])"
    by (auto simp: vault_revoke_deprecated_versions_def Let_def update_versions_def destroy_row_def)
  ultimately show ?thesis using c by blast
qed

lemma demo_initiated:
  "\<exists>db s db1. pg_step\<^sup>*\<^sup>* pg_empty db \<and> hm_get (pg_secrets db) (''t'', ''p'') = Some s \<and>
     vault_initiate_rotation 5 ''r'' ''t'' ''p'' ''c2'' ''d2'' ''alice'' None None db = Inr (db1, ''r'', 2)"
proof -
  obtain db where up: "vault_upsert_secret 1 ''i'' ''t'' ''p'' ''kv_v2'' ''c'' ''d'' None 10 False [] default_lifecycle pg_empty
       = Inr (db, ''i'', 1)" and s: "\<exists>s. hm_get (pg_secrets db) (''t'', ''p'') = Some s"
    by (simp add: upsert_eval)
  then have "pg_step\<^sup>*\<^sup>* pg_empty db" by (blast intro: step_upsert)
  moreover from up have "\<exists>db1. vault_initiate_rotation 5 ''r'' ''t'' ''p'' ''c2'' ''d2'' ''alice'' None None db = Inr (db1, ''r'', 2)"
    by (auto simp: upsert_eval vault_initiate_rotation_def)
  ultimately show ?thesis using s by blast
qed

theorem rotation_completes_witness:
  "\<exists>db1 db2 g. vault_confirm_rotation 6 ''r'' ''bob'' db1 = Inr (db2, 1, 2, g) \<and>
     map_option sr_current_version (hm_get (pg_secrets db2) (''t'', ''p'')) = Some 2"
proof -
  obtain db s db1 where "pg_step\<^sup>*\<^sup>* pg_empty db" "hm_get (pg_secrets db) (''t'', ''p'') = Some s"
     "vault_initiate_rotation 5 ''r'' ''t'' ''p'' ''c2'' ''d2'' ''alice'' None None db = Inr (db1, ''r'', 2)"
    using demo_initiated by blast
  from rotation_completes [OF this, of 6 "''bob''"] show ?thesis by (auto simp: seconds_def)
qed

text \<open>C18. An abandoned rotation blocks its secret: in every reachable database with a pending
  rotation of a secret, every write and every rollback that passes its own checks
  (check-and-set, the version to return to) fails on the uniqueness constraint of the
  version numbers, and a new rotation is refused, at any time and with any arguments;
  once the deadline has passed the rotation can no longer be confirmed; and every
  step of the database other than a confirmation of it leaves it pending.\<close>

theorem pending_rotation_blocks:
  assumes "pg_step\<^sup>*\<^sup>* pg_empty db" "hm_get (pg_secrets db) (t, p) = Some s"
    and "r \<in> set (pg_rotations db)" "rr_secret_id r = sr_id s" "rr_status r = ''pending_activation''"
  shows "vault_upsert_secret now i t p eng c d cas mv req md lp db =
           Inl (if cas \<noteq> None \<and> the cas \<noteq> sr_current_version s
                then CasMismatch (the cas) (sr_current_version s)
                else UniqueViolation ''secret_versions_secret_id_version_key'') \<and>
         vault_rollback_secret now t p v b db =
           Inl (if list_ex (\<lambda>w. vr_secret_id w = sr_id s \<and> vr_version w = v \<and> \<not> vr_destroyed w) (pg_versions db)
                then UniqueViolation ''secret_versions_secret_id_version_key''
                else VersionMissing v p) \<and>
         vault_initiate_rotation now i t p c d b w to db = Inl (RotationPending p) \<and>
         (rr_expires_at r \<le> now \<longrightarrow>
            vault_confirm_rotation now (rr_id r) b db = Inl (RotationMissing (rr_id r))) \<and>
         (pg_step db db' \<longrightarrow> r \<in> set (pg_rotations db') \<or>
            (\<exists>at by' vo vn g. vault_confirm_rotation at (rr_id r) by' db = Inr (db', vo, vn, g)))"
proof -
  have inv: "pg_inv db" using pg_inv_reachable [OF assms(1) pg_inv_empty] .
  have key: "(sr_id s, sr_current_version s + 1) \<in> set (version_keys db)"
    by (rule pending_version [OF inv assms(2-5)])
  then have ins: "insert_version (new_version_row now (sr_id s) (sr_current_version s + 1) x y md' st by') db' =
      Inl (UniqueViolation ''secret_versions_secret_id_version_key'')"
    if "pg_versions db' = pg_versions db" for x y md' st by' db'
    by (auto simp: insert_version_def that version_keys_def list_ex_iff)
  have "vault_upsert_secret now i t p eng c d cas mv req md lp db =
      Inl (if cas \<noteq> None \<and> the cas \<noteq> sr_current_version s
           then CasMismatch (the cas) (sr_current_version s)
           else UniqueViolation ''secret_versions_secret_id_version_key'')"
    by (simp add: vault_upsert_secret_def Let_def assms(2) upsert_secret_row_def ins)
  moreover have "vault_rollback_secret now t p v b db =
      Inl (if list_ex (\<lambda>w. vr_secret_id w = sr_id s \<and> vr_version w = v \<and> \<not> vr_destroyed w) (pg_versions db)
           then UniqueViolation ''secret_versions_secret_id_version_key'' else VersionMissing v p)"
    by (cases "find (\<lambda>w. vr_secret_id w = sr_id s \<and> vr_version w = v \<and> \<not> vr_destroyed w) (pg_versions db)")
      (simp_all add: vault_rollback_secret_def assms(2) ins find_ex)
  moreover have "vault_initiate_rotation now i t p c d b w to db = Inl (RotationPending p)"
    using assms(3-5) by (auto simp: vault_initiate_rotation_def assms(2) list_ex_iff)
  moreover have "vault_confirm_rotation now (rr_id r) b db = Inl (RotationMissing (rr_id r))"
    if "rr_expires_at r \<le> now"
    by (rule confirm_expired [OF inv assms(3) that])
  ultimately show ?thesis
    using pending_stays [OF _ inv assms(3,5), of db'] by blast
qed

theorem pending_rotation_blocks_witness:
  "\<exists>db1. vault_upsert_secret (5 + seconds 86400) ''k'' ''t'' ''p'' ''kv_v2'' ''c3'' ''d3'' None 10 False []
       default_lifecycle db1 = Inl (UniqueViolation ''secret_versions_secret_id_version_key'') \<and>
     vault_confirm_rotation (5 + seconds 86400) ''r'' ''bob'' db1 = Inl (RotationMissing ''r'')"
proof -
  obtain db db1 where reach: "pg_step\<^sup>*\<^sup>* pg_empty db"
    and i: "vault_initiate_rotation 5 ''r'' ''t'' ''p'' ''c2'' ''d2'' ''alice'' None None db = Inr (db1, ''r'', 2)"
    using demo_initiated by blast
  from i have "pg_step db db1" by (rule step_initiate)
  with reach have reach1: "pg_step\<^sup>*\<^sup>* pg_empty db1" by simp
  from initiate_result [OF i] obtain s r where s: "hm_get (pg_secrets db1) (''t'', ''p'') = Some s"
    and r: "r \<in> set (pg_rotations db1)" "rr_secret_id r = sr_id s" "rr_status r = ''pending_activation''"
      "rr_id r = ''r''" "rr_expires_at r = 5 + seconds 86400" by fastforce
  from pending_rotation_blocks [OF reach1 s r(1-3), of "5 + seconds 86400" "''k''" "''kv_v2''" "''c3''" "''d3''"
      None 10 False "[]" default_lifecycle 1 "''bob''"] r(4,5)
  show ?thesis by auto
qed

end
