(* ===== verification/PG_Store.thy ===== *)
theory PG_Store
  imports KV_Store Secret_Lifecycle
begin

text \<open>
  The PostgreSQL secret backend: the queries of \<^verbatim>\<open>crates/wslvault-storage/src/secret_store.rs\<close>
  and \<^verbatim>\<open>PgSecretBackend\<close> of \<^verbatim>\<open>services/secret-engine/src/pg_store.rs\<close>, on top of the stored
  functions of \<^verbatim>\<open>Secret_Lifecycle\<close>.

  A method runs its queries in one transaction: on an error nothing is written. The
  parser of UUIDs is a parameter and gives the canonical text of an id. The quota row
  read before a write is an argument; so is the id of the row the best-effort outbox
  insert adds, \<^term>\<open>None\<close> where that insert fails. An
  error of the database reaches the caller as the constructor that the code's test of
  the message text selects; the message itself is \<open>sql_message\<close>, without the prefix the
  driver puts in front.
\<close>

section \<open>Data\<close>

record pg_state =
  ps_db :: pg_db
  ps_outbox :: "replication_event list"
  ps_region_id :: string

record quota_check_row =
  qc_max_secrets :: int
  qc_current_secret_count :: int
  qc_max_secret_size_bytes :: int

datatype quota_error = SecretCountExceeded int int | SecretSizeExceeded nat int

fun quota_message :: "quota_error \<Rightarrow> string" where
  "quota_message (SecretCountExceeded count mx) =
     ''secret count limit reached ('' @ show_int count @ ''/'' @ show_int mx @ '')''"
| "quota_message (SecretSizeExceeded bytes_len mx) =
     ''secret value exceeds maximum size ('' @ show_nat bytes_len @ ''/'' @ show_int mx @ '' bytes)''"

definition check_write_quota :: "quota_check_row option \<Rightarrow> nat \<Rightarrow> quota_error + unit" where
  "check_write_quota row plaintext_size =
     (case row of
        None \<Rightarrow> Inr ()
      | Some q \<Rightarrow>
          if qc_current_secret_count q \<ge> qc_max_secrets q
          then Inl (SecretCountExceeded (qc_current_secret_count q) (qc_max_secrets q))
          else if int plaintext_size > qc_max_secret_size_bytes q mod 2 ^ 64
          then Inl (SecretSizeExceeded plaintext_size (qc_max_secret_size_bytes q))
          else Inr ())"

fun sql_message :: "sql_error \<Rightarrow> string" where
  "sql_message (CasMismatch expected actual) =
     ''CAS conflict: expected version '' @ show_int expected @ '', got '' @ show_int actual"
| "sql_message (SecretMissing path) = ''secret not found: '' @ path"
| "sql_message (RotationPending path) = ''rotation already pending for secret: '' @ path"
| "sql_message (RotationMissing rid) = ''rotation '' @ rid @ '' not found or expired''"
| "sql_message (VersionMissing v path) =
     ''version '' @ show_int v @ '' not found or destroyed for secret '' @ path"
| "sql_message (UniqueViolation c) = ''duplicate key value violates unique constraint '' @ c"

section \<open>Environments\<close>

datatype secret_environment = Env_Int | Env_Test | Env_Acc | Env_Prod

fun environment_as_str :: "secret_environment \<Rightarrow> string" where
  "environment_as_str Env_Int = ''INT''"
| "environment_as_str Env_Test = ''TEST''"
| "environment_as_str Env_Acc = ''ACC''"
| "environment_as_str Env_Prod = ''PROD''"

definition environment_from_str :: "string \<Rightarrow> secret_environment option" where
  "environment_from_str s =
     (let u = map ascii_upper (trim s) in
      if u = ''INT'' then Some Env_Int
      else if u = ''TEST'' then Some Env_Test
      else if u = ''ACC'' then Some Env_Acc
      else if u = ''PROD'' then Some Env_Prod
      else None)"

section \<open>Engines, lifecycle types and metadata\<close>

datatype secret_engine =
    KvV2 | Transit | DynamicDatabase | Ssh | Pki | CloudAws | CloudGcp | CloudAzure

definition parse_engine :: "string \<Rightarrow> secret_engine" where
  "parse_engine s =
     (if s = ''transit'' then Transit
      else if s = ''dynamic_database'' then DynamicDatabase
      else if s = ''ssh'' then Ssh
      else if s = ''pki'' then Pki
      else if s = ''cloud_aws'' then CloudAws
      else if s = ''cloud_gcp'' then CloudGcp
      else if s = ''cloud_azure'' then CloudAzure
      else KvV2)"

fun engine_str :: "secret_engine \<Rightarrow> string" where
  "engine_str KvV2 = ''kv_v2''"
| "engine_str Transit = ''transit''"
| "engine_str DynamicDatabase = ''dynamic_database''"
| "engine_str Ssh = ''ssh''"
| "engine_str Pki = ''pki''"
| "engine_str CloudAws = ''cloud_aws''"
| "engine_str CloudGcp = ''cloud_gcp''"
| "engine_str CloudAzure = ''cloud_azure''"

datatype secret_type = Ephemeral | StaleTtl | RotationRequired

fun secret_type_as_str :: "secret_type \<Rightarrow> string" where
  "secret_type_as_str Ephemeral = ''EPHEMERAL''"
| "secret_type_as_str StaleTtl = ''STALE_TTL''"
| "secret_type_as_str RotationRequired = ''ROTATION_REQUIRED''"

definition secret_type_from_str :: "string \<Rightarrow> secret_type option" where
  "secret_type_from_str s =
     (let u = map ascii_upper s in
      if u = ''EPHEMERAL'' then Some Ephemeral
      else if u = ''STALE_TTL'' then Some StaleTtl
      else if u = ''ROTATION_REQUIRED'' then Some RotationRequired
      else None)"

record rotation_policy =
  rp_ttl_seconds :: "int option"
  rp_soft_warn_seconds :: "int option"
  rp_rotation_interval_seconds :: "int option"
  rp_grace_period_seconds :: "int option"
  rp_webhook_url :: "string option"

record secret_metadata =
  sm_id :: string
  sm_tenant_id :: string
  sm_path :: string
  sm_engine :: secret_engine
  sm_current_version :: u32
  sm_max_versions :: u32
  sm_cas_required :: bool
  sm_created_at :: datetime
  sm_updated_at :: datetime
  sm_custom_metadata :: "(string, string) hash_map"
  sm_environment :: secret_environment
  sm_tags :: "string list"
  sm_secret_type :: secret_type
  sm_rotation_policy :: rotation_policy
  sm_expires_at :: "datetime option"
  sm_last_rotated_at :: "datetime option"
  sm_next_rotation_at :: "datetime option"
  sm_rotation_status :: string

record secret_version =
  sv_version :: u32
  sv_created_at :: datetime
  sv_deleted_at :: "datetime option"
  sv_destroyed :: bool
  sv_custom_metadata :: "(string, string) hash_map"
  sv_ciphertext :: string
  sv_dek_id :: string
  sv_status :: version_status
  sv_created_by :: "string option"
  sv_deprecated_at :: "datetime option"
  sv_revoked_at :: "datetime option"

record rotation_record =
  rc_rotation_id :: string
  rc_secret_id :: string
  rc_path :: string
  rc_old_version :: u32
  rc_new_version :: u32
  rc_status :: string
  rc_initiated_by :: string
  rc_confirmed_by :: "string option"
  rc_created_at :: datetime
  rc_confirmed_at :: "datetime option"
  rc_grace_ends_at :: "datetime option"
  rc_expires_at :: datetime

section \<open>Queries\<close>

definition environment_or_default :: "string \<Rightarrow> secret_environment" where
  "environment_or_default s = (case environment_from_str s of Some e \<Rightarrow> e | None \<Rightarrow> Env_Int)"

definition status_or_default :: "string \<Rightarrow> version_status" where
  "status_or_default s = (case version_status_from_str s of Inr st \<Rightarrow> st | Inl _ \<Rightarrow> VS_Active)"

definition secret_metadata_of :: "secret_row \<Rightarrow> secret_metadata" where
  "secret_metadata_of row =
     \<lparr>sm_id = sr_id row, sm_tenant_id = sr_tenant_id row, sm_path = sr_path row,
      sm_engine = parse_engine (sr_engine row),
      sm_current_version = of_int (sr_current_version row), sm_max_versions = of_int (sr_max_versions row),
      sm_cas_required = sr_cas_required row, sm_created_at = sr_created_at row,
      sm_updated_at = sr_updated_at row, sm_custom_metadata = sr_custom_metadata row,
      sm_environment = environment_or_default (sr_environment row), sm_tags = sr_tags row,
      sm_secret_type = (case secret_type_from_str (sr_secret_type row) of Some t \<Rightarrow> t | None \<Rightarrow> StaleTtl),
      sm_rotation_policy =
        \<lparr>rp_ttl_seconds = sr_ttl_seconds row, rp_soft_warn_seconds = sr_soft_warn_seconds row,
         rp_rotation_interval_seconds = sr_rotation_interval_seconds row,
         rp_grace_period_seconds = sr_grace_period_seconds row, rp_webhook_url = sr_webhook_url row\<rparr>,
      sm_expires_at = sr_expires_at row, sm_last_rotated_at = sr_last_rotated_at row,
      sm_next_rotation_at = sr_next_rotation_at row, sm_rotation_status = sr_rotation_status row\<rparr>"

definition get_secret_metadata :: "pg_db \<Rightarrow> string \<Rightarrow> string \<Rightarrow> vault_error + secret_metadata" where
  "get_secret_metadata db tenant_id path =
     and_then (ok_or (SecretNotFound path None) (hm_get (pg_secrets db) (tenant_id, path))) (\<lambda>row.
       Inr (secret_metadata_of row))"

definition max_or_zero :: "int list \<Rightarrow> int" where
  "max_or_zero vs = (case vs of [] \<Rightarrow> 0 | v # vs' \<Rightarrow> fold max vs' v)"

definition latest_live_version :: "pg_db \<Rightarrow> string \<Rightarrow> u32" where
  "latest_live_version db sid =
     of_int (max_or_zero (map vr_version (filter (\<lambda>v. vr_secret_id v = sid \<and> vr_deleted_at v = None \<and>
       \<not> vr_destroyed v) (pg_versions db))))"

definition secret_version_of :: "version_row \<Rightarrow> secret_version" where
  "secret_version_of row =
     \<lparr>sv_version = of_int (vr_version row), sv_created_at = vr_created_at row,
      sv_deleted_at = vr_deleted_at row, sv_destroyed = vr_destroyed row,
      sv_custom_metadata = vr_custom_metadata row, sv_ciphertext = vr_ciphertext row,
      sv_dek_id = vr_dek_id row, sv_status = status_or_default (vr_status row),
      sv_created_by = vr_created_by row, sv_deprecated_at = vr_deprecated_at row,
      sv_revoked_at = vr_revoked_at row\<rparr>"

definition get_secret_version :: "pg_db \<Rightarrow> string \<Rightarrow> u32 \<Rightarrow> vault_error + secret_version" where
  "get_secret_version db sid version =
     and_then (ok_or (SecretNotFound [] (Some version))
         (find (\<lambda>v. vr_secret_id v = sid \<and> vr_version v = sint version) (pg_versions db))) (\<lambda>row.
       if vr_destroyed row then Inl (VersionDestroyed version) else Inr (secret_version_of row))"

text \<open>\<open>LIKE\<close> with its two wildcards and the default escape character.\<close>

fun sql_like :: "string \<Rightarrow> string \<Rightarrow> bool" where
  "sql_like [] s \<longleftrightarrow> s = []"
| "sql_like (c # p) s \<longleftrightarrow>
     (if c = CHR ''%'' then sql_like p s \<or> (case s of [] \<Rightarrow> False | _ # s' \<Rightarrow> sql_like (c # p) s')
      else if c = CHR 0x5C then
        (case p of [] \<Rightarrow> False
         | e # p' \<Rightarrow> (case s of [] \<Rightarrow> False | d # s' \<Rightarrow> d = e \<and> sql_like p' s'))
      else (case s of [] \<Rightarrow> False | d # s' \<Rightarrow> (c = CHR ''_'' \<or> d = c) \<and> sql_like p s'))"

text \<open>The rows are in table order; the collation of \<open>ORDER BY path\<close> is not modelled.\<close>

definition list_secrets ::
  "pg_db \<Rightarrow> string \<Rightarrow> string \<Rightarrow> string option \<Rightarrow> string option \<Rightarrow> (string \<times> secret_environment \<times> string list) list" where
  "list_secrets db tenant_id prefix environment tag =
     map (\<lambda>((t, p), r). (p, environment_or_default (sr_environment r), sr_tags r))
       (filter (\<lambda>((t, p), r). t = tenant_id \<and> sql_like (prefix @ ''%'') p \<and>
          (case environment of None \<Rightarrow> True | Some e \<Rightarrow> sr_environment r = e) \<and>
          (case tag of None \<Rightarrow> True | Some g \<Rightarrow> g \<in> set (sr_tags r))) (pg_secrets db))"

definition list_secret_paths :: "pg_db \<Rightarrow> string \<Rightarrow> string \<Rightarrow> string list" where
  "list_secret_paths db tenant_id prefix = map fst (list_secrets db tenant_id prefix None None)"

definition upsert_secret_version ::
  "datetime \<Rightarrow> string \<Rightarrow> string \<Rightarrow> string \<Rightarrow> secret_engine \<Rightarrow> string \<Rightarrow> string \<Rightarrow> u32 option \<Rightarrow> u32 \<Rightarrow> bool \<Rightarrow>
   (string, string) hash_map \<Rightarrow> secret_environment \<Rightarrow> string list \<Rightarrow> pg_db \<Rightarrow> vault_error + pg_db \<times> string \<times> u32" where
  "upsert_secret_version now fresh_id tenant_id path engine ciphertext dek_id cas_version max_versions cas_required
       custom_metadata environment tags db =
     (case vault_upsert_secret now fresh_id tenant_id path (engine_str engine) ciphertext dek_id
             (map_option sint cas_version) (sint max_versions) cas_required custom_metadata default_lifecycle db of
        Inl (CasMismatch _ _) \<Rightarrow> Inl (CasConflict (case cas_version of Some v \<Rightarrow> v | None \<Rightarrow> 0) 0)
      | Inl e \<Rightarrow> Inl (Database (sql_message e))
      | Inr (db1, sid, n) \<Rightarrow>
          Inr (db1\<lparr>pg_secrets := (case hm_get (pg_secrets db1) (tenant_id, path) of
                  None \<Rightarrow> pg_secrets db1
                | Some r \<Rightarrow> hm_insert (tenant_id, path) (r\<lparr>sr_environment := environment_as_str environment,
                     sr_tags := tags, sr_custom_metadata := custom_metadata, sr_updated_at := now\<rparr>) (pg_secrets db1))\<rparr>,
               sid, of_int n))"

definition soft_delete_versions :: "datetime \<Rightarrow> string \<Rightarrow> u32 list \<Rightarrow> pg_db \<Rightarrow> pg_db \<times> u32" where
  "soft_delete_versions now sid versions db =
     (let (db', n) = vault_soft_delete_versions now sid (map sint versions) db in (db', of_int n))"

definition destroy_versions :: "datetime \<Rightarrow> string \<Rightarrow> u32 list \<Rightarrow> pg_db \<Rightarrow> pg_db \<times> u32" where
  "destroy_versions now sid versions db =
     (let (db', n) = vault_destroy_versions now sid (map sint versions) db in (db', of_int n))"

definition store_initiate_rotation ::
  "datetime \<Rightarrow> string \<Rightarrow> string \<Rightarrow> string \<Rightarrow> string \<Rightarrow> string \<Rightarrow> string \<Rightarrow> string option \<Rightarrow> int option \<Rightarrow> pg_db \<Rightarrow>
   vault_error + pg_db \<times> string \<times> u32" where
  "store_initiate_rotation now fresh_id tenant_id path ciphertext dek_id initiated_by webhook_url timeout_secs db =
     (case vault_initiate_rotation now fresh_id tenant_id path ciphertext dek_id initiated_by webhook_url
             timeout_secs db of
        Inl (RotationPending _) \<Rightarrow> Inl (InvalidOperation (''rotation already pending for secret: '' @ path))
      | Inl (SecretMissing _) \<Rightarrow> Inl (SecretNotFound path None)
      | Inl e \<Rightarrow> Inl (Database (sql_message e))
      | Inr (db', rid, n) \<Rightarrow> Inr (db', rid, of_int n))"

definition store_confirm_rotation ::
  "(string \<Rightarrow> string option) \<Rightarrow> datetime \<Rightarrow> string \<Rightarrow> string \<Rightarrow> string \<Rightarrow> pg_db \<Rightarrow>
   vault_error + pg_db \<times> u32 \<times> u32 \<times> datetime" where
  "store_confirm_rotation parse_uuid now tenant_id rotation_id confirmed_by db =
     (case parse_uuid rotation_id of
        None \<Rightarrow> Inl (InvalidOperation (''invalid rotation_id: '' @ rotation_id))
      | Some rid \<Rightarrow>
          let missing = InvalidOperation (''rotation '' @ rotation_id @ '' not found or expired'') in
          (case map_option rr_tenant_id (find (\<lambda>r. rr_id r = rid) (pg_rotations db)) of
             None \<Rightarrow> Inl missing
           | Some owner_tenant \<Rightarrow>
               if owner_tenant \<noteq> tenant_id then Inl missing
               else
                 (case vault_confirm_rotation now rid confirmed_by db of
                    Inl (RotationMissing _) \<Rightarrow> Inl missing
                  | Inl e \<Rightarrow> Inl (Database (sql_message e))
                  | Inr (db', old_version, new_version, grace_ends_at) \<Rightarrow>
                      Inr (db', of_int old_version, of_int new_version, grace_ends_at))))"

definition rollback_secret ::
  "datetime \<Rightarrow> string \<Rightarrow> string \<Rightarrow> u32 \<Rightarrow> string \<Rightarrow> pg_db \<Rightarrow> vault_error + pg_db \<times> u32" where
  "rollback_secret now tenant_id path target_version rolled_back_by db =
     (case vault_rollback_secret now tenant_id path (sint target_version) rolled_back_by db of
        Inl (SecretMissing _) \<Rightarrow> Inl (SecretNotFound path None)
      | Inl (VersionMissing _ _) \<Rightarrow> Inl (SecretNotFound path (Some target_version))
      | Inl e \<Rightarrow> Inl (Database (sql_message e))
      | Inr (db', n) \<Rightarrow> Inr (db', of_int n))"

definition list_version_history :: "pg_db \<Rightarrow> string \<Rightarrow> string \<Rightarrow> version_meta list" where
  "list_version_history db tenant_id path =
     map (\<lambda>v. \<lparr>vm_version = of_int (vr_version v), vm_status = status_or_default (vr_status v),
              vm_created_by = vr_created_by v, vm_created_at = vr_created_at v,
              vm_deleted_at = vr_deleted_at v, vm_deprecated_at = vr_deprecated_at v,
              vm_revoked_at = vr_revoked_at v, vm_destroyed = vr_destroyed v\<rparr>)
       (vault_list_version_history tenant_id path db)"

text \<open>The newest pending rotation; ties of \<open>ORDER BY created_at DESC\<close> go to the later row.\<close>

definition store_get_active_rotation :: "pg_db \<Rightarrow> string \<Rightarrow> string \<Rightarrow> rotation_record option" where
  "store_get_active_rotation db tenant_id path =
     (case hm_get (pg_secrets db) (tenant_id, path) of
        None \<Rightarrow> None
      | Some s \<Rightarrow>
          (case rev (sort_key rr_created_at (filter (\<lambda>r. rr_secret_id r = sr_id s \<and>
                   rr_status r = ''pending_activation'') (pg_rotations db))) of
             [] \<Rightarrow> None
           | r # _ \<Rightarrow>
               Some \<lparr>rc_rotation_id = rr_id r, rc_secret_id = rr_secret_id r, rc_path = rr_path r,
                     rc_old_version = of_int (rr_old_version r), rc_new_version = of_int (rr_new_version r),
                     rc_status = rr_status r, rc_initiated_by = rr_initiated_by r,
                     rc_confirmed_by = rr_confirmed_by r, rc_created_at = rr_created_at r,
                     rc_confirmed_at = rr_confirmed_at r, rc_grace_ends_at = rr_grace_ends_at r,
                     rc_expires_at = rr_expires_at r\<rparr>))"

section \<open>The backend\<close>

definition resolve_soft_delete_targets :: "u32 list \<Rightarrow> u32 \<Rightarrow> u32 list" where
  "resolve_soft_delete_targets requested current_version =
     (if requested \<noteq> [] then requested
      else if current_version = 0 then []
      else [current_version])"

definition resolve_destroy_targets :: "u32 list \<Rightarrow> u32 list \<Rightarrow> u32 list" where
  "resolve_destroy_targets requested live_versions =
     (if requested \<noteq> [] then requested else live_versions)"

definition parse_tenant_id :: "(string \<Rightarrow> string option) \<Rightarrow> string \<Rightarrow> vault_error + string" where
  "parse_tenant_id parse_uuid tenant_id =
     ok_or (ValidationError ''tenant_id'' (CHR 0x27 # tenant_id @ [CHR 0x27] @ '' is not a valid UUID''))
       (parse_uuid tenant_id)"

definition pg_get ::
  "(string \<Rightarrow> string option) \<Rightarrow> pg_state \<Rightarrow> string \<Rightarrow> string \<Rightarrow> u32 option \<Rightarrow> vault_error + version_entry" where
  "pg_get parse_uuid st tenant_id path version =
     and_then (parse_tenant_id parse_uuid tenant_id) (\<lambda>tid.
     and_then (get_secret_metadata (ps_db st) tid path) (\<lambda>meta.
       let target_version = (case version of Some v \<Rightarrow> v | None \<Rightarrow> latest_live_version (ps_db st) (sm_id meta)) in
       if target_version = 0 then Inl (SecretNotFound path None)
       else and_then (get_secret_version (ps_db st) (sm_id meta) target_version) (\<lambda>sv.
         Inr \<lparr>ve_version = sv_version sv, ve_ciphertext = sv_ciphertext sv, ve_dek_id = sv_dek_id sv,
              ve_created_at = sv_created_at sv, ve_deleted_at = sv_deleted_at sv, ve_destroyed = sv_destroyed sv,
              ve_custom_metadata = sv_custom_metadata sv\<rparr>)))"

definition emit_replication_event ::
  "datetime \<Rightarrow> string \<Rightarrow> string \<Rightarrow> string \<Rightarrow> string \<Rightarrow> string \<Rightarrow> pg_state \<Rightarrow> pg_state" where
  "emit_replication_event now event_id tenant_id path ciphertext dek_id st =
     st\<lparr>ps_outbox := ps_outbox st @
       [outbox_row event_id now ''secret_upsert'' (ps_region_id st)
          (JObj [(''tenant_id'', JStr tenant_id), (''path'', JStr path),
                 (''ciphertext'', JStr ciphertext), (''dek_id'', JStr dek_id)])]\<rparr>"

definition pg_put ::
  "(string \<Rightarrow> string option) \<Rightarrow> quota_check_row option \<Rightarrow> string option \<Rightarrow> datetime \<Rightarrow> string \<Rightarrow> string \<Rightarrow> string \<Rightarrow> string \<Rightarrow>
   string \<Rightarrow> u32 option \<Rightarrow> (string, string) hash_map \<Rightarrow> u32 option \<Rightarrow> pg_state \<Rightarrow>
   pg_state \<times> (vault_error + string \<times> u32)" where
  "pg_put parse_uuid quota event_id now fresh_id tenant_id path ciphertext dek_id cas custom_metadata max_versions st =
     (case parse_tenant_id parse_uuid tenant_id of
        Inl e \<Rightarrow> (st, Inl e)
      | Inr tid \<Rightarrow>
          (case check_write_quota quota (length ciphertext) of
             Inl e \<Rightarrow> (st, Inl (QuotaExceeded (quota_message e)))
           | Inr _ \<Rightarrow>
               let environment = (case hm_get custom_metadata ''environment'' of
                     None \<Rightarrow> Env_Int
                   | Some s \<Rightarrow> (case environment_from_str s of Some e \<Rightarrow> e | None \<Rightarrow> Env_Int));
                   tags = (case hm_get custom_metadata ''tags'' of None \<Rightarrow> [] | Some s \<Rightarrow> parse_tags s)
               in (case upsert_secret_version now fresh_id tid path KvV2 ciphertext dek_id cas
                          (case max_versions of Some m \<Rightarrow> m | None \<Rightarrow> 10) (cas \<noteq> None) custom_metadata
                          environment tags (ps_db st) of
                     Inl e \<Rightarrow> (st, Inl e)
                   | Inr (db, sid, version) \<Rightarrow>
                       let st' = st\<lparr>ps_db := db\<rparr> in
                       (case event_id of
                          None \<Rightarrow> st'
                        | Some eid \<Rightarrow> emit_replication_event now eid tenant_id path ciphertext dek_id st',
                        Inr (sid, version)))))"

definition pg_soft_delete ::
  "(string \<Rightarrow> string option) \<Rightarrow> datetime \<Rightarrow> string \<Rightarrow> string \<Rightarrow> u32 list \<Rightarrow> pg_state \<Rightarrow>
   pg_state \<times> (vault_error + u32)" where
  "pg_soft_delete parse_uuid now tenant_id path versions st =
     (case and_then (parse_tenant_id parse_uuid tenant_id) (\<lambda>tid. get_secret_metadata (ps_db st) tid path) of
        Inl e \<Rightarrow> (st, Inl e)
      | Inr meta \<Rightarrow>
          let targets = resolve_soft_delete_targets versions (sm_current_version meta) in
          if targets = [] then (st, Inr 0)
          else let (db, deleted) = soft_delete_versions now (sm_id meta) targets (ps_db st)
               in (st\<lparr>ps_db := db\<rparr>, Inr deleted))"

definition pg_destroy ::
  "(string \<Rightarrow> string option) \<Rightarrow> datetime \<Rightarrow> string \<Rightarrow> string \<Rightarrow> u32 list \<Rightarrow> pg_state \<Rightarrow>
   pg_state \<times> (vault_error + u32)" where
  "pg_destroy parse_uuid now tenant_id path versions st =
     (case and_then (parse_tenant_id parse_uuid tenant_id) (\<lambda>tid.
             and_then (get_secret_metadata (ps_db st) tid path) (\<lambda>meta. Inr (tid, meta))) of
        Inl e \<Rightarrow> (st, Inl e)
      | Inr (tid, meta) \<Rightarrow>
          let targets =
                (if versions = [] then
                   let history = list_version_history (ps_db st) tid path;
                       live = map vm_version (filter (\<lambda>v. \<not> vm_destroyed v) history)
                   in resolve_destroy_targets versions live
                 else resolve_destroy_targets versions [])
          in if targets = [] then (st, Inr 0)
             else let (db, destroyed) = destroy_versions now (sm_id meta) targets (ps_db st)
                  in (st\<lparr>ps_db := db\<rparr>, Inr destroyed))"

definition pg_list :: "(string \<Rightarrow> string option) \<Rightarrow> pg_state \<Rightarrow> string \<Rightarrow> string \<Rightarrow> string list" where
  "pg_list parse_uuid st tenant_id prefix =
     (case parse_tenant_id parse_uuid tenant_id of
        Inl _ \<Rightarrow> []
      | Inr tid \<Rightarrow> list_secret_paths (ps_db st) tid prefix)"

definition pg_list_versions ::
  "(string \<Rightarrow> string option) \<Rightarrow> pg_state \<Rightarrow> string \<Rightarrow> string \<Rightarrow> vault_error + version_meta list" where
  "pg_list_versions parse_uuid st tenant_id path =
     and_then (parse_tenant_id parse_uuid tenant_id) (\<lambda>tid. Inr (list_version_history (ps_db st) tid path))"

definition pg_get_metadata ::
  "(string \<Rightarrow> string option) \<Rightarrow> pg_state \<Rightarrow> string \<Rightarrow> string \<Rightarrow> vault_error + secret_entry" where
  "pg_get_metadata parse_uuid st tenant_id path =
     and_then (parse_tenant_id parse_uuid tenant_id) (\<lambda>tid.
     and_then (get_secret_metadata (ps_db st) tid path) (\<lambda>meta.
       let versions = map (\<lambda>v. \<lparr>ve_version = vm_version v, ve_ciphertext = [], ve_dek_id = [],
                     ve_created_at = vm_created_at v, ve_deleted_at = vm_deleted_at v,
                     ve_destroyed = vm_destroyed v, ve_custom_metadata = []\<rparr>)
                   (list_version_history (ps_db st) tid path)
       in Inr \<lparr>se_secret_id = sm_id meta, se_tenant_id = sm_tenant_id meta, se_path = sm_path meta,
               se_max_versions = sm_max_versions meta, se_cas_required = sm_cas_required meta,
               se_created_at = sm_created_at meta, se_updated_at = sm_updated_at meta,
               se_versions = sort_key ve_version versions,
               se_environment = environment_as_str (sm_environment meta),
               se_tags = sm_tags meta, se_custom_metadata = sm_custom_metadata meta\<rparr>))"

text \<open>A method that writes runs one storage function in a transaction: an error rolls it back.\<close>

definition pg_initiate_rotation ::
  "(string \<Rightarrow> string option) \<Rightarrow> datetime \<Rightarrow> string \<Rightarrow> string \<Rightarrow> string \<Rightarrow> string \<Rightarrow> string \<Rightarrow> string \<Rightarrow> string option \<Rightarrow>
   int option \<Rightarrow> pg_state \<Rightarrow> pg_state \<times> (vault_error + string \<times> u32)" where
  "pg_initiate_rotation parse_uuid now fresh_id tenant_id path ciphertext dek_id initiated_by webhook_url
       timeout_secs st =
     (case and_then (parse_tenant_id parse_uuid tenant_id) (\<lambda>tid.
             store_initiate_rotation now fresh_id tid path ciphertext dek_id initiated_by webhook_url timeout_secs
               (ps_db st)) of
        Inl e \<Rightarrow> (st, Inl e)
      | Inr (db, out) \<Rightarrow> (st\<lparr>ps_db := db\<rparr>, Inr out))"

definition pg_confirm_rotation ::
  "(string \<Rightarrow> string option) \<Rightarrow> datetime \<Rightarrow> string \<Rightarrow> string \<Rightarrow> string \<Rightarrow> pg_state \<Rightarrow>
   pg_state \<times> (vault_error + u32 \<times> u32 \<times> datetime)" where
  "pg_confirm_rotation parse_uuid now tenant_id rotation_id confirmed_by st =
     (case and_then (parse_tenant_id parse_uuid tenant_id) (\<lambda>tid.
             store_confirm_rotation parse_uuid now tid rotation_id confirmed_by (ps_db st)) of
        Inl e \<Rightarrow> (st, Inl e)
      | Inr (db, out) \<Rightarrow> (st\<lparr>ps_db := db\<rparr>, Inr out))"

definition pg_rollback ::
  "(string \<Rightarrow> string option) \<Rightarrow> datetime \<Rightarrow> string \<Rightarrow> string \<Rightarrow> u32 \<Rightarrow> string \<Rightarrow> pg_state \<Rightarrow>
   pg_state \<times> (vault_error + u32)" where
  "pg_rollback parse_uuid now tenant_id path target_version rolled_back_by st =
     (case and_then (parse_tenant_id parse_uuid tenant_id) (\<lambda>tid.
             rollback_secret now tid path target_version rolled_back_by (ps_db st)) of
        Inl e \<Rightarrow> (st, Inl e)
      | Inr (db, out) \<Rightarrow> (st\<lparr>ps_db := db\<rparr>, Inr out))"

definition pg_get_active_rotation ::
  "(string \<Rightarrow> string option) \<Rightarrow> pg_state \<Rightarrow> string \<Rightarrow> string \<Rightarrow> vault_error + rotation_info option" where
  "pg_get_active_rotation parse_uuid st tenant_id path =
     and_then (parse_tenant_id parse_uuid tenant_id) (\<lambda>tid.
       Inr (map_option (\<lambda>r.
              \<lparr>ri_rotation_id = rc_rotation_id r, ri_secret_id = rc_secret_id r, ri_path = rc_path r,
               ri_old_version = rc_old_version r, ri_new_version = rc_new_version r, ri_status = rc_status r,
               ri_initiated_by = rc_initiated_by r, ri_confirmed_by = rc_confirmed_by r,
               ri_created_at = rc_created_at r, ri_confirmed_at = rc_confirmed_at r,
               ri_grace_ends_at = rc_grace_ends_at r, ri_expires_at = rc_expires_at r\<rparr>)
            (store_get_active_rotation (ps_db st) tid path)))"

section \<open>Vocabulary of the properties\<close>

record pg_write =
  pw_tenant_id :: string
  pw_path :: string
  pw_ciphertext :: string
  pw_dek_id :: string
  pw_cas :: "u32 option"
  pw_custom_metadata :: "(string, string) hash_map"
  pw_max_versions :: "u32 option"
  pw_quota :: "quota_check_row option"
  pw_event_id :: "string option"
  pw_now :: datetime
  pw_fresh_id :: string

definition pg_write ::
  "(string \<Rightarrow> string option) \<Rightarrow> pg_write \<Rightarrow> pg_state \<Rightarrow> pg_state \<times> (vault_error + string \<times> u32)" where
  "pg_write parse_uuid w st =
     pg_put parse_uuid (pw_quota w) (pw_event_id w) (pw_now w) (pw_fresh_id w) (pw_tenant_id w) (pw_path w)
       (pw_ciphertext w) (pw_dek_id w) (pw_cas w) (pw_custom_metadata w) (pw_max_versions w) st"

text \<open>Two spellings of a tenant's UUID are one tenant: the key is the canonical id.\<close>

definition pg_key :: "(string \<Rightarrow> string option) \<Rightarrow> pg_write \<Rightarrow> string option \<times> string" where
  "pg_key parse_uuid w = (parse_uuid (pw_tenant_id w), pw_path w)"

definition latest_row :: "pg_db \<Rightarrow> string \<Rightarrow> secret_version option" where
  "latest_row db sid =
     (let v = latest_live_version db sid in
      if v = 0 then None
      else (case get_secret_version db sid v of Inl _ \<Rightarrow> None | Inr r \<Rightarrow> Some r))"

definition pg_read :: "pg_state \<Rightarrow> string option \<times> string \<Rightarrow> (string \<times> string) option" where
  "pg_read st k =
     (case k of
        (None, path) \<Rightarrow> None
      | (Some tid, path) \<Rightarrow>
          (case hm_get (pg_secrets (ps_db st)) (tid, path) of
             None \<Rightarrow> None
           | Some meta \<Rightarrow> map_option (\<lambda>r. (sv_ciphertext r, sv_dek_id r)) (latest_row (ps_db st) (sr_id meta))))"

text \<open>A limit between 1 and \<open>2^31 - 1\<close>, and a version number left in an \<open>INTEGER\<close>.\<close>

definition pg_admissible :: "(string \<Rightarrow> string option) \<Rightarrow> pg_state \<Rightarrow> pg_write \<Rightarrow> bool" where
  "pg_admissible parse_uuid st w \<longleftrightarrow>
     (case pw_max_versions w of None \<Rightarrow> True | Some m \<Rightarrow> 0 < sint m) \<and>
     (case parse_uuid (pw_tenant_id w) of
        None \<Rightarrow> True
      | Some tid \<Rightarrow>
          (case hm_get (pg_secrets (ps_db st)) (tid, pw_path w) of
             None \<Rightarrow> True
           | Some meta \<Rightarrow> sr_current_version meta < 2 ^ 31 - 1))"

definition pg_ok :: "pg_state \<Rightarrow> bool" where
  "pg_ok st \<longleftrightarrow> pg_inv (ps_db st) \<and> (\<forall>sid c. current (ps_db st) sid = Some c \<longrightarrow> 0 \<le> c)"

definition pg_start :: "string \<Rightarrow> pg_state" where
  "pg_start region = \<lparr>ps_db = pg_empty, ps_outbox = [], ps_region_id = region\<rparr>"

text \<open>Two versions of a secret, in each backend.\<close>

definition demo_pg_two :: pg_state where
  "demo_pg_two =
     fst (pg_put Some None (Some ''e2'') 2 ''j'' ''t'' ''p'' ''c2'' ''d2'' None [] None
       (fst (pg_put Some None (Some ''e1'') 1 ''i'' ''t'' ''p'' ''c1'' ''d1'' None [] None (pg_start ''eu''))))"

definition demo_kv_two :: kv_store where
  "demo_kv_two =
     fst (kv_put (fst (kv_put [] ''t'' ''p'' ''c1'' ''d1'' None [] None 1 ''i'')) ''t'' ''p'' ''c2'' ''d2'' None [] None 2 ''j'')"

section \<open>Lemmas\<close>

lemma pg_read_get:
  "pg_read st (parse_uuid tenant_id, path) =
     (case pg_get parse_uuid st tenant_id path None of Inl _ \<Rightarrow> None | Inr v \<Rightarrow> Some (ve_ciphertext v, ve_dek_id v))"
  by (auto simp: pg_read_def pg_get_def parse_tenant_id_def get_secret_metadata_def secret_metadata_of_def
      latest_row_def Let_def split: option.split sum.split)

lemma ids_inj:
  assumes "pg_inv db" "hm_get (pg_secrets db) k = Some r" "hm_get (pg_secrets db) k' = Some r'"
    and "sr_id r = sr_id r'"
  shows "k = k'"
proof -
  have "(k, r) \<in> set (pg_secrets db)" "(k', r') \<in> set (pg_secrets db)"
    using assms by (simp_all add: pg_inv_def hm_get_iff)
  moreover have "inj_on (sr_id \<circ> snd) (set (pg_secrets db))"
    using assms(1) by (simp add: pg_inv_def distinct_map)
  ultimately have "(k, r) = (k', r')"
    using assms(4) by (auto dest: inj_onD [of _ _ "(k, r)" "(k', r')"])
  then show ?thesis by simp
qed

lemma upsert_result:
  assumes inv: "pg_inv db"
    and up: "vault_upsert_secret now i t p eng c d cas mv req md lp db = Inr (db', sid, n)"
  shows "pg_versions db' = filter (\<lambda>sv. \<not> (vr_secret_id sv = sid \<and> vr_version sv \<le> n - mv \<and> \<not> vr_destroyed sv))
           (pg_versions db @ [new_version_row now sid n c d md ''active'' (lp_created_by lp)])"
    and "\<exists>r. hm_get (pg_secrets db') (t, p) = Some r \<and> sr_id r = sid"
    and "k \<noteq> (t, p) \<Longrightarrow> hm_get (pg_secrets db') k = hm_get (pg_secrets db) k"
    and "k \<noteq> (t, p) \<Longrightarrow> hm_get (pg_secrets db) k = Some r' \<Longrightarrow> sr_id r' \<noteq> sid"
proof -
  define row where "row = upsert_secret_row now i t p eng mv req md lp (hm_get (pg_secrets db) (t, p))"
  define db1 where "db1 = db\<lparr>pg_secrets := hm_insert (t, p) row (pg_secrets db)\<rparr>"
  from up obtain db2 where ins: "insert_version (new_version_row now (sr_id row)
      (sr_current_version row + 1) c d md ''active'' (lp_created_by lp)) db1 = Inr db2"
    and db': "db' = (update_secret now (sr_id row) (\<lambda>r. r\<lparr>sr_current_version := n\<rparr>) db2)
      \<lparr>pg_versions := filter (\<lambda>sv. \<not> (vr_secret_id sv = sr_id row \<and> vr_version sv \<le> n - mv \<and>
        \<not> vr_destroyed sv)) (pg_versions db2)\<rparr>"
    and n: "n = sr_current_version row + 1" "sid = sr_id row"
    and fresh: "hm_get (pg_secrets db) (t, p) = None \<Longrightarrow> row_of db i = None"
    by (auto simp: vault_upsert_secret_def Let_def row_def db1_def result_iff split: if_splits)
  have inv1: "pg_inv db1" using pg_inv_upsert_row [OF inv fresh row_def] by (simp add: db1_def)
  have db2: "db2 = db1\<lparr>pg_versions := pg_versions db @ [new_version_row now sid n c d md ''active'' (lp_created_by lp)]\<rparr>"
    using ins n by (simp add: insert_version_def db1_def split: if_splits)
  show "pg_versions db' = filter (\<lambda>sv. \<not> (vr_secret_id sv = sid \<and> vr_version sv \<le> n - mv \<and> \<not> vr_destroyed sv))
      (pg_versions db @ [new_version_row now sid n c d md ''active'' (lp_created_by lp)])"
    by (simp add: db' db2 n(2))
  show "\<exists>r. hm_get (pg_secrets db') (t, p) = Some r \<and> sr_id r = sid"
    by (simp add: db' db2 db1_def update_secret_def n(2))
  have other: "sr_id r \<noteq> sid" if "k \<noteq> (t, p)" "hm_get (pg_secrets db) k = Some r" for k r
    using ids_inj [OF inv1, of k r "(t, p)" row] that n(2) by (auto simp: db1_def)
  then show "k \<noteq> (t, p) \<Longrightarrow> hm_get (pg_secrets db) k = Some r' \<Longrightarrow> sr_id r' \<noteq> sid" .
  show "k \<noteq> (t, p) \<Longrightarrow> hm_get (pg_secrets db') k = hm_get (pg_secrets db) k"
    using other [of k] n(2)
    by (cases "hm_get (pg_secrets db) k") (simp_all add: db' db2 db1_def update_secret_def)
qed

lemma max_or_zero_eq:
  assumes "m \<in> set vs" "\<And>x. x \<in> set vs \<Longrightarrow> x \<le> m"
  shows "max_or_zero vs = m"
proof (cases vs)
  case (Cons v vs')
  then have "max_or_zero vs = Max (set vs)" by (simp only: max_or_zero_def list.case Max.set_eq_fold)
  with assms show ?thesis by (simp add: Max_eqI)
qed (use assms in simp)

lemma sint_of_int_u32: "0 \<le> n \<Longrightarrow> n < 2 ^ 31 \<Longrightarrow> sint (of_int n :: u32) = n"
  by (simp add: signed_take_bit_int_eq_self_iff sint_sbintrunc')

lemma latest_row_cong:
  assumes "filter (\<lambda>v. vr_secret_id v = sid) (pg_versions db') = filter (\<lambda>v. vr_secret_id v = sid) (pg_versions db)"
  shows "latest_row db' sid = latest_row db sid"
proof -
  have f: "filter (\<lambda>v. vr_secret_id v = sid \<and> P v) vs = filter P (filter (\<lambda>v. vr_secret_id v = sid) vs)" for P vs
    by (induction vs) auto
  have g: "find (\<lambda>v. vr_secret_id v = sid \<and> P v) vs = find P (filter (\<lambda>v. vr_secret_id v = sid) vs)" for P vs
    by (induction vs) auto
  show ?thesis
    unfolding latest_row_def latest_live_version_def get_secret_version_def f g assms ..
qed

lemma find_unique:
  assumes "x \<in> set xs" "P x" "\<And>y. y \<in> set xs \<Longrightarrow> P y \<Longrightarrow> y = x"
  shows "find P xs = Some x"
proof (cases "find P xs")
  case None
  with assms(1,2) show ?thesis by (simp add: find_None_iff)
next
  case (Some y)
  with assms(3) [of y] find_SomeD [OF Some] show ?thesis by simp
qed

text \<open>After a write, its row is the only one of its number and the newest live one.\<close>

lemma upsert_latest:
  assumes ok: "pg_ok st" and mv: "0 < mv"
    and up: "vault_upsert_secret now i t p eng c d cas mv req md lp (ps_db st) = Inr (db', sid, n)"
    and n: "n < 2 ^ 31"
  shows "latest_row db' sid = Some (secret_version_of (new_version_row now sid n c d md ''active'' (lp_created_by lp)))"
proof -
  let ?new = "new_version_row now sid n c d md ''active'' (lp_created_by lp)"
  have inv: "pg_inv (ps_db st)" using ok by (simp add: pg_ok_def)
  note cur = upsert_current [OF inv up]
  have pos: "1 \<le> n"
    using cur ok by (auto simp: pg_ok_def split: option.splits)
  have less: "vr_version v < n" if "v \<in> set (pg_versions (ps_db st))" "vr_secret_id v = sid" for v
  proof -
    have mem: "(sid, vr_version v) \<in> set (version_keys (ps_db st))"
      using that by (auto simp: version_keys_def intro!: image_eqI [of _ _ v])
    from inv have "lifecycle_ok (current (ps_db st)) (version_keys (ps_db st)) (pg_rotations (ps_db st))"
      by (simp add: pg_inv_def)
    from lifecycle_version [OF this mem] cur mem show ?thesis by auto
  qed
  have vs: "pg_versions db' = filter (\<lambda>sv. \<not> (vr_secret_id sv = sid \<and> vr_version sv \<le> n - mv \<and> \<not> vr_destroyed sv))
      (pg_versions (ps_db st)) @ [?new]"
    using upsert_result(1) [OF inv up] mv by simp
  have latest: "latest_live_version db' sid = of_int n"
    unfolding latest_live_version_def
    by (rule arg_cong [of _ _ of_int], rule max_or_zero_eq) (auto simp: vs dest: less)
  have ne: "(of_int n :: u32) \<noteq> 0"
  proof
    assume "(of_int n :: u32) = 0"
    then have "sint (of_int n :: u32) = 0" by (simp only: sint_0)
    with sint_of_int_u32 [of n] n pos show False by linarith
  qed
  have "find (\<lambda>v. vr_secret_id v = sid \<and> vr_version v = n) (pg_versions db') = Some ?new"
    by (rule find_unique) (auto simp: vs dest: less)
  then have "get_secret_version db' sid (of_int n) = Inr (secret_version_of ?new)"
    using sint_of_int_u32 [of n] n pos by (simp add: get_secret_version_def)
  then show ?thesis using ne by (simp add: latest_row_def latest Let_def)
qed

lemma upsert_other_rows:
  assumes "pg_inv db" and up: "vault_upsert_secret now i t p eng c d cas mv req md lp db = Inr (db', sid, n)"
    and "x \<noteq> sid"
  shows "latest_row db' x = latest_row db x"
proof (rule latest_row_cong)
  have keep: "filter (\<lambda>v. vr_secret_id v = x) (filter (\<lambda>sv. \<not> (vr_secret_id sv = sid \<and> Q sv)) vs) =
      filter (\<lambda>v. vr_secret_id v = x) vs" for Q vs
    using assms(3) by (induction vs) auto
  show "filter (\<lambda>v. vr_secret_id v = x) (pg_versions db') = filter (\<lambda>v. vr_secret_id v = x) (pg_versions db)"
    unfolding upsert_result(1) [OF assms(1,2)] keep using assms(3) by simp
qed

text \<open>The second statement of a write changes labels only.\<close>

lemma upsert_secret_version_result:
  assumes inv: "pg_inv db"
    and up: "upsert_secret_version now i tid p eng c d cas mv req md env tags db = Inr (db', sid, v)"
  shows "\<exists>db1 n. vault_upsert_secret now i tid p (engine_str eng) c d (map_option sint cas) (sint mv) req md default_lifecycle db
             = Inr (db1, sid, n) \<and> v = of_int n \<and>
           pg_versions db' = pg_versions db1 \<and> pg_inv db' \<and> current db' = current db1 \<and>
           (\<exists>r. hm_get (pg_secrets db') (tid, p) = Some r \<and> sr_id r = sid) \<and>
           (\<forall>k. k \<noteq> (tid, p) \<longrightarrow> hm_get (pg_secrets db') k = hm_get (pg_secrets db1) k)"
proof -
  from up obtain db1 n where up1: "vault_upsert_secret now i tid p (engine_str eng) c d (map_option sint cas) (sint mv) req md
      default_lifecycle db = Inr (db1, sid, n)" and v: "v = of_int n"
    by (auto simp: upsert_secret_version_def split: sum.splits sql_error.splits prod.splits)
  from upsert_result(2) [OF inv up1] obtain r where r: "hm_get (pg_secrets db1) (tid, p) = Some r" "sr_id r = sid"
    by blast
  let ?r = "r\<lparr>sr_environment := environment_as_str env, sr_tags := tags, sr_custom_metadata := md, sr_updated_at := now\<rparr>"
  have db': "db' = db1\<lparr>pg_secrets := hm_insert (tid, p) ?r (pg_secrets db1)\<rparr>"
    using up up1 r by (simp add: upsert_secret_version_def)
  have inv1: "pg_inv db1" by (rule pg_inv_upsert [OF inv up1])
  have cur: "current db' = current db1"
    by (rule current_cong, simp only: db' pg_db.select_convs pg_db.update_convs)
      (use find_update_value [OF r(1), of "\<lambda>s. (sr_id s, sr_current_version s)" ?r] in simp)
  have ids: "map (sr_id \<circ> snd) (pg_secrets db') = map (sr_id \<circ> snd) (pg_secrets db1)"
    using find_update_value [OF r(1), of sr_id ?r] by (simp add: db')
  have "pg_inv db'"
    using inv1 cur ids by (simp add: pg_inv_def) (simp add: db' version_keys_def)
  with up1 v cur r show ?thesis by (auto simp: db')
qed

lemma pg_write_Inl: "pg_write parse_uuid w st = (st', Inl e) \<Longrightarrow> st' = st"
  by (auto simp: pg_write_def pg_put_def Let_def split: sum.splits prod.splits)

lemma emit_keeps_db [simp]:
  "ps_db (case e of None \<Rightarrow> st | Some eid \<Rightarrow> emit_replication_event now eid t p c d st) = ps_db st"
  by (cases e) (simp_all add: emit_replication_event_def)

lemma pg_write_Inr:
  assumes "pg_write parse_uuid w st = (st', Inr (sid, v))"
  shows "\<exists>tid env tags. parse_uuid (pw_tenant_id w) = Some tid \<and>
           upsert_secret_version (pw_now w) (pw_fresh_id w) tid (pw_path w) KvV2 (pw_ciphertext w) (pw_dek_id w) (pw_cas w)
             (case pw_max_versions w of Some m \<Rightarrow> m | None \<Rightarrow> 10) (pw_cas w \<noteq> None) (pw_custom_metadata w) env tags
             (ps_db st) = Inr (ps_db st', sid, v)"
  using assms
  by (auto simp: pg_write_def pg_put_def parse_tenant_id_def result_iff Let_def split: sum.splits prod.splits)
    blast

lemma pg_write_effect:
  assumes ok: "pg_ok st" and adm: "pg_admissible parse_uuid st w"
    and wr: "pg_write parse_uuid w st = (st', Inr (sid, v))"
  shows "pg_ok st' \<and> pg_read st' (pg_key parse_uuid w) = Some (pw_ciphertext w, pw_dek_id w) \<and>
         (\<forall>k. k \<noteq> pg_key parse_uuid w \<longrightarrow> pg_read st' k = pg_read st k)"
proof -
  let ?mv = "case pw_max_versions w of Some m \<Rightarrow> m | None \<Rightarrow> 10"
  from pg_write_Inr [OF wr] obtain tid env tags where tid: "parse_uuid (pw_tenant_id w) = Some tid"
    and up: "upsert_secret_version (pw_now w) (pw_fresh_id w) tid (pw_path w) KvV2 (pw_ciphertext w) (pw_dek_id w) (pw_cas w)
      ?mv (pw_cas w \<noteq> None) (pw_custom_metadata w) env tags (ps_db st) = Inr (ps_db st', sid, v)"
    by blast
  have inv: "pg_inv (ps_db st)" using ok by (simp add: pg_ok_def)
  from upsert_secret_version_result [OF inv up] obtain db1 n r where
    up1: "vault_upsert_secret (pw_now w) (pw_fresh_id w) tid (pw_path w) (engine_str KvV2) (pw_ciphertext w) (pw_dek_id w)
      (map_option sint (pw_cas w)) (sint ?mv) (pw_cas w \<noteq> None) (pw_custom_metadata w) default_lifecycle (ps_db st)
      = Inr (db1, sid, n)"
    and vs: "pg_versions (ps_db st') = pg_versions db1" and inv': "pg_inv (ps_db st')"
    and cur': "current (ps_db st') = current db1"
    and r: "hm_get (pg_secrets (ps_db st')) (tid, pw_path w) = Some r" "sr_id r = sid"
    and others: "\<And>k. k \<noteq> (tid, pw_path w) \<Longrightarrow> hm_get (pg_secrets (ps_db st')) k = hm_get (pg_secrets db1) k"
    by blast
  note cur = upsert_current [OF inv up1]
  have pos: "1 \<le> n" using cur ok by (auto simp: pg_ok_def split: option.splits)
  have sid: "current (ps_db st) sid = Some c \<Longrightarrow> c < 2 ^ 31 - 1" for c
  proof -
    assume c: "current (ps_db st) sid = Some c"
    show ?thesis
    proof (cases "hm_get (pg_secrets (ps_db st)) (tid, pw_path w)")
      case None
      then have "sid = pw_fresh_id w" "row_of (ps_db st) (pw_fresh_id w) = None"
        using up1 by (auto simp: vault_upsert_secret_def Let_def upsert_secret_row_def result_iff split: if_splits)
      with c show ?thesis by (simp add: current_def)
    next
      case (Some m)
      have "sid = sr_id m"
        using up1 Some by (auto simp: vault_upsert_secret_def Let_def upsert_secret_row_def result_iff split: if_splits)
      with row_of_get [OF inv Some] c adm Some tid show ?thesis by (simp add: current_def pg_admissible_def)
    qed
  qed
  have n: "n < 2 ^ 31" using cur sid by (auto split: option.splits)
  have mv: "0 < sint ?mv" using adm by (simp add: pg_admissible_def split: option.splits)
  have rows: "latest_row (ps_db st') x = latest_row db1 x" for x
    by (rule latest_row_cong) (simp add: vs)
  have "pg_ok st'"
    using inv' cur cur' pos ok by (auto simp: pg_ok_def)
  moreover have "pg_read st' (pg_key parse_uuid w) = Some (pw_ciphertext w, pw_dek_id w)"
    using upsert_latest [OF ok mv up1 n] r rows
    by (simp add: pg_read_def pg_key_def tid) (simp add: new_version_row_def secret_version_of_def)
  moreover have "pg_read st' k = pg_read st k" if k: "k \<noteq> pg_key parse_uuid w" for k
  proof (cases "fst k")
    case (Some t)
    with k have ne: "(t, snd k) \<noteq> (tid, pw_path w)" by (auto simp: pg_key_def tid prod_eq_iff)
    have "hm_get (pg_secrets (ps_db st')) (t, snd k) = hm_get (pg_secrets (ps_db st)) (t, snd k)"
      using others [OF ne] upsert_result(3) [OF inv up1 ne] by simp
    with upsert_result(4) [OF inv up1 ne] upsert_other_rows [OF inv up1] rows Some show ?thesis
      by (auto simp: pg_read_def split: prod.split option.split)
  qed (auto simp: pg_read_def split: prod.split)
  ultimately show ?thesis by blast
qed

interpretation pgs: versioned_store "pg_write parse_uuid" pg_read "pg_key parse_uuid"
  "\<lambda>w. (pw_ciphertext w, pw_dek_id w)" "pg_admissible parse_uuid" pg_ok
  for parse_uuid :: "string \<Rightarrow> string option"
proof unfold_locales
  fix st :: pg_state and w :: pg_write
  assume a: "pg_ok st" "pg_admissible parse_uuid st w"
  obtain st' r where wr: "pg_write parse_uuid w st = (st', r)" by (cases "pg_write parse_uuid w st")
  show "pg_ok (fst (pg_write parse_uuid w st))"
    using a wr pg_write_Inl [of parse_uuid w st st'] pg_write_effect [OF a, of st'] by (cases r) auto
  show "pg_read (fst (pg_write parse_uuid w st)) k = pg_read st k" if "k \<noteq> pg_key parse_uuid w" for k
    using a wr that pg_write_Inl [of parse_uuid w st st'] pg_write_effect [OF a, of st']
    by (cases k; cases r) auto
qed (auto dest: pg_write_effect pg_write_Inl)

section \<open>Properties\<close>

text \<open>C19. Last write wins, in PostgreSQL: after any sequence of admissible writes to an empty
  database, a read of a path's latest version returns the ciphertext and key of the
  last accepted write to that tenant and path, however the tenant's UUID was spelled
  and whatever writes were rejected by check-and-set, quota or an invalid tenant.\<close>

theorem pg_last_write_wins:
  assumes "all_admissible (pg_write parse_uuid) (pg_admissible parse_uuid) ws (pg_start region)"
  shows "pg_read (fold (\<lambda>w s. fst (pg_write parse_uuid w s)) ws (pg_start region)) k =
           last_accepted (pg_write parse_uuid) (pg_key parse_uuid) (\<lambda>w. (pw_ciphertext w, pw_dek_id w)) k ws
             (pg_start region) None"
proof -
  have "pg_ok (pg_start region)"
    using pg_inv_empty by (simp add: pg_ok_def pg_start_def current_def row_of_def pg_empty_def)
  moreover have "pg_read (pg_start region) k = None"
    by (simp add: pg_read_def pg_start_def pg_empty_def split: prod.split option.split)
  ultimately show ?thesis using pgs.last_write_wins [OF _ assms, of k] by simp
qed

lemmas pg_eval =
  pg_put_def emit_replication_event_def parse_tenant_id_def check_write_quota_def upsert_secret_version_def upsert_eval
  pg_start_def new_version_row_def pg_get_def get_secret_metadata_def secret_metadata_of_def secret_version_of_def latest_live_version_def max_or_zero_def
  get_secret_version_def pg_soft_delete_def soft_delete_versions_def vault_soft_delete_versions_def
  resolve_soft_delete_targets_def

theorem pg_last_write_wins_witness:
  "pg_read (fold (\<lambda>w s. fst (pg_write Some w s))
     [\<lparr>pw_tenant_id = ''t'', pw_path = ''p'', pw_ciphertext = ''c1'', pw_dek_id = ''d1'', pw_cas = None,
       pw_custom_metadata = [], pw_max_versions = None, pw_quota = None, pw_event_id = Some ''e'', pw_now = 1,
       pw_fresh_id = ''i''\<rparr>] (pg_start ''eu'')) (Some ''t'', ''p'') = Some (''c1'', ''d1'')"
  by (subst pg_last_write_wins)
    (simp_all add: pg_admissible_def pg_write_def pg_key_def pg_eval)

text \<open>Deleting again does not delete: soft deletion without versions targets the write
  pointer, which a deletion does not move. After two writes and two such deletions the
  second deletion reports zero versions and the first value is readable; the in-memory
  backend deletes it.\<close>

lemma pg_second_delete_is_noop:
  "(let r = pg_soft_delete Some 4 ''t'' ''p'' [] (fst (pg_soft_delete Some 3 ''t'' ''p'' [] demo_pg_two))
    in snd r = Inr 0 \<and> map_sum id ve_ciphertext (pg_get Some (fst r) ''t'' ''p'' None) = Inr ''c1'') \<and>
   (let r = kv_soft_delete (fst (kv_soft_delete demo_kv_two ''t'' ''p'' [] 3)) ''t'' ''p'' [] 4
    in snd r = Inr 1 \<and> kv_get (fst r) ''t'' ''p'' None = Inl (SecretNotFound ''p'' None))"
  by (intro conjI; code_simp)

text \<open>An unconfirmed rotation is already visible: reading the latest version takes the highest
  live number without looking at the status, so as soon as a rotation is initiated the
  pending value is the one that is served, while the history still calls it pending and
  the metadata still names the old version.\<close>

theorem pg_pending_version_is_read:
  "let r = pg_initiate_rotation Some 5 ''r'' ''t'' ''p'' ''c3'' ''d3'' ''alice'' None None demo_pg_two
   in snd r = Inr (''r'', 3) \<and>
      map_sum id ve_ciphertext (pg_get Some (fst r) ''t'' ''p'' None) = Inr ''c3'' \<and>
      map_sum id (map (\<lambda>v. (vm_version v, vm_status v))) (pg_list_versions Some (fst r) ''t'' ''p'') =
        Inr [(3, VS_Pending), (2, VS_Active), (1, VS_Active)] \<and>
      map_sum id sm_current_version (get_secret_metadata (ps_db (fst r)) ''t'' ''p'') = Inr 2"
  by code_simp

text \<open>A listing's prefix is a pattern: the prefix \<open>app_1/\<close> also lists \<open>app-1/x\<close>, since an
  underscore is a wildcard of \<open>LIKE\<close>; the in-memory backend compares it literally.\<close>

lemma pg_list_prefix_is_pattern:
  "pg_list Some (fst (pg_put Some None (Some ''e1'') 1 ''i'' ''t'' ''app-1/x'' ''c'' ''d'' None [] None (pg_start ''eu''))) ''t'' ''app_1/''
     = [''app-1/x''] \<and>
   kv_list (fst (kv_put [] ''t'' ''app-1/x'' ''c'' ''d'' None [] None 1 ''i'')) ''t'' ''app_1/'' = []"
  by (intro conjI; code_simp)

end
