(* ===== verification/Rotation_Sweep.thy ===== *)
theory Rotation_Sweep
  imports Secret_Lifecycle
begin

text \<open>
  The rotation worker of the lease-manager (\<^verbatim>\<open>services/lease-manager/src/rotation.rs\<close>): its
  configuration, the query for secrets due for rotation, the delivery of webhooks with
  retries, one cycle of the sweep, and the cleanup of deprecated versions.

  The loops tick forever; the model has one cycle of each. Whether an attempt to deliver
  a webhook succeeds, whether the due secrets could be read and whether the mark of a
  delivered one could be written are arguments. A cleanup whose statement fails leaves the
  database as it was and is logged; the model has the one that succeeds. Counters are not
  modelled.
\<close>

section \<open>Configuration\<close>

record rotation_config =
  rc_sweep_interval_secs :: nat
  rc_cleanup_interval_secs :: nat
  rc_webhook_timeout_secs :: nat
  rc_webhook_max_retries :: u32

definition rotation_config_default :: rotation_config where
  "rotation_config_default = \<lparr>rc_sweep_interval_secs = 60, rc_cleanup_interval_secs = 3600,
     rc_webhook_timeout_secs = 10, rc_webhook_max_retries = 3\<rparr>"

text \<open>The retries are read as 64 bits and cast to 32.\<close>

definition rotation_config_from_env :: "(string \<Rightarrow> string option) \<Rightarrow> rotation_config" where
  "rotation_config_from_env var =
     (let parse_env = (\<lambda>name default. case Option.bind (var name) (parse_unsigned (2 ^ 64)) of
                                        Some n \<Rightarrow> n | None \<Rightarrow> default)
      in \<lparr>rc_sweep_interval_secs = parse_env ''ROTATION_SWEEP_INTERVAL_SECS'' 60,
          rc_cleanup_interval_secs = parse_env ''VERSION_CLEANUP_INTERVAL_SECS'' 3600,
          rc_webhook_timeout_secs = parse_env ''ROTATION_WEBHOOK_TIMEOUT_SECS'' 10,
          rc_webhook_max_retries = of_nat (parse_env ''ROTATION_WEBHOOK_MAX_RETRIES'' 3)\<rparr>)"

section \<open>Webhooks\<close>

record webhook_payload =
  wp_tenant_id :: string
  wp_path :: string
  wp_secret_type :: string
  wp_rotation_due_at :: datetime
  wp_triggered_at :: datetime

text \<open>The loop over the attempts, with the pauses it sleeps. \<open>deliver n\<close> is the outcome of
  attempt \<open>n\<close>.\<close>

function retry_from :: "(nat \<Rightarrow> bool) \<Rightarrow> nat \<Rightarrow> nat \<Rightarrow> nat \<Rightarrow> bool \<times> nat list" where
  "retry_from deliver final attempt delay_secs =
     (if attempt > final then (False, [])
      else if deliver attempt then (True, [])
      else if attempt < final then
        (let (r, pauses) = retry_from deliver final (attempt + 1) (min (delay_secs * 2) 30)
         in (r, delay_secs # pauses))
      else retry_from deliver final (attempt + 1) delay_secs)"
  by pat_completeness auto
termination by (relation "measure (\<lambda>(_, final, attempt, _). Suc final - attempt)") auto

declare retry_from.simps [simp del]

definition dispatch_webhook_with_retry :: "(nat \<Rightarrow> bool) \<Rightarrow> u32 \<Rightarrow> bool \<times> nat list" where
  "dispatch_webhook_with_retry deliver max_retries = retry_from deliver (max (unat max_retries) 1) 1 1"

section \<open>The sweep\<close>

record due_secret =
  ds_id :: string
  ds_path :: string
  ds_tenant_id :: string
  ds_secret_type :: string
  ds_webhook_url :: "string option"
  ds_rotation_interval_seconds :: "int option"

definition due_row :: "datetime \<Rightarrow> secret_row \<Rightarrow> bool" where
  "due_row now s \<longleftrightarrow> sr_secret_type s = ''ROTATION_REQUIRED'' \<and>
     (case sr_next_rotation_at s of None \<Rightarrow> False | Some t \<Rightarrow> t \<le> now) \<and> sr_rotation_status s = ''none''"

definition due_secrets :: "datetime \<Rightarrow> pg_db \<Rightarrow> due_secret list" where
  "due_secrets now db =
     map (\<lambda>s. \<lparr>ds_id = sr_id s, ds_path = sr_path s, ds_tenant_id = sr_tenant_id s,
               ds_secret_type = sr_secret_type s, ds_webhook_url = sr_webhook_url s,
               ds_rotation_interval_seconds = sr_rotation_interval_seconds s\<rparr>)
       (filter (due_row now) (map snd (pg_secrets db)))"

definition mark_rotation_pending :: "datetime \<Rightarrow> string \<Rightarrow> pg_db \<Rightarrow> pg_db" where
  "mark_rotation_pending now secret_id db =
     update_secret now secret_id (\<lambda>s. s\<lparr>sr_rotation_status := ''pending''\<rparr>) db"

text \<open>What the outside answers during a sweep: whether the due secrets could be read, whether
  each attempt to deliver the webhook of a secret succeeds, and whether its mark could be
  written.\<close>

record sweep_io =
  io_rows_ok :: bool
  io_deliver :: "string \<Rightarrow> nat \<Rightarrow> bool"
  io_mark_ok :: "string \<Rightarrow> bool"

text \<open>What the sweep does for one due secret: a payload that was delivered, and the mark; a
  mark that fails is logged and the row stays as it was. Without a webhook the secret is
  skipped.\<close>

definition sweep_secret ::
  "rotation_config \<Rightarrow> sweep_io \<Rightarrow> datetime \<Rightarrow> due_secret \<Rightarrow> pg_db \<times> (string \<times> webhook_payload) list \<Rightarrow>
   pg_db \<times> (string \<times> webhook_payload) list" where
  "sweep_secret config io now secret acc =
     (case ds_webhook_url secret of
        None \<Rightarrow> acc
      | Some url \<Rightarrow>
          let payload = \<lparr>wp_tenant_id = ds_tenant_id secret, wp_path = ds_path secret,
                wp_secret_type = ds_secret_type secret, wp_rotation_due_at = now, wp_triggered_at = now\<rparr>;
              dispatched = fst (dispatch_webhook_with_retry (io_deliver io (ds_id secret)) (rc_webhook_max_retries config))
          in if dispatched
             then (if io_mark_ok io (ds_id secret) then mark_rotation_pending now (ds_id secret) (fst acc) else fst acc,
                   snd acc @ [(ds_id secret, payload)])
             else acc)"

definition run_rotation_sweep ::
  "rotation_config \<Rightarrow> sweep_io \<Rightarrow> datetime \<Rightarrow> pg_db \<Rightarrow> pg_db \<times> (string \<times> webhook_payload) list" where
  "run_rotation_sweep config io now db =
     (if io_rows_ok io then fold (sweep_secret config io now) (due_secrets now db) (db, []) else (db, []))"

definition run_version_cleanup :: "datetime \<Rightarrow> pg_db \<Rightarrow> pg_db" where
  "run_version_cleanup now db = fst (vault_revoke_deprecated_versions now 100 db)"

text \<open>Everything that writes the secrets table: the stored functions, the sweep, the cleanup.\<close>

inductive rotation_step :: "pg_db \<Rightarrow> pg_db \<Rightarrow> bool" where
  step_function: "pg_step db db' \<Longrightarrow> rotation_step db db'"
| step_sweep: "run_rotation_sweep config io now db = (db', sent) \<Longrightarrow> rotation_step db db'"
| step_cleanup: "rotation_step db (run_version_cleanup now db)"

section \<open>Lemmas\<close>

lemma retry_from_result:
  assumes "retry_from deliver final attempt delay = (r, pauses)" "delay \<le> 30"
  shows "(r \<longleftrightarrow> (\<exists>i. attempt \<le> i \<and> i \<le> final \<and> deliver i)) \<and> length pauses \<le> final - attempt \<and> (\<forall>d \<in> set pauses. d \<le> 30)"
  using assms
proof (induction deliver final attempt delay arbitrary: r pauses rule: retry_from.induct)
  case (1 deliver final attempt delay)
  obtain r' p' where rec: "retry_from deliver final (attempt + 1) (min (delay * 2) 30) = (r', p')"
    by (cases "retry_from deliver final (attempt + 1) (min (delay * 2) 30)")
  have split: "(\<exists>i. attempt \<le> i \<and> i \<le> final \<and> deliver i) \<longleftrightarrow>
      attempt \<le> final \<and> deliver attempt \<or> (\<exists>i. attempt + 1 \<le> i \<and> i \<le> final \<and> deliver i)"
    by (metis Suc_eq_plus1 Suc_leD le_antisym not_less_eq_eq)
  consider "attempt > final" | "attempt \<le> final" "deliver attempt" | "attempt < final" "\<not> deliver attempt"
    | "attempt = final" "\<not> deliver attempt" by linarith
  then show ?case
  proof cases
    case 3
    then have eq: "r = r'" "pauses = delay # p'" using 1(3) by (simp_all add: retry_from.simps [of deliver final attempt] rec [simplified])
    from 1(1) [OF _ _ _ rec] 3 have "(r' \<longleftrightarrow> (\<exists>i. attempt + 1 \<le> i \<and> i \<le> final \<and> deliver i)) \<and>
        length p' \<le> final - (attempt + 1) \<and> (\<forall>d \<in> set p'. d \<le> 30)" by simp
    with 3 1(4) show ?thesis unfolding split eq by auto
  next
    case 4
    then have "r = False" "pauses = []"
      using 1(3) by (simp_all add: retry_from.simps [of deliver final final] retry_from.simps [of deliver final "Suc final"])
    with 4 show ?thesis by (auto dest: le_antisym)
  qed (use 1(3) in \<open>auto simp: retry_from.simps [of deliver final attempt]\<close>)
qed

text \<open>A secret that has left the state \<open>none\<close>.\<close>

definition settled :: "string \<Rightarrow> pg_db \<Rightarrow> bool" where
  "settled sid db \<longleftrightarrow> row_of db sid \<noteq> None \<and>
     list_all (\<lambda>r. sr_id r = sid \<longrightarrow> sr_rotation_status r \<noteq> ''none'') (map snd (pg_secrets db))"

lemma settled_iff:
  "settled sid db \<longleftrightarrow> sid \<in> sr_id ` snd ` set (pg_secrets db) \<and>
     (\<forall>(k, r) \<in> set (pg_secrets db). sr_id r = sid \<longrightarrow> sr_rotation_status r \<noteq> ''none'')"
  by (auto simp: settled_def row_of_def list_all_iff find_None_iff)

lemma update_entries: "(k', v') \<in> set (AList.update k v al) \<Longrightarrow> (k', v') = (k, v) \<or> (k', v') \<in> set al"
  by (induction al) (auto split: if_splits)

lemma update_ids:
  assumes "(k0, r0) \<in> set al" "\<And>old. map_of al k = Some old \<Longrightarrow> h r = h old"
  shows "h r0 \<in> h ` snd ` set (AList.update k r al)"
  using assms
proof (induction al)
  case (Cons kv al)
  obtain k1 r1 where kv: "kv = (k1, r1)" by (cases kv)
  have in_al: "h r0 \<in> h ` snd ` set al" if "(k0, r0) \<in> set al" using that by (metis image_eqI snd_conv)
  show ?case
  proof (cases "k1 = k")
    case True
    then have "h r = h r1" using Cons.prems(2) [of r1] kv by simp
    then show ?thesis using Cons.prems(1) in_al True kv by auto
  next
    case False
    then have "h r0 \<in> h ` snd ` set (AList.update k r al)" if "(k0, r0) \<in> set al"
      using Cons.IH [OF that] Cons.prems(2) kv by simp
    then show ?thesis using Cons.prems(1) False kv by auto
  qed
qed simp

lemma settled_same_secrets: "settled sid db \<Longrightarrow> pg_secrets db' = pg_secrets db \<Longrightarrow> settled sid db'"
  by (simp add: settled_iff)

lemma settled_tables [simp]:
  "settled sid (db\<lparr>pg_versions := v\<rparr>) = settled sid db" "settled sid (db\<lparr>pg_rotations := q\<rparr>) = settled sid db"
  by (simp_all add: settled_iff)

lemma settled_update_secret:
  assumes "settled sid db" "\<And>s. sr_id (f s) = sr_id s"
    and "\<And>s. sr_rotation_status s \<noteq> ''none'' \<Longrightarrow> sr_rotation_status (f s) \<noteq> ''none''"
  shows "settled sid (update_secret now i f db)"
proof -
  let ?g = "\<lambda>r. if sr_id r = i then (f r)\<lparr>sr_updated_at := now\<rparr> else r"
  have id: "sr_id (?g r) = sr_id r" for r using assms(2) by simp
  have img: "set (hm_map_values ?g (pg_secrets db)) = (\<lambda>(k, r). (k, ?g r)) ` set (pg_secrets db)"
    by (simp add: hm_map_values_def)
  have "sr_id ` snd ` set (hm_map_values ?g (pg_secrets db)) = sr_id ` snd ` set (pg_secrets db)"
    unfolding img image_image using id by (intro image_cong) (auto split: prod.split)
  moreover have "\<forall>(k, r) \<in> set (hm_map_values ?g (pg_secrets db)). sr_id r = sid \<longrightarrow> sr_rotation_status r \<noteq> ''none''"
  proof (intro ballI, clarify)
    fix t p r
    assume "((t, p), r) \<in> set (hm_map_values ?g (pg_secrets db))" and sid: "sid = sr_id r" and none: "sr_rotation_status r = ''none''"
    then obtain r0 where r0: "((t, p), r0) \<in> set (pg_secrets db)" "r = ?g r0" unfolding img by auto
    with none assms(3) [of r0] have "sr_rotation_status r0 = ''none''" by (auto split: if_splits)
    moreover have "sr_id r0 = sid" using id [of r0] r0(2) sid by simp
    ultimately show False using r0(1) assms(1) by (auto simp: settled_iff)
  qed
  ultimately show ?thesis using assms(1) by (simp add: settled_iff update_secret_def)
qed

lemma settled_insert:
  assumes "settled sid db" "sr_id r = sid \<Longrightarrow> sr_rotation_status r \<noteq> ''none''"
    and "\<And>old. hm_get (pg_secrets db) k = Some old \<Longrightarrow> sr_id r = sr_id old"
  shows "settled sid (db\<lparr>pg_secrets := hm_insert k r (pg_secrets db)\<rparr>)"
proof -
  from assms(1) obtain k0 r0 where r0: "(k0, r0) \<in> set (pg_secrets db)" "sr_id r0 = sid"
    by (auto simp: settled_iff)
  have "sid \<in> sr_id ` snd ` set (hm_insert k r (pg_secrets db))"
    using update_ids [OF r0(1), where h = sr_id, of k r] assms(3) r0(2) by simp
  moreover have "\<forall>(k', r') \<in> set (hm_insert k r (pg_secrets db)). sr_id r' = sid \<longrightarrow> sr_rotation_status r' \<noteq> ''none''"
    using assms(1,2) by (auto simp: settled_iff dest: update_entries)
  ultimately show ?thesis by (simp add: settled_iff)
qed

lemma settled_upsert:
  assumes "settled sid db" "vault_upsert_secret now i t p eng c d cas mv req md lp db = Inr (db', sid', n)"
  shows "settled sid db'"
proof -
  let ?row = "upsert_secret_row now i t p eng mv req md lp (hm_get (pg_secrets db) (t, p))"
  have fresh: "hm_get (pg_secrets db) (t, p) = None \<Longrightarrow> row_of db i = None"
    using assms(2) by (auto simp: vault_upsert_secret_def Let_def split: if_splits)
  have 1: "settled sid (db\<lparr>pg_secrets := hm_insert (t, p) ?row (pg_secrets db)\<rparr>)"
  proof (rule settled_insert [OF assms(1)])
    show "sr_id ?row = sr_id old" if "hm_get (pg_secrets db) (t, p) = Some old" for old
      using that by (simp add: upsert_secret_row_def Let_def)
    assume id: "sr_id ?row = sid"
    show "sr_rotation_status ?row \<noteq> ''none''"
    proof (cases "hm_get (pg_secrets db) (t, p)")
      case None
      then have "sr_id ?row = i" by (simp add: upsert_secret_row_def Let_def)
      with fresh [OF None] id assms(1) show ?thesis by (simp add: settled_def)
    next
      case (Some old)
      then have "((t, p), old) \<in> set (pg_secrets db)" by (rule map_of_SomeD)
      with id Some assms(1) show ?thesis by (auto simp: settled_iff upsert_secret_row_def Let_def)
    qed
  qed
  from assms(2) 1 show ?thesis
    by (simp only: vault_upsert_secret_def Let_def split: if_splits)
      (auto simp: result_iff insert_version_def intro!: settled_update_secret split: if_splits)
qed

lemma settled_initiate:
  "vault_initiate_rotation now i t p c d b w to db = Inr (db', rid, n) \<Longrightarrow> settled sid db \<Longrightarrow> settled sid db'"
  by (auto simp: vault_initiate_rotation_def Let_def result_iff insert_version_def
      intro!: settled_update_secret split: if_splits)

lemma settled_confirm: "vault_confirm_rotation now rid b db = Inr (db', vo, vn, g) \<Longrightarrow> settled sid db \<Longrightarrow> settled sid db'"
  by (auto simp: vault_confirm_rotation_def Let_def result_iff update_versions_def intro!: settled_update_secret)

lemma settled_rollback: "vault_rollback_secret now t p v b db = Inr (db', n) \<Longrightarrow> settled sid db \<Longrightarrow> settled sid db'"
  by (auto simp: vault_rollback_secret_def Let_def result_iff insert_version_def update_versions_def
      intro!: settled_update_secret split: if_splits)

lemma settled_pg_step: "pg_step db db' \<Longrightarrow> settled sid db \<Longrightarrow> settled sid db'"
proof (induction rule: pg_step.induct)
  case (step_revoke db now k)
  then show ?case by (rule settled_same_secrets)
    (simp add: vault_revoke_deprecated_versions_def Let_def update_versions_def)
qed (auto intro: settled_upsert settled_initiate settled_confirm settled_rollback settled_same_secrets
      simp: vault_soft_delete_versions_def vault_destroy_versions_def Let_def update_versions_def)

lemma settled_mark: "settled sid db \<Longrightarrow> settled sid (mark_rotation_pending now i db)"
  unfolding mark_rotation_pending_def by (rule settled_update_secret) simp_all

definition ids :: "pg_db \<Rightarrow> string set" where
  "ids db = sr_id ` snd ` set (pg_secrets db)"

lemma ids_mark [simp]: "ids (mark_rotation_pending now i db) = ids db"
  by (auto simp: ids_def mark_rotation_pending_def update_secret_def hm_map_values_def image_image
      split: prod.split intro!: image_cong)

lemma mark_status:
  assumes "(k, r) \<in> set (pg_secrets (mark_rotation_pending now i db))" "sr_id r = i"
  shows "sr_rotation_status r = ''pending''"
proof -
  let ?g = "\<lambda>r. if sr_id r = i then (r\<lparr>sr_rotation_status := ''pending''\<rparr>)\<lparr>sr_updated_at := now\<rparr> else r"
  have "(k, r) \<in> (\<lambda>(k, r). (k, ?g r)) ` set (pg_secrets db)"
    using assms(1) by (simp add: mark_rotation_pending_def update_secret_def hm_map_values_def)
  then obtain r0 where "r = ?g r0" by auto
  with assms(2) show ?thesis by (cases "sr_id r0 = i") simp_all
qed

lemma mark_settles:
  assumes "i \<in> ids db"
  shows "settled i (mark_rotation_pending now i db)"
proof -
  have "i \<in> sr_id ` snd ` set (pg_secrets (mark_rotation_pending now i db))"
    using assms ids_mark [of now i db] by (simp add: ids_def)
  moreover have "\<forall>(k, r) \<in> set (pg_secrets (mark_rotation_pending now i db)). sr_id r = i \<longrightarrow> sr_rotation_status r \<noteq> ''none''"
  proof (intro ballI, unfold split_beta, rule impI)
    fix x assume "x \<in> set (pg_secrets (mark_rotation_pending now i db))" "sr_id (snd x) = i"
    then have "sr_rotation_status (snd x) = ''pending''" using mark_status [of "fst x" "snd x"] by simp
    then show "sr_rotation_status (snd x) \<noteq> ''none''" by simp
  qed
  ultimately show ?thesis unfolding settled_iff by simp
qed

lemma sweep_fold:
  assumes "\<forall>d \<in> set ds. ds_id d \<in> ids (fst acc)" "\<forall>(i, p) \<in> set (snd acc). io_mark_ok io i \<longrightarrow> settled i (fst acc)"
  shows "let acc' = fold (sweep_secret config io now) ds acc in
    (\<forall>(i, p) \<in> set (snd acc'). io_mark_ok io i \<longrightarrow> settled i (fst acc')) \<and>
    (\<forall>sid. settled sid (fst acc) \<longrightarrow> settled sid (fst acc'))"
  using assms
proof (induction ds arbitrary: acc)
  case (Cons d ds)
  let ?acc = "sweep_secret config io now d acc"
  have "ids (fst ?acc) = ids (fst acc)" by (simp add: sweep_secret_def Let_def split: option.split)
  then have 1: "\<forall>d \<in> set ds. ds_id d \<in> ids (fst ?acc)" using Cons.prems(1) by simp
  have keep: "settled sid (fst acc) \<Longrightarrow> settled sid (fst ?acc)" for sid
    by (simp add: sweep_secret_def Let_def settled_mark split: option.split)
  have "settled (ds_id d) (mark_rotation_pending now (ds_id d) (fst acc))"
    using mark_settles Cons.prems(1) by simp
  then have 2: "\<forall>(i, p) \<in> set (snd ?acc). io_mark_ok io i \<longrightarrow> settled i (fst ?acc)"
    using Cons.prems(2) keep by (auto simp: sweep_secret_def Let_def settled_mark split: option.splits if_splits)
  from Cons.IH [OF 1 2] keep show ?case by (auto simp: Let_def)
qed (simp add: Let_def)

lemma run_sweep_settles:
  assumes "run_rotation_sweep config io now db = (db', sent)"
  shows "(i, p) \<in> set sent \<Longrightarrow> io_mark_ok io i \<Longrightarrow> settled i db'" "settled sid db \<Longrightarrow> settled sid db'"
proof -
  have "\<forall>d \<in> set (due_secrets now db). ds_id d \<in> ids (fst (db, [] :: (string \<times> webhook_payload) list))"
    by (auto simp: due_secrets_def ids_def)
  from sweep_fold [OF this, of io config now] assms
  have "(\<forall>(i, p) \<in> set sent. io_mark_ok io i \<longrightarrow> settled i db') \<and> (\<forall>sid. settled sid db \<longrightarrow> settled sid db')"
    by (auto simp: run_rotation_sweep_def Let_def split: if_splits)
  then show "(i, p) \<in> set sent \<Longrightarrow> io_mark_ok io i \<Longrightarrow> settled i db'" "settled sid db \<Longrightarrow> settled sid db'" by auto
qed

text \<open>A secret whose mark cannot be written keeps its row, and what was sent was due.\<close>

lemma sweep_fold_unmarked:
  assumes "(k, r) \<in> set (pg_secrets (fst acc))" "\<not> io_mark_ok io (sr_id r)"
  shows "(k, r) \<in> set (pg_secrets (fst (fold (sweep_secret config io now) ds acc)))"
  using assms
proof (induction ds arbitrary: acc)
  case (Cons d ds)
  have "(k, r) \<in> set (pg_secrets (fst (sweep_secret config io now d acc)))"
    using Cons.prems
    by (force simp: sweep_secret_def Let_def mark_rotation_pending_def update_secret_def hm_map_values_def split: option.split)
  with Cons.IH Cons.prems(2) show ?case by simp
qed simp

lemma sweep_fold_sent:
  "fst ` set (snd (fold (sweep_secret config io now) ds acc)) \<subseteq> fst ` set (snd acc) \<union> ds_id ` set ds"
proof (induction ds arbitrary: acc)
  case (Cons d ds)
  have "fst ` set (snd (sweep_secret config io now d acc)) \<subseteq> fst ` set (snd acc) \<union> {ds_id d}"
    by (auto simp: sweep_secret_def Let_def split: option.split)
  with Cons.IH [of "sweep_secret config io now d acc"] show ?case by auto
qed simp

lemma unmarked_stays_due:
  assumes "run_rotation_sweep config io now db = (db1, sent)" "(sid, payload) \<in> set sent"
    and "\<not> io_mark_ok io sid" "now \<le> later"
  shows "sid \<in> ds_id ` set (due_secrets later db1)"
proof -
  from assms(1,2) have db1: "db1 = fst (fold (sweep_secret config io now) (due_secrets now db) (db, []))"
      "(sid, payload) \<in> set (snd (fold (sweep_secret config io now) (due_secrets now db) (db, [])))"
    by (auto simp: run_rotation_sweep_def split: if_splits)
  then have "sid \<in> ds_id ` set (due_secrets now db)"
    using sweep_fold_sent [of config io now "due_secrets now db" "(db, [])"] by force
  then obtain k r where r: "(k, r) \<in> set (pg_secrets db)" "sr_id r = sid" "due_row now r"
    by (auto simp: due_secrets_def)
  then have "(k, r) \<in> set (pg_secrets db1)"
    using sweep_fold_unmarked [of k r "(db, [])" io] assms(3) by (simp add: db1(1))
  moreover have "due_row later r" using r(3) assms(4) by (auto simp: due_row_def split: option.splits)
  ultimately show ?thesis using r(2) by (force simp: due_secrets_def)
qed

lemma settled_rotation_step: "rotation_step db db' \<Longrightarrow> settled sid db \<Longrightarrow> settled sid db'"
proof (induction rule: rotation_step.induct)
  case (step_cleanup db now)
  then show ?case
    by (auto simp: run_version_cleanup_def intro: settled_pg_step [OF pg_step.step_revoke])
qed (auto intro: settled_pg_step run_sweep_settles(2))

lemma settled_rotation_steps: "rotation_step\<^sup>*\<^sup>* db db' \<Longrightarrow> settled sid db \<Longrightarrow> settled sid db'"
  by (induction rule: rtranclp_induct) (auto intro: settled_rotation_step)

lemma settled_not_due: "settled sid db \<Longrightarrow> sid \<notin> ds_id ` set (due_secrets now db)"
  by (auto simp: settled_iff due_secrets_def due_row_def)

section \<open>A secret to evaluate\<close>

definition demo_rotating :: pg_db where
  "demo_rotating = fst (projr (vault_upsert_secret 0 ''i'' ''t'' ''p'' ''kv_v2'' ''c'' ''d'' None 10 False []
     (default_lifecycle\<lparr>lp_secret_type := ''ROTATION_REQUIRED'', lp_rotation_interval := Some 1, lp_webhook_url := Some ''u''\<rparr>)
     pg_empty))"

section \<open>Properties\<close>

text \<open>C29. A secret is announced once in its life: after a sweep has delivered the webhook of a
  secret and recorded it, no later sweep finds that secret due, whatever happens in
  between: rotations that are initiated, confirmed and cleaned up, writes, rollbacks,
  further sweeps, and however many rotation intervals pass. If the record could not be
  written after the delivery, the secret is due again in the next sweep.\<close>

theorem rotation_notified_once:
  assumes "run_rotation_sweep config io now db = (db1, sent)" "(secret_id, payload) \<in> set sent"
  shows "if io_mark_ok io secret_id
         then \<forall>db2 later. rotation_step\<^sup>*\<^sup>* db1 db2 \<longrightarrow> secret_id \<notin> ds_id ` set (due_secrets later db2)
         else \<forall>later. now \<le> later \<longrightarrow> secret_id \<in> ds_id ` set (due_secrets later db1)"
  using settled_not_due [OF settled_rotation_steps [OF _ run_sweep_settles(1) [OF assms]]]
    unmarked_stays_due [OF assms] by simp

theorem rotation_notified_once_witness:
  "\<exists>db1 payload. run_rotation_sweep rotation_config_default
       \<lparr>io_rows_ok = True, io_deliver = (\<lambda>_ n. n = 2), io_mark_ok = (\<lambda>_. True)\<rparr> 2000000000 demo_rotating = (db1, [(''i'', payload)]) \<and>
     ''i'' \<notin> ds_id ` set (due_secrets 999000000000 (run_version_cleanup 5000000000 db1))"
proof -
  let ?io = "\<lparr>io_rows_ok = True, io_deliver = (\<lambda>_ n. n = 2), io_mark_ok = (\<lambda>_. True)\<rparr>"
  let ?r = "run_rotation_sweep rotation_config_default ?io 2000000000 demo_rotating"
  have "map fst (snd ?r) = [''i'']" by code_simp
  then obtain db1 payload where r: "?r = (db1, [(''i'', payload)])" by (cases ?r) auto
  have "rotation_step\<^sup>*\<^sup>* db1 (run_version_cleanup 5000000000 db1)"
    by (rule r_into_rtranclp) (rule step_cleanup)
  with rotation_notified_once [OF r, of "''i''" payload]
  have "''i'' \<notin> ds_id ` set (due_secrets 999000000000 (run_version_cleanup 5000000000 db1))"
    by simp
  with r show ?thesis by blast
qed

text \<open>C30. Delivery of a webhook ends: it makes at most as many attempts as configured (at least
  one), pauses fewer times than that and never more than 30 seconds, and reports success
  exactly when one of those attempts succeeded.\<close>

theorem webhook_retries_end:
  "\<exists>delivered pauses. dispatch_webhook_with_retry deliver max_retries = (delivered, pauses) \<and>
     (delivered \<longleftrightarrow> list_ex deliver [1..<Suc (max (unat max_retries) 1)]) \<and>
     length pauses < max (unat max_retries) 1 \<and> list_all (\<lambda>d. d \<le> 30) pauses"
proof -
  obtain r pauses where d: "dispatch_webhook_with_retry deliver max_retries = (r, pauses)"
    by (cases "dispatch_webhook_with_retry deliver max_retries")
  from retry_from_result [OF d [unfolded dispatch_webhook_with_retry_def]]
  have "(r \<longleftrightarrow> (\<exists>i. 1 \<le> i \<and> i \<le> max (unat max_retries) 1 \<and> deliver i)) \<and>
      length pauses \<le> max (unat max_retries) 1 - 1 \<and> (\<forall>d \<in> set pauses. d \<le> 30)" by simp
  with d show ?thesis by (auto simp: list_ex_iff list_all_iff less_Suc_eq_le max_def)
qed

end
