(* ===== verification/Envelope.thy ===== *)
theory Envelope
  imports Vault_Prelude
begin

text \<open>
  Envelope encryption (\<^verbatim>\<open>crates/wslvault-core/src/crypto/\<close>: \<^verbatim>\<open>envelope.rs\<close>,
  \<^verbatim>\<open>kdf.rs\<close>, \<^verbatim>\<open>nonce.rs\<close>). The cryptographic crates are not part of the repository:
  base64, AES-256-GCM, HKDF-SHA256 and hex enter as the fields of a record of
  functions, and \<open>crypto_ok\<close> states what their documentation promises. A draw from the
  system random number generator is an argument, \<^term>\<open>None\<close> where the generator fails.
\<close>

type_synonym bytes = "u8 list"

text \<open>\<^verbatim>\<open>str::as_bytes\<close>.\<close>

definition str_bytes :: "string \<Rightarrow> bytes" where
  "str_bytes s = map (\<lambda>c. of_nat (of_char c)) s"

record crypto_lib =
  b64_encode :: "bytes \<Rightarrow> string"
  b64_decode :: "string \<Rightarrow> string + bytes"
  gcm_encrypt :: "bytes \<Rightarrow> bytes \<Rightarrow> bytes \<Rightarrow> bytes \<Rightarrow> bytes option"
  gcm_decrypt :: "bytes \<Rightarrow> bytes \<Rightarrow> bytes \<Rightarrow> bytes \<Rightarrow> bytes option"
  hkdf_sha256 :: "bytes option \<Rightarrow> bytes \<Rightarrow> bytes \<Rightarrow> nat \<Rightarrow> bytes option"
  hex_encode :: "bytes \<Rightarrow> string"

section \<open>Operations\<close>

definition AES_GCM_NONCE_LEN :: nat where
  "AES_GCM_NONCE_LEN = 12"

definition generate_aes_gcm_nonce :: "bytes option \<Rightarrow> vault_error + bytes" where
  "generate_aes_gcm_nonce draw = ok_or (EncryptionFailed ''CSPRNG nonce generation failed'') draw"

record encrypted_envelope =
  env_ciphertext_b64 :: string
  env_nonce :: bytes

definition encrypt_with_dek ::
  "crypto_lib \<Rightarrow> bytes option \<Rightarrow> bytes \<Rightarrow> bytes \<Rightarrow> bytes \<Rightarrow> vault_error + encrypted_envelope" where
  "encrypt_with_dek lib draw dek plaintext aad =
     and_then (generate_aes_gcm_nonce draw) (\<lambda>nonce_bytes.
     and_then (ok_or (EncryptionFailed ''AES-256-GCM encryption failed'')
                 (gcm_encrypt lib dek nonce_bytes aad plaintext)) (\<lambda>ciphertext.
     Inr \<lparr>env_ciphertext_b64 = b64_encode lib (nonce_bytes @ ciphertext), env_nonce = nonce_bytes\<rparr>))"

definition decrypt_with_dek :: "crypto_lib \<Rightarrow> bytes \<Rightarrow> string \<Rightarrow> bytes \<Rightarrow> vault_error + bytes" where
  "decrypt_with_dek lib dek ciphertext_b64 aad =
     (case b64_decode lib ciphertext_b64 of
        Inl _ \<Rightarrow> Inl DecryptionFailed
      | Inr combined \<Rightarrow>
          if length combined < 12 then Inl DecryptionFailed
          else let nonce_bytes = take 12 combined; ciphertext = drop 12 combined
               in ok_or DecryptionFailed (gcm_decrypt lib dek nonce_bytes aad ciphertext))"

definition derive_key :: "crypto_lib \<Rightarrow> bytes \<Rightarrow> bytes option \<Rightarrow> bytes \<Rightarrow> vault_error + bytes" where
  "derive_key lib ikm salt info =
     ok_or (EncryptionFailed ''HKDF expand failed: output length exceeds max'')
       (hkdf_sha256 lib salt ikm info 32)"

section \<open>What the libraries promise\<close>

text \<open>
  Base64 decodes what it encodes, encodes nothing as nothing, and its alphabet has no
  white space. AES-GCM is a
  deterministic function of key, nonce, associated data and message, and decryption
  accepts a ciphertext exactly when its tag is the one encryption computes: it
  succeeds with a message if and only if encrypting that message gives the ciphertext.
  HKDF gives the number of bytes asked for.
\<close>

definition base64_ok :: "crypto_lib \<Rightarrow> bool" where
  "base64_ok lib \<longleftrightarrow>
     (\<forall>x. b64_decode lib (b64_encode lib x) = Inr x \<and> trim (b64_encode lib x) = b64_encode lib x \<and>
          (b64_encode lib x = [] \<longleftrightarrow> x = []))"

definition aead_ok :: "crypto_lib \<Rightarrow> bool" where
  "aead_ok lib \<longleftrightarrow>
     (\<forall>k n a m c. gcm_decrypt lib k n a c = Some m \<longleftrightarrow> gcm_encrypt lib k n a m = Some c)"

definition crypto_ok :: "crypto_lib \<Rightarrow> bool" where
  "crypto_ok lib \<longleftrightarrow> base64_ok lib \<and> aead_ok lib"

section \<open>Lemmas\<close>

lemma base64_ok_simps:
  assumes "base64_ok lib"
  shows "b64_decode lib (b64_encode lib x) = Inr x" "trim (b64_encode lib x) = b64_encode lib x"
    "b64_encode lib x = [] \<longleftrightarrow> x = []"
  using assms by (simp_all add: base64_ok_def)

lemma aead_ok_iff:
  "aead_ok lib \<Longrightarrow> gcm_decrypt lib k n a c = Some m \<longleftrightarrow> gcm_encrypt lib k n a m = Some c"
  by (simp add: aead_ok_def)

lemma decrypt_with_dek_Inr:
  assumes "aead_ok lib"
  shows "decrypt_with_dek lib dek s aad = Inr m \<longleftrightarrow>
           (\<exists>nonce c. length nonce = 12 \<and> b64_decode lib s = Inr (nonce @ c) \<and>
              gcm_encrypt lib dek nonce aad m = Some c)" (is "?l \<longleftrightarrow> ?r")
proof
  assume ?l
  then obtain combined where c: "b64_decode lib s = Inr combined" "\<not> length combined < 12"
      "gcm_decrypt lib dek (take 12 combined) aad (drop 12 combined) = Some m"
    by (auto simp: decrypt_with_dek_def Let_def result_iff split: sum.splits if_splits)
  with assms show ?r
    by (intro exI [of _ "take 12 combined"] exI [of _ "drop 12 combined"]) (simp add: aead_ok_iff)
next
  assume ?r
  with assms show ?l
    by (auto simp: decrypt_with_dek_def aead_ok_iff [symmetric])
qed

lemma encrypt_decrypt:
  assumes "crypto_ok lib" "length nonce = 12"
    and "encrypt_with_dek lib (Some nonce) dek m aad = Inr env"
  shows "decrypt_with_dek lib dek (env_ciphertext_b64 env) aad = Inr m"
proof -
  from assms(3) obtain c where "gcm_encrypt lib dek nonce aad m = Some c"
      "env_ciphertext_b64 env = b64_encode lib (nonce @ c)"
    by (auto simp: encrypt_with_dek_def generate_aes_gcm_nonce_def result_iff)
  with assms(1,2) show ?thesis
    by (auto simp: crypto_ok_def decrypt_with_dek_Inr base64_ok_simps)
qed

text \<open>The only error a decryption reports is the one that says nothing about the cause.\<close>

lemma decrypt_with_dek_Inl: "decrypt_with_dek lib dek s aad = Inl e \<Longrightarrow> e = DecryptionFailed"
  by (auto simp: decrypt_with_dek_def Let_def result_iff split: sum.splits if_splits)

section \<open>A library that keeps the promises\<close>

text \<open>
  A stand-in for the crates, used only to show that the hypotheses can hold together:
  each byte is written as two letters, and a ciphertext carries its key, nonce and
  associated data as its tag.
\<close>

definition nibble_char :: "nat \<Rightarrow> char" where
  "nibble_char d = char_of (97 + d)"

fun demo_b64_encode :: "bytes \<Rightarrow> string" where
  "demo_b64_encode [] = []"
| "demo_b64_encode (b # bs) =
     nibble_char (unat b div 16) # nibble_char (unat b mod 16) # demo_b64_encode bs"

fun demo_b64_decode :: "string \<Rightarrow> string + bytes" where
  "demo_b64_decode [] = Inr []"
| "demo_b64_decode [_] = Inl ''odd length''"
| "demo_b64_decode (c # d # s) =
     and_then (demo_b64_decode s) (\<lambda>bs. Inr (of_nat (16 * (of_char c - 97) + (of_char d - 97)) # bs))"

definition demo_gcm_encrypt :: "bytes \<Rightarrow> bytes \<Rightarrow> bytes \<Rightarrow> bytes \<Rightarrow> bytes option" where
  "demo_gcm_encrypt k n a m = Some (m @ k @ n @ a)"

definition demo_gcm_decrypt :: "bytes \<Rightarrow> bytes \<Rightarrow> bytes \<Rightarrow> bytes \<Rightarrow> bytes option" where
  "demo_gcm_decrypt k n a c =
     (let t = k @ n @ a; l = length c - length t in
      if length t \<le> length c \<and> drop l c = t then Some (take l c) else None)"

definition demo_lib :: crypto_lib where
  "demo_lib = \<lparr>b64_encode = demo_b64_encode, b64_decode = demo_b64_decode,
     gcm_encrypt = demo_gcm_encrypt, gcm_decrypt = demo_gcm_decrypt,
     hkdf_sha256 = (\<lambda>salt ikm info n. Some (take n (ikm @ info @ replicate n 0))),
     hex_encode = demo_b64_encode\<rparr>"

lemma demo_lib_simps [simp]:
  "b64_encode demo_lib = demo_b64_encode" "b64_decode demo_lib = demo_b64_decode"
  "gcm_encrypt demo_lib k n a m = Some (m @ k @ n @ a)" "gcm_decrypt demo_lib = demo_gcm_decrypt"
  "hkdf_sha256 demo_lib salt ikm info l = Some (take l (ikm @ info @ replicate l 0))"
  "hex_encode demo_lib = demo_b64_encode"
  by (simp_all add: demo_lib_def demo_gcm_encrypt_def)

lemma demo_b64_roundtrip [simp]: "demo_b64_decode (demo_b64_encode x) = Inr x"
proof (induction x)
  case (Cons b bs)
  have "unat b < 256" using unsigned_less [of b, where 'a = nat] by simp
  then have d: "unat b div 16 < 16" by simp
  have c: "of_char (nibble_char k) - 97 = k" if "k < 16" for k
    using that by (simp add: nibble_char_def)
  have "of_nat (16 * (unat b div 16) + unat b mod 16) = b"
    by (simp only: mult_div_mod_eq) simp
  with Cons show ?case by (simp add: c d)
qed simp

lemma demo_b64_chars: "c \<in> set (demo_b64_encode x) \<Longrightarrow> \<not> is_whitespace c"
proof (induction x)
  case (Cons b bs)
  have "unat b < 256" using unsigned_less [of b, where 'a = nat] by simp
  then have d: "unat b div 16 < 16" by simp
  have c: "\<not> is_whitespace (nibble_char k)" if "k < 16" for k
  proof -
    have "97 \<le> (of_char (nibble_char k) :: nat)" "(of_char (nibble_char k) :: nat) < 113"
      using that by (simp_all add: nibble_char_def)
    then show ?thesis by (auto simp: is_whitespace_def)
  qed
  from Cons d c show ?case by auto
qed simp

lemma demo_lib_ok: "crypto_ok demo_lib"
proof -
  have "trim (demo_b64_encode x) = demo_b64_encode x" for x
    unfolding trim_def
    using demo_b64_chars [of _ x] by (intro trim_where_id) auto
  moreover have "demo_b64_encode x = [] \<longleftrightarrow> x = []" for x by (cases x) simp_all
  ultimately have "base64_ok demo_lib"
    by (simp add: base64_ok_def)
  moreover have "demo_gcm_decrypt k n a c = Some m \<longleftrightarrow> c = m @ k @ n @ a" for k n a m c
  proof
    assume "demo_gcm_decrypt k n a c = Some m"
    then have "m = take (length c - length (k @ n @ a)) c"
        "k @ n @ a = drop (length c - length (k @ n @ a)) c"
      by (simp_all add: demo_gcm_decrypt_def Let_def split: if_splits)
    then show "c = m @ k @ n @ a" by (metis append_take_drop_id)
  qed (simp add: demo_gcm_decrypt_def)
  then have "aead_ok demo_lib"
    by (auto simp: aead_ok_def)
  ultimately show ?thesis by (simp add: crypto_ok_def)
qed

lemma demo_other_key:
  assumes "length n = 12" "length k' = length k" "k' \<noteq> k"
  shows "isl (decrypt_with_dek demo_lib k' (demo_b64_encode (n @ m @ k @ n @ a)) a)"
proof -
  have "decrypt_with_dek demo_lib k' (demo_b64_encode (n @ m @ k @ n @ a)) a \<noteq> Inr m'" for m'
  proof
    assume "decrypt_with_dek demo_lib k' (demo_b64_encode (n @ m @ k @ n @ a)) a = Inr m'"
    with demo_lib_ok obtain n' where "length n' = 12" "n @ m @ k @ n @ a = n' @ m' @ k' @ n' @ a"
      by (auto simp: crypto_ok_def decrypt_with_dek_Inr demo_b64_roundtrip)
    with assms show False by simp
  qed
  then show ?thesis by (cases "decrypt_with_dek demo_lib k' (demo_b64_encode (n @ m @ k @ n @ a)) a") auto
qed

section \<open>Properties\<close>

text \<open>Envelopes open for exactly one key, associated data and plaintext: decrypting a
  stored string gives a plaintext if and only if the string decodes to a 12-byte nonce
  followed by the encryption of that plaintext under the same key, nonce and associated
  data. Every other string, including one moved to another path or tenant, gives the
  single error \<^const>\<open>DecryptionFailed\<close>.\<close>

theorem envelope_exact:
  assumes "crypto_ok lib"
  shows "(decrypt_with_dek lib dek s aad = Inr m \<longleftrightarrow>
           (\<exists>nonce c. length nonce = 12 \<and> b64_decode lib s = Inr (nonce @ c) \<and>
              gcm_encrypt lib dek nonce aad m = Some c)) \<and>
         (decrypt_with_dek lib dek s aad = Inl e \<longrightarrow> e = DecryptionFailed)"
  using assms decrypt_with_dek_Inr [of lib dek s aad m] decrypt_with_dek_Inl [of lib dek s aad e]
  by (simp add: crypto_ok_def)

theorem envelope_exact_witness:
  "crypto_ok demo_lib \<and>
   decrypt_with_dek demo_lib (replicate 32 7) (demo_b64_encode (replicate 12 1 @ [104] @ replicate 32 7 @
     replicate 12 1 @ [116])) [116] = Inr [104]"
proof -
  let ?s = "demo_b64_encode (replicate 12 1 @ [104] @ replicate 32 7 @ replicate 12 1 @ [116])"
  have "demo_b64_decode ?s = Inr (replicate 12 1 @ ([104] @ replicate 32 7 @ replicate 12 1 @ [116]))"
    by (rule demo_b64_roundtrip)
  then have "\<exists>nonce c. length nonce = 12 \<and> b64_decode demo_lib ?s = Inr (nonce @ c) \<and>
      gcm_encrypt demo_lib (replicate 32 7) nonce [116] [104] = Some c"
    by (intro exI [of _ "replicate 12 1"]
        exI [of _ "[104] @ replicate 32 7 @ replicate 12 1 @ [116]"] conjI)
      (simp_all only: length_replicate demo_lib_simps)
  with demo_lib_ok envelope_exact [OF demo_lib_ok, of "replicate 32 7" ?s "[116]" "[104]"]
  show ?thesis by blast
qed

text \<open>C15. Round trip: whatever key, plaintext and associated data are encrypted, if the
  encryption succeeds then decrypting its result gives the plaintext back.\<close>

theorem envelope_roundtrip:
  assumes "crypto_ok lib" and "length nonce = AES_GCM_NONCE_LEN"
    and "encrypt_with_dek lib (Some nonce) dek m aad = Inr env"
  shows "decrypt_with_dek lib dek (env_ciphertext_b64 env) aad = Inr m \<and>
         (\<forall>m'. decrypt_with_dek lib dek (env_ciphertext_b64 env) aad' = Inr m' \<longrightarrow>
            gcm_encrypt lib dek nonce aad' m' = gcm_encrypt lib dek nonce aad m)"
proof -
  have len: "length nonce = 12" using assms(2) by (simp add: AES_GCM_NONCE_LEN_def)
  from assms(3) obtain c where c: "gcm_encrypt lib dek nonce aad m = Some c"
      "env_ciphertext_b64 env = b64_encode lib (nonce @ c)"
    by (auto simp: encrypt_with_dek_def generate_aes_gcm_nonce_def result_iff)
  have "gcm_encrypt lib dek nonce aad' m' = Some c"
    if "decrypt_with_dek lib dek (env_ciphertext_b64 env) aad' = Inr m'" for m'
  proof -
    from that assms(1) c(2) obtain n' c' where "length n' = 12" "nonce @ c = n' @ c'"
        "gcm_encrypt lib dek n' aad' m' = Some c'"
      by (auto simp: crypto_ok_def decrypt_with_dek_Inr base64_ok_simps)
    with len show ?thesis by simp
  qed
  with encrypt_decrypt [OF assms(1) len assms(3)] c show ?thesis by simp
qed

theorem envelope_roundtrip_witness:
  "decrypt_with_dek demo_lib (replicate 32 7)
     (env_ciphertext_b64 (projr (encrypt_with_dek demo_lib (Some (replicate 12 1)) (replicate 32 7) [104, 105] [116])))
     [116] = Inr [104, 105]"
  using envelope_roundtrip [OF demo_lib_ok, of "replicate 12 1" "replicate 32 7" "[104, 105]" "[116]"
      "projr (encrypt_with_dek demo_lib (Some (replicate 12 1)) (replicate 32 7) [104, 105] [116])" "[]"]
  by (simp add: AES_GCM_NONCE_LEN_def encrypt_with_dek_def generate_aes_gcm_nonce_def)

end
