(* ===== verification/Seal.thy ===== *)
theory Seal
  imports Envelope
begin

text \<open>
  The seal (\<^verbatim>\<open>crates/wslvault-core/src/seal.rs\<close>), its persistence
  (\<^verbatim>\<open>crates/wslvault-storage/src/seal_store.rs\<close>) and the operator endpoints
  (\<^verbatim>\<open>services/crypto-service/src/sys.rs\<close>).

  The Shamir crate is a record of functions over its opaque share type. Every method
  of \<^verbatim>\<open>Seal\<close> but \<^verbatim>\<open>init\<close> runs under one lock and is one function on the inner state;
  \<^verbatim>\<open>init\<close> tests under a read lock, generates without a lock and stores under a write
  lock, and is composed of those three parts.
\<close>

section \<open>Data\<close>

record 'sh sharks_lib =
  share_try_from :: "bytes \<Rightarrow> string + 'sh"
  share_to_bytes :: "'sh \<Rightarrow> bytes"
  share_size :: "'sh \<Rightarrow> nat"
  sharks_dealer :: "u8 \<Rightarrow> bytes \<Rightarrow> nat \<Rightarrow> nat \<Rightarrow> 'sh list"
  sharks_recover :: "u8 \<Rightarrow> 'sh list \<Rightarrow> string + bytes"

definition SEAL_AAD :: bytes where
  "SEAL_AAD = str_bytes ''wslvault:seal:root-key:v1''"

definition CHECK_INFO :: bytes where
  "CHECK_INFO = str_bytes ''wslvault:seal:unseal-key-check:v1''"

record init_result =
  ir_shares :: "string list"
  ir_threshold :: u8

record seal_material =
  sm_shares :: u8
  sm_threshold :: u8
  sm_sealed_root_key :: string
  sm_unseal_key_check :: string

record seal_status =
  st_sealed :: bool
  st_initialized :: bool
  st_threshold :: u8
  st_shares :: u8
  st_progress :: u8

record seal_inner =
  si_material :: "seal_material option"
  si_root_key :: "bytes option"
  si_pending :: "bytes list"

text \<open>The random values one initialisation draws, in order, and the dealer's randomness.\<close>

record seal_draws =
  sd_root :: "bytes option"
  sd_unseal :: "bytes option"
  sd_nonce :: "bytes option"
  sd_seed :: nat

section \<open>The seal\<close>

definition seal_new :: seal_inner where
  "seal_new = \<lparr>si_material = None, si_root_key = None, si_pending = []\<rparr>"

definition seal_load :: "seal_material \<Rightarrow> seal_inner \<Rightarrow> seal_inner" where
  "seal_load material inner =
     inner\<lparr>si_material := Some material, si_root_key := None, si_pending := []\<rparr>"

definition unseal_with_root_key :: "bytes \<Rightarrow> seal_inner \<Rightarrow> seal_inner" where
  "unseal_with_root_key root_key inner = inner\<lparr>si_root_key := Some root_key, si_pending := []\<rparr>"

definition status_of :: "seal_inner \<Rightarrow> seal_material option \<Rightarrow> seal_status" where
  "status_of inner material =
     \<lparr>st_sealed = (si_root_key inner = None),
      st_initialized = (material \<noteq> None),
      st_threshold = (case material of Some m \<Rightarrow> sm_threshold m | None \<Rightarrow> 0),
      st_shares = (case material of Some m \<Rightarrow> sm_shares m | None \<Rightarrow> 0),
      st_progress = of_nat (length (si_pending inner))\<rparr>"

definition check_value :: "crypto_lib \<Rightarrow> bytes \<Rightarrow> vault_error + string" where
  "check_value lib unseal_key =
     and_then (derive_key lib unseal_key None CHECK_INFO) (\<lambda>derived. Inr (hex_encode lib derived))"

definition random_32 :: "bytes option \<Rightarrow> vault_error + bytes" where
  "random_32 draw =
     ok_or (EncryptionFailed ''CSPRNG failed while generating seal key material'') draw"

definition seal_init_check :: "u8 \<Rightarrow> u8 \<Rightarrow> seal_inner \<Rightarrow> vault_error + unit" where
  "seal_init_check shares threshold inner =
     (if threshold = 0 \<or> shares = 0 then
        Inl (ValidationError ''threshold'' ''shares and threshold must both be at least 1'')
      else if threshold > shares then
        Inl (ValidationError ''threshold''
          (''threshold '' @ show_nat (unat threshold) @ '' exceeds shares '' @ show_nat (unat shares)))
      else if si_material inner \<noteq> None then
        Inl (ValidationError ''seal''
          ''vault is already initialized; re-initialising would orphan every key encrypted under the current root key'')
      else Inr ())"

definition seal_init_generate ::
  "crypto_lib \<Rightarrow> 'sh sharks_lib \<Rightarrow> seal_draws \<Rightarrow> u8 \<Rightarrow> u8 \<Rightarrow> vault_error + init_result \<times> seal_material" where
  "seal_init_generate lib sharks draws shares threshold =
     and_then (random_32 (sd_root draws)) (\<lambda>root_key.
     and_then (random_32 (sd_unseal draws)) (\<lambda>unseal_key.
     and_then (encrypt_with_dek lib (sd_nonce draws) unseal_key root_key SEAL_AAD) (\<lambda>env.
     and_then (check_value lib unseal_key) (\<lambda>unseal_key_check.
     Inr (\<lparr>ir_shares = map (\<lambda>s. b64_encode lib (share_to_bytes sharks s))
              (sharks_dealer sharks threshold unseal_key (sd_seed draws) (unat shares)),
           ir_threshold = threshold\<rparr>,
          \<lparr>sm_shares = shares, sm_threshold = threshold,
           sm_sealed_root_key = env_ciphertext_b64 env,
           sm_unseal_key_check = unseal_key_check\<rparr>)))))"

definition seal_init_commit :: "seal_material \<Rightarrow> seal_inner \<Rightarrow> seal_inner" where
  "seal_init_commit material inner =
     inner\<lparr>si_material := Some material, si_root_key := None, si_pending := []\<rparr>"

definition seal_init ::
  "crypto_lib \<Rightarrow> 'sh sharks_lib \<Rightarrow> seal_draws \<Rightarrow> u8 \<Rightarrow> u8 \<Rightarrow> seal_inner \<Rightarrow>
   seal_inner \<times> (vault_error + init_result \<times> seal_material)" where
  "seal_init lib sharks draws shares threshold inner =
     (case and_then (seal_init_check shares threshold inner)
             (\<lambda>_. seal_init_generate lib sharks draws shares threshold) of
        Inl e \<Rightarrow> (inner, Inl e)
      | Inr (result, material) \<Rightarrow> (seal_init_commit material inner, Inr (result, material)))"

definition parse_shares :: "'sh sharks_lib \<Rightarrow> bytes list \<Rightarrow> 'sh list" where
  "parse_shares sharks raws =
     List.map_filter (\<lambda>r. case share_try_from sharks r of Inr s \<Rightarrow> Some s | Inl _ \<Rightarrow> None) raws"

definition decode_share :: "crypto_lib \<Rightarrow> 'sh sharks_lib \<Rightarrow> string \<Rightarrow> vault_error + bytes" where
  "decode_share lib sharks share_b64 =
     (case b64_decode lib (trim share_b64) of
        Inl e \<Rightarrow> Inl (ValidationError ''share'' (''share is not valid base64: '' @ e))
      | Inr raw \<Rightarrow>
          (case share_try_from sharks raw of
             Inl e \<Rightarrow> Inl (ValidationError ''share'' (''share is malformed: '' @ e))
           | Inr _ \<Rightarrow> Inr raw))"

text \<open>The part of \<^verbatim>\<open>unseal\<close> after the threshold is reached.\<close>

definition reconstruct ::
  "crypto_lib \<Rightarrow> 'sh sharks_lib \<Rightarrow> seal_material \<Rightarrow> seal_inner \<Rightarrow> seal_inner \<times> (vault_error + seal_status)" where
  "reconstruct lib sharks material inner =
     (case sharks_recover sharks (sm_threshold material) (parse_shares sharks (si_pending inner)) of
        Inl e \<Rightarrow> (inner, Inl (ValidationError ''share'' (''could not reconstruct the unseal key: '' @ e)))
      | Inr unseal_key \<Rightarrow>
          if length unseal_key \<noteq> 32 then
            (inner\<lparr>si_pending := []\<rparr>,
             Inl (ValidationError ''share'' ''reconstructed unseal key has the wrong length''))
          else
            (case check_value lib unseal_key of
               Inl e \<Rightarrow> (inner, Inl e)
             | Inr check \<Rightarrow>
                 if check \<noteq> sm_unseal_key_check material then
                   (inner\<lparr>si_pending := []\<rparr>,
                    Inl (ValidationError ''share''
                      (''the supplied shares do not reconstruct this vault'' @ [CHR 0x27] @ ''s unseal key'')))
                 else
                   (case decrypt_with_dek lib unseal_key (sm_sealed_root_key material) SEAL_AAD of
                      Inl _ \<Rightarrow> (inner, Inl (Internal
                        ''sealed root key failed to decrypt under a verified unseal key; the stored material is corrupt''))
                    | Inr plaintext \<Rightarrow>
                        if length plaintext \<noteq> 32 then
                          (inner, Inl (Internal ''unsealed root key has the wrong length''))
                        else
                          let inner' = inner\<lparr>si_root_key := Some plaintext, si_pending := []\<rparr>
                          in (inner', Inr (status_of inner' (Some material))))))"

definition unseal ::
  "crypto_lib \<Rightarrow> 'sh sharks_lib \<Rightarrow> string \<Rightarrow> seal_inner \<Rightarrow> seal_inner \<times> (vault_error + seal_status)" where
  "unseal lib sharks share_b64 inner =
     (case si_material inner of
        None \<Rightarrow> (inner, Inl (ValidationError ''seal'' ''vault is not initialized''))
      | Some material \<Rightarrow>
          if si_root_key inner \<noteq> None then (inner, Inr (status_of inner (Some material)))
          else
            (case decode_share lib sharks share_b64 of
               Inl e \<Rightarrow> (inner, Inl e)
             | Inr raw \<Rightarrow>
                 if raw \<in> set (si_pending inner) then (inner, Inr (status_of inner (Some material)))
                 else
                   let inner' = inner\<lparr>si_pending := si_pending inner @ [raw]\<rparr> in
                   if (of_nat (length (si_pending inner')) :: u8) < sm_threshold material
                   then (inner', Inr (status_of inner' (Some material)))
                   else reconstruct lib sharks material inner'))"

definition do_seal :: "seal_inner \<Rightarrow> seal_inner" where
  "do_seal inner = inner\<lparr>si_root_key := None, si_pending := []\<rparr>"

definition reset_unseal_progress :: "seal_inner \<Rightarrow> seal_inner" where
  "reset_unseal_progress inner = inner\<lparr>si_pending := []\<rparr>"

definition seal_status_now :: "seal_inner \<Rightarrow> seal_status" where
  "seal_status_now inner = status_of inner (si_material inner)"

definition is_unsealed :: "seal_inner \<Rightarrow> bool" where
  "is_unsealed inner \<longleftrightarrow> si_root_key inner \<noteq> None"

definition root_key :: "seal_inner \<Rightarrow> vault_error + bytes" where
  "root_key inner = (case si_root_key inner of Some k \<Rightarrow> Inr k | None \<Rightarrow> Inl Sealed)"

section \<open>The operator endpoints\<close>

text \<open>
  The row of \<^verbatim>\<open>system.seal_config\<close> is \<open>db_row\<close>; a failing database is the argument
  \<open>db_fault\<close> of the calls that use it. An error body is the text in front of the
  displayed \<^typ>\<open>vault_error\<close>, or plain text.
\<close>

record sys_state =
  sy_seal :: seal_inner
  sy_pool :: bool
  sy_db_row :: "seal_material option"

datatype sys_response =
    SysText nat string
  | SysError nat string vault_error
  | SysInit nat "string list" u8
  | SysStatus nat seal_status
  | SysStatusWarning nat seal_status vault_error

definition save_initial ::
  "string option \<Rightarrow> seal_material option \<Rightarrow> seal_material \<Rightarrow> seal_material option \<times> (vault_error + unit)" where
  "save_initial db_fault row material =
     (case db_fault of
        Some e \<Rightarrow> (row, Inl (Database (''could not persist the seal configuration: '' @ e)))
      | None \<Rightarrow>
          (case row of
             Some _ \<Rightarrow> (row, Inl (ValidationError ''seal''
               ''vault is already initialized; refusing to replace the root key''))
           | None \<Rightarrow> (Some material, Inr ())))"

definition seal_store_load ::
  "string option \<Rightarrow> seal_material option \<Rightarrow> vault_error + seal_material option" where
  "seal_store_load db_fault row =
     (case db_fault of
        Some e \<Rightarrow> Inl (Database (''could not read the seal configuration: '' @ e))
      | None \<Rightarrow> Inr row)"

definition default_shares :: u8 where
  "default_shares = 5"

definition default_threshold :: u8 where
  "default_threshold = 3"

definition sys_seal_status :: "sys_state \<Rightarrow> sys_response" where
  "sys_seal_status st = SysStatus 200 (seal_status_now (sy_seal st))"

definition sys_init ::
  "crypto_lib \<Rightarrow> 'sh sharks_lib \<Rightarrow> seal_draws \<Rightarrow> string option \<Rightarrow> (u8 \<times> u8) option \<Rightarrow> sys_state \<Rightarrow>
   sys_state \<times> sys_response" where
  "sys_init lib sharks draws db_fault body st =
     (let (shares, threshold) = (case body of Some b \<Rightarrow> b | None \<Rightarrow> (default_shares, default_threshold)) in
      if \<not> sy_pool st then
        (st, SysText 412 ''cannot initialize without DATABASE_URL: the sealed root key has nowhere to live'')
      else
        (case seal_init lib sharks draws shares threshold (sy_seal st) of
           (inner, Inl e) \<Rightarrow> (st\<lparr>sy_seal := inner\<rparr>, SysError 400 [] e)
         | (inner, Inr (result, material)) \<Rightarrow>
             (case save_initial db_fault (sy_db_row st) material of
                (row, Inl e) \<Rightarrow>
                  (st\<lparr>sy_seal := do_seal inner, sy_db_row := row\<rparr>,
                   SysError 500 ''seal configuration could not be stored, vault is NOT initialized: '' e)
              | (row, Inr _) \<Rightarrow>
                  (st\<lparr>sy_seal := inner, sy_db_row := row\<rparr>,
                   SysInit 200 (ir_shares result) (ir_threshold result)))))"

text \<open>The result of warming the key caches is an argument.\<close>

definition sys_unseal ::
  "crypto_lib \<Rightarrow> 'sh sharks_lib \<Rightarrow> (vault_error + unit) \<Rightarrow> string \<Rightarrow> sys_state \<Rightarrow>
   sys_state \<times> sys_response" where
  "sys_unseal lib sharks warm_load key st =
     (let was_sealed = \<not> is_unsealed (sy_seal st) in
      case unseal lib sharks key (sy_seal st) of
        (inner, Inl e) \<Rightarrow> (st\<lparr>sy_seal := inner\<rparr>, SysError 400 [] e)
      | (inner, Inr status) \<Rightarrow>
          (st\<lparr>sy_seal := inner\<rparr>,
           (if was_sealed \<and> \<not> st_sealed status then
              (case warm_load of
                 Inl e \<Rightarrow> SysStatusWarning 200 status e
               | Inr _ \<Rightarrow> SysStatus 200 status)
            else SysStatus 200 status)))"

definition operator_token_ok :: "string option \<Rightarrow> string option \<Rightarrow> bool" where
  "operator_token_ok env header =
     (case env of
        None \<Rightarrow> True
      | Some expected \<Rightarrow>
          expected = [] \<or>
          (let presented = (case header of Some h \<Rightarrow> h | None \<Rightarrow> []) in
           length presented = length expected \<and> presented = expected))"

definition sys_seal :: "string option \<Rightarrow> string option \<Rightarrow> sys_state \<Rightarrow> sys_state \<times> sys_response" where
  "sys_seal env header st =
     (if operator_token_ok env header then
        let st' = st\<lparr>sy_seal := do_seal (sy_seal st)\<rparr>
        in (st', SysStatus 200 (seal_status_now (sy_seal st')))
      else (st, SysText 403 ''operator token required to seal''))"

text \<open>
  The choice \<^verbatim>\<open>main\<close> makes at start: stored material first, then the root key provider,
  whose selection and loading are arguments. The service does not start on an error.
\<close>

datatype startup_error =
    SealConfigUnreadable vault_error
  | ProviderNotSelected string
  | NoRootKeyNoDatabase string

definition startup_seal ::
  "bool \<Rightarrow> string option \<Rightarrow> seal_material option \<Rightarrow> (string + (string + bytes)) \<Rightarrow> startup_error + seal_inner" where
  "startup_seal pool db_fault row provider =
     (let legacy = (case provider of
                      Inl e \<Rightarrow> Inl (ProviderNotSelected e)
                    | Inr (Inr root_kek) \<Rightarrow> Inr (unseal_with_root_key root_kek seal_new)
                    | Inr (Inl e) \<Rightarrow> if pool then Inr seal_new else Inl (NoRootKeyNoDatabase e))
      in if pool then
           (case seal_store_load db_fault row of
              Inl e \<Rightarrow> Inl (SealConfigUnreadable e)
            | Inr (Some material) \<Rightarrow> Inr (seal_load material seal_new)
            | Inr None \<Rightarrow> legacy)
         else legacy)"

section \<open>Vocabulary of the properties\<close>

text \<open>
  What the Shamir crate promises: a share survives its serialisation, any \<open>t\<close> distinct
  shares dealt for threshold \<open>t\<close> give the secret back, and shares of different sizes are
  refused.
\<close>

definition sharks_ok :: "'sh sharks_lib \<Rightarrow> bool" where
  "sharks_ok sharks \<longleftrightarrow>
     (\<forall>s. share_try_from sharks (share_to_bytes sharks s) = Inr s) \<and>
     (\<forall>t secret seed n ss. distinct ss \<and> set ss \<subseteq> set (sharks_dealer sharks t secret seed n) \<and>
        0 < t \<and> unat t \<le> length ss \<longrightarrow> sharks_recover sharks t ss = Inr secret) \<and>
     (\<forall>t ss a b. a \<in> set ss \<and> b \<in> set ss \<and> share_size sharks a \<noteq> share_size sharks b \<longrightarrow>
        (\<exists>e. sharks_recover sharks t ss = Inl e))"

datatype seal_op =
    OpInit seal_draws u8 u8
  | OpUnseal string
  | OpSeal
  | OpReset

fun seal_step :: "crypto_lib \<Rightarrow> 'sh sharks_lib \<Rightarrow> seal_op \<Rightarrow> seal_inner \<Rightarrow> seal_inner" where
  "seal_step lib sharks (OpInit d n t) inner = fst (seal_init lib sharks d n t inner)"
| "seal_step lib sharks (OpUnseal s) inner = fst (unseal lib sharks s inner)"
| "seal_step lib sharks OpSeal inner = do_seal inner"
| "seal_step lib sharks OpReset inner = reset_unseal_progress inner"

fun submitted :: "crypto_lib \<Rightarrow> 'sh sharks_lib \<Rightarrow> seal_op list \<Rightarrow> bytes set" where
  "submitted lib sharks [] = {}"
| "submitted lib sharks (OpUnseal s # ops) =
     (case decode_share lib sharks s of Inl _ \<Rightarrow> {} | Inr raw \<Rightarrow> {raw}) \<union> submitted lib sharks ops"
| "submitted lib sharks (_ # ops) = submitted lib sharks ops"

text \<open>The evidence that opens a vault: enough different shares for the right key.\<close>

definition opened_by ::
  "crypto_lib \<Rightarrow> 'sh sharks_lib \<Rightarrow> seal_material \<Rightarrow> bytes list \<Rightarrow> bytes \<Rightarrow> bool" where
  "opened_by lib sharks m raws k \<longleftrightarrow>
     distinct raws \<and> unat (sm_threshold m) \<le> length raws \<and>
     (\<exists>unseal_key.
        sharks_recover sharks (sm_threshold m) (parse_shares sharks raws) = Inr unseal_key \<and>
        check_value lib unseal_key = Inr (sm_unseal_key_check m) \<and>
        decrypt_with_dek lib unseal_key (sm_sealed_root_key m) SEAL_AAD = Inr k)"

definition seal_inv ::
  "crypto_lib \<Rightarrow> 'sh sharks_lib \<Rightarrow> seal_material \<Rightarrow> bytes set \<Rightarrow> seal_inner \<Rightarrow> bool" where
  "seal_inv lib sharks m S inner \<longleftrightarrow>
     si_material inner = Some m \<and> distinct (si_pending inner) \<and> set (si_pending inner) \<subseteq> S \<and>
     (\<forall>k. si_root_key inner = Some k \<longrightarrow> (\<exists>raws. set raws \<subseteq> S \<and> opened_by lib sharks m raws k))"

text \<open>A stand-in for the Shamir crate: every share carries its index and the secret.\<close>

definition demo_recover :: "u8 \<Rightarrow> (u8 \<times> bytes) list \<Rightarrow> string + bytes" where
  "demo_recover t ss =
     (if ss = [] \<or> length (remdups (map fst ss)) < unat t then Inl ''Not enough shares''
      else if list_ex (\<lambda>s. length (snd s) \<noteq> length (snd (hd ss))) ss
      then Inl ''All shares must have the same length''
      else Inr (snd (hd ss)))"

definition demo_sharks :: "(u8 \<times> bytes) sharks_lib" where
  "demo_sharks = \<lparr>
     share_try_from = (\<lambda>r. case r of [] \<Rightarrow> Inl ''empty'' | x # y \<Rightarrow> Inr (x, y)),
     share_to_bytes = (\<lambda>(x, y). x # y),
     share_size = (\<lambda>(x, y). length y),
     sharks_dealer = (\<lambda>t secret seed n. map (\<lambda>i. (of_nat (Suc i), secret)) [0..<n]),
     sharks_recover = demo_recover\<rparr>"

definition demo_draws :: seal_draws where
  "demo_draws = \<lparr>sd_root = Some (replicate 32 9), sd_unseal = Some (replicate 32 7),
     sd_nonce = Some (replicate 12 1), sd_seed = 0\<rparr>"

definition demo_sys :: sys_state where
  "demo_sys = \<lparr>sy_seal = seal_new, sy_pool = True, sy_db_row = None\<rparr>"

section \<open>Lemmas\<close>

lemma map_preimage: "set xs \<subseteq> f ` D \<Longrightarrow> \<exists>ss. xs = map f ss \<and> set ss \<subseteq> D"
proof (induction xs)
  case (Cons x xs)
  then obtain s ss where "x = f s" "s \<in> D" "xs = map f ss" "set ss \<subseteq> D" by auto
  then show ?case by (intro exI [of _ "s # ss"]) simp
qed simp

lemmas seal_defs = seal_load_def seal_init_commit_def do_seal_def reset_unseal_progress_def

lemma seal_init_refused:
  "si_material inner \<noteq> None \<Longrightarrow> fst (seal_init lib sharks d n t inner) = inner"
  by (auto simp: seal_init_def seal_init_check_def split: sum.split)

lemma reconstruct_material [simp]:
  "si_material (fst (reconstruct lib sharks m inner)) = si_material inner"
  by (simp add: reconstruct_def Let_def split: sum.split)

lemma reconstruct_pending:
  "set (si_pending (fst (reconstruct lib sharks m inner))) \<subseteq> set (si_pending inner)"
  "distinct (si_pending inner) \<Longrightarrow> distinct (si_pending (fst (reconstruct lib sharks m inner)))"
  by (auto simp: reconstruct_def Let_def split: sum.split)

lemma reconstruct_root:
  assumes "si_root_key inner = None" "si_root_key (fst (reconstruct lib sharks m inner)) = Some k"
  shows "\<exists>key. sharks_recover sharks (sm_threshold m) (parse_shares sharks (si_pending inner)) = Inr key \<and>
           check_value lib key = Inr (sm_unseal_key_check m) \<and>
           decrypt_with_dek lib key (sm_sealed_root_key m) SEAL_AAD = Inr k"
  using assms by (auto simp: reconstruct_def Let_def split: sum.splits if_splits)

lemma unseal_material [simp]: "si_material (fst (unseal lib sharks s inner)) = si_material inner"
  by (simp add: unseal_def Let_def split: option.split sum.split)

lemma seal_step_material:
  "si_material inner = Some m \<Longrightarrow> si_material (seal_step lib sharks op inner) = Some m"
  by (cases op) (auto simp: seal_init_refused seal_defs)

lemma u8_length_le: "\<not> (of_nat n :: u8) < t \<Longrightarrow> unat t \<le> n"
  by (metis mod_less_eq_dividend not_less order_trans unat_of_nat word_less_nat_alt)

lemma seal_inv_mono: "seal_inv lib sharks m S inner \<Longrightarrow> S \<subseteq> S' \<Longrightarrow> seal_inv lib sharks m S' inner"
  unfolding seal_inv_def by blast

lemma unseal_inv:
  assumes "seal_inv lib sharks m S inner"
  shows "seal_inv lib sharks m (S \<union> submitted lib sharks [OpUnseal s]) (fst (unseal lib sharks s inner))"
proof (cases "si_root_key inner = None \<and> (\<exists>raw. decode_share lib sharks s = Inr raw \<and> raw \<notin> set (si_pending inner))")
  case False
  then have "fst (unseal lib sharks s inner) = inner"
    by (auto simp: unseal_def split: option.split sum.split)
  with seal_inv_mono [OF assms] show ?thesis by simp
next
  case True
  then obtain raw where raw: "decode_share lib sharks s = Inr raw" "raw \<notin> set (si_pending inner)"
    and sealed: "si_root_key inner = None" by auto
  define inner' where "inner' = inner\<lparr>si_pending := si_pending inner @ [raw]\<rparr>"
  have m: "si_material inner = Some m" using assms by (simp add: seal_inv_def)
  have p: "distinct (si_pending inner')" "set (si_pending inner') \<subseteq> insert raw S"
    using assms raw by (auto simp: inner'_def seal_inv_def)
  show ?thesis
  proof (cases "(of_nat (length (si_pending inner')) :: u8) < sm_threshold m")
    case small: True
    then have "fst (unseal lib sharks s inner) = inner'"
      using raw sealed m by (simp add: unseal_def inner'_def Let_def)
    with p sealed m raw show ?thesis by (simp add: seal_inv_def inner'_def)
  next
    case big: False
    then have u: "fst (unseal lib sharks s inner) = fst (reconstruct lib sharks m inner')"
      using raw sealed m by (simp add: unseal_def inner'_def Let_def)
    have "opened_by lib sharks m (si_pending inner') k"
      if "si_root_key (fst (reconstruct lib sharks m inner')) = Some k" for k
      using reconstruct_root [OF _ that] sealed p(1) u8_length_le [OF big]
      by (simp add: opened_by_def inner'_def)
    moreover have "set (si_pending inner') \<subseteq> S \<union> submitted lib sharks [OpUnseal s]"
      using p raw by auto
    moreover have "si_material (fst (reconstruct lib sharks m inner')) = Some m"
      using m by (simp add: inner'_def)
    ultimately show ?thesis
      using reconstruct_pending(1) [of lib sharks m inner'] reconstruct_pending(2) [OF p(1), of lib sharks m]
      unfolding u seal_inv_def by (meson subset_trans)
  qed
qed

lemma seal_step_inv:
  assumes "seal_inv lib sharks m S inner"
  shows "seal_inv lib sharks m (S \<union> submitted lib sharks [op]) (seal_step lib sharks op inner)"
  using assms unseal_inv [OF assms] by (cases op) (auto simp: seal_inv_def seal_init_refused seal_defs)

lemma submitted_Cons: "submitted lib sharks (op # ops) = submitted lib sharks [op] \<union> submitted lib sharks ops"
  by (cases op) auto

lemma seal_run_inv:
  "seal_inv lib sharks m S inner \<Longrightarrow>
     seal_inv lib sharks m (S \<union> submitted lib sharks ops) (fold (seal_step lib sharks) ops inner)"
proof (induction ops arbitrary: S inner)
  case (Cons op ops)
  from Cons.IH [OF seal_step_inv [OF Cons.prems, of op]] show ?case
    by (subst submitted_Cons) (simp add: Un_assoc)
qed simp

lemma seal_load_inv: "seal_inv lib sharks m {} (seal_load m inner)"
  by (simp add: seal_inv_def seal_load_def)

text \<open>Submitting dealt shares one after the other.\<close>

lemma sharks_okD:
  assumes "sharks_ok sharks"
  shows sharks_ok_share: "share_try_from sharks (share_to_bytes sharks s) = Inr s"
    and sharks_ok_recover: "distinct ss \<Longrightarrow> set ss \<subseteq> set (sharks_dealer sharks t secret seed n) \<Longrightarrow>
      0 < t \<Longrightarrow> unat t \<le> length ss \<Longrightarrow> sharks_recover sharks t ss = Inr secret"
    and sharks_ok_size: "a \<in> set ss \<Longrightarrow> b \<in> set ss \<Longrightarrow> share_size sharks a \<noteq> share_size sharks b \<Longrightarrow>
      \<exists>e. sharks_recover sharks t ss = Inl e"
  using assms unfolding sharks_ok_def by blast+

lemma decode_dealt:
  assumes "base64_ok lib" "sharks_ok sharks"
  shows "decode_share lib sharks (b64_encode lib (share_to_bytes sharks s)) = Inr (share_to_bytes sharks s)"
  using assms by (simp add: decode_share_def base64_ok_simps sharks_ok_share)

lemma parse_dealt:
  assumes "sharks_ok sharks"
  shows "parse_shares sharks (map (share_to_bytes sharks) ss) = ss"
  using sharks_ok_share [OF assms] by (induction ss) (simp_all add: parse_shares_def)

lemma share_to_bytes_inj: "sharks_ok sharks \<Longrightarrow> inj (share_to_bytes sharks)"
  by (rule injI) (metis sharks_ok_share old.sum.inject(2))

lemma u8_of_nat_less: "n \<le> unat t \<Longrightarrow> (of_nat n :: u8) < t \<longleftrightarrow> n < unat t" for t :: u8
  using unsigned_less [of t, where 'a = nat] by (simp add: word_less_nat_alt unat_of_nat)

lemma unseal_advances:
  assumes "base64_ok lib" "sharks_ok sharks" "si_material inner = Some m" "si_root_key inner = None"
    and "share_to_bytes sharks s \<notin> set (si_pending inner)"
    and "Suc (length (si_pending inner)) < unat (sm_threshold m)"
  shows "unseal lib sharks (b64_encode lib (share_to_bytes sharks s)) inner =
           (inner\<lparr>si_pending := si_pending inner @ [share_to_bytes sharks s]\<rparr>,
            Inr (status_of (inner\<lparr>si_pending := si_pending inner @ [share_to_bytes sharks s]\<rparr>) (Some m)))"
  using assms u8_of_nat_less [of "Suc (length (si_pending inner))" "sm_threshold m"]
  by (simp add: unseal_def decode_dealt Let_def)

lemma unseal_completes_step:
  assumes ok: "crypto_ok lib" "sharks_ok sharks" and m: "si_material inner = Some m"
    and sealed: "si_root_key inner = None" and p: "si_pending inner = map (share_to_bytes sharks) ps"
    and ss: "distinct (ps @ [s])" "set (ps @ [s]) \<subseteq> set (sharks_dealer sharks (sm_threshold m) key seed n)"
    and len: "length (ps @ [s]) = unat (sm_threshold m)"
    and key: "length key = 32" "check_value lib key = Inr (sm_unseal_key_check m)"
      "decrypt_with_dek lib key (sm_sealed_root_key m) SEAL_AAD = Inr root" "length root = 32"
  shows "fst (unseal lib sharks (b64_encode lib (share_to_bytes sharks s)) inner) =
           inner\<lparr>si_root_key := Some root, si_pending := []\<rparr>"
proof -
  let ?inner' = "inner\<lparr>si_pending := map (share_to_bytes sharks) (ps @ [s])\<rparr>"
  have t: "0 < sm_threshold m" using len by (auto simp: word_less_nat_alt)
  have new: "share_to_bytes sharks s \<notin> set (si_pending inner)"
    using ss(1) p share_to_bytes_inj [OF ok(2)] by (auto dest: injD)
  have "\<not> (of_nat (length (si_pending ?inner')) :: u8) < sm_threshold m"
    using u8_of_nat_less [of "length (ps @ [s])" "sm_threshold m"] len by simp
  then have "unseal lib sharks (b64_encode lib (share_to_bytes sharks s)) inner =
      reconstruct lib sharks m ?inner'"
    using ok m sealed new p by (simp add: unseal_def decode_dealt crypto_ok_def Let_def)
  moreover have "sharks_recover sharks (sm_threshold m) (parse_shares sharks (si_pending ?inner')) = Inr key"
    using sharks_ok_recover [OF ok(2) ss t] len parse_dealt [OF ok(2), of "ps @ [s]"] by simp
  ultimately show ?thesis
    using key by (simp add: reconstruct_def Let_def)
qed

lemma unseal_completes:
  assumes ok: "crypto_ok lib" "sharks_ok sharks"
    and key: "length key = 32" "check_value lib key = Inr (sm_unseal_key_check m)"
      "decrypt_with_dek lib key (sm_sealed_root_key m) SEAL_AAD = Inr root" "length root = 32"
  shows "si_material inner = Some m \<Longrightarrow> si_root_key inner = None \<Longrightarrow>
    si_pending inner = map (share_to_bytes sharks) ps \<Longrightarrow> distinct (ps @ ss) \<Longrightarrow>
    set (ps @ ss) \<subseteq> set (sharks_dealer sharks (sm_threshold m) key seed n) \<Longrightarrow>
    length (ps @ ss) = unat (sm_threshold m) \<Longrightarrow> ss \<noteq> [] \<Longrightarrow>
    fold (\<lambda>x st. fst (unseal lib sharks x st)) (map (\<lambda>s. b64_encode lib (share_to_bytes sharks s)) ss) inner =
      inner\<lparr>si_root_key := Some root, si_pending := []\<rparr>"
proof (induction ss arbitrary: ps inner)
  case (Cons s ss)
  show ?case
  proof (cases "ss = []")
    case True
    with Cons.prems unseal_completes_step [OF ok Cons.prems(1-3), of s key seed n root] key show ?thesis by simp
  next
    case False
    let ?inner' = "inner\<lparr>si_pending := map (share_to_bytes sharks) (ps @ [s])\<rparr>"
    have "share_to_bytes sharks s \<notin> set (si_pending inner)"
      using Cons.prems(3,4) share_to_bytes_inj [OF ok(2)] by (auto dest: injD)
    moreover have "Suc (length (si_pending inner)) < unat (sm_threshold m)"
      using Cons.prems(3,6) False by (cases ss) auto
    ultimately have "fst (unseal lib sharks (b64_encode lib (share_to_bytes sharks s)) inner) = ?inner'"
      using unseal_advances [of lib sharks inner m s] ok Cons.prems(1-3) by (simp add: crypto_ok_def)
    with Cons.IH [of ?inner' "ps @ [s]"] Cons.prems False show ?thesis by simp
  qed
qed simp

lemma seal_init_material:
  assumes "crypto_ok lib" "seal_init lib sharks draws n t inner = (inner', Inr (res, m))"
    and "sd_nonce draws = Some nonce" "length nonce = 12"
  shows "\<exists>root key. sd_root draws = Some root \<and> sd_unseal draws = Some key \<and>
           si_material inner = None \<and> 0 < t \<and> t \<le> n \<and> inner' = seal_init_commit m inner \<and>
           sm_threshold m = t \<and> sm_shares m = n \<and> ir_threshold res = t \<and>
           ir_shares res = map (\<lambda>s. b64_encode lib (share_to_bytes sharks s))
             (sharks_dealer sharks t key (sd_seed draws) (unat n)) \<and>
           check_value lib key = Inr (sm_unseal_key_check m) \<and>
           decrypt_with_dek lib key (sm_sealed_root_key m) SEAL_AAD = Inr root"
proof -
  from assms(2) have g: "seal_init_check n t inner = Inr ()"
      "seal_init_generate lib sharks draws n t = Inr (res, m)" "inner' = seal_init_commit m inner"
    by (auto simp: seal_init_def result_iff split: sum.splits)
  from g(1) have "si_material inner = None" "0 < t" "t \<le> n"
    by (auto simp: seal_init_check_def word_gt_0 not_less split: if_splits)
  moreover from g(2) obtain root key env where "sd_root draws = Some root" "sd_unseal draws = Some key"
      "encrypt_with_dek lib (Some nonce) key root SEAL_AAD = Inr env"
      "check_value lib key = Inr (sm_unseal_key_check m)" "sm_sealed_root_key m = env_ciphertext_b64 env"
      "sm_threshold m = t" "sm_shares m = n" "ir_threshold res = t"
      "ir_shares res = map (\<lambda>s. b64_encode lib (share_to_bytes sharks s))
         (sharks_dealer sharks t key (sd_seed draws) (unat n))"
    using assms(3) by (auto simp: seal_init_generate_def random_32_def result_iff)
  ultimately show ?thesis
    using g(3) encrypt_decrypt [OF assms(1,4)] by auto
qed

text \<open>Two pending shares of different sizes can never be combined, whatever is added.\<close>

lemma parse_shares_mem:
  "s \<in> set (parse_shares sharks raws) \<longleftrightarrow> (\<exists>r \<in> set raws. share_try_from sharks r = Inr s)"
  by (induction raws) (auto simp: parse_shares_def split: sum.splits)

lemma reconstruct_wedged:
  assumes "sharks_ok sharks" "ra \<in> set (si_pending inner)" "rb \<in> set (si_pending inner)"
    and "share_try_from sharks ra = Inr a" "share_try_from sharks rb = Inr b"
    and "share_size sharks a \<noteq> share_size sharks b"
  shows "fst (reconstruct lib sharks m inner) = inner"
proof -
  have "a \<in> set (parse_shares sharks (si_pending inner))" "b \<in> set (parse_shares sharks (si_pending inner))"
    using assms by (auto simp: parse_shares_mem)
  from sharks_ok_size [OF assms(1) this assms(6), of "sm_threshold m"] show ?thesis
    by (auto simp: reconstruct_def)
qed

lemma unseal_wedged_step:
  assumes "sharks_ok sharks" "ra \<in> set (si_pending inner)" "rb \<in> set (si_pending inner)"
    and "share_try_from sharks ra = Inr a" "share_try_from sharks rb = Inr b"
    and "share_size sharks a \<noteq> share_size sharks b" and "si_root_key inner = None"
  shows "si_root_key (fst (unseal lib sharks x inner)) = None \<and>
         set (si_pending inner) \<subseteq> set (si_pending (fst (unseal lib sharks x inner)))"
proof -
  have "fst (reconstruct lib sharks m (inner\<lparr>si_pending := si_pending inner @ [raw]\<rparr>)) =
      inner\<lparr>si_pending := si_pending inner @ [raw]\<rparr>" for m raw
    by (rule reconstruct_wedged [OF assms(1) _ _ assms(4-6)]) (use assms in auto)
  then show ?thesis
    using assms(7) by (auto simp: unseal_def Let_def split: option.split sum.split)
qed

lemma unseal_wedged_run:
  assumes "sharks_ok sharks" and "share_try_from sharks ra = Inr a" "share_try_from sharks rb = Inr b"
    and "share_size sharks a \<noteq> share_size sharks b"
  shows "ra \<in> set (si_pending inner) \<Longrightarrow> rb \<in> set (si_pending inner) \<Longrightarrow> si_root_key inner = None \<Longrightarrow>
    si_root_key (fold (\<lambda>x st. fst (unseal lib sharks x st)) xs inner) = None"
proof (induction xs arbitrary: inner)
  case (Cons x xs)
  from unseal_wedged_step [OF assms(1) Cons.prems(1,2) assms(2-4) Cons.prems(3), of lib x] Cons
  show ?case by auto
qed simp

text \<open>A share of another vault advances the count like one of this vault.\<close>

lemma foreign_share_counted:
  assumes "base64_ok lib" "sharks_ok sharks" "si_material inner = Some m" "si_root_key inner = None"
    and "share_to_bytes sharks foreign \<notin> set (si_pending inner)"
    and "Suc (length (si_pending inner)) < unat (sm_threshold m)"
  shows "\<exists>st. snd (unseal lib sharks (b64_encode lib (share_to_bytes sharks foreign)) inner) = Inr st \<and>
           st_progress st = of_nat (Suc (length (si_pending inner)))"
  by (simp add: unseal_advances [OF assms] status_of_def)

subsection \<open>The stand-in keeps the promises\<close>

lemma demo_sharks_simps [simp]:
  "share_to_bytes demo_sharks (x, y) = x # y"
  "share_try_from demo_sharks (x # y) = Inr (x, y)"
  "share_size demo_sharks (x, y) = length y"
  "sharks_dealer demo_sharks t secret seed n = map (\<lambda>i. (of_nat (Suc i), secret)) [0..<n]"
  "sharks_recover demo_sharks = demo_recover"
  by (simp_all add: demo_sharks_def)

lemma demo_recover_dealt:
  assumes "distinct ss" "set ss \<subseteq> set (sharks_dealer demo_sharks t secret seed n)" "0 < t" "unat t \<le> length ss"
  shows "demo_recover t ss = Inr secret"
proof -
  have snd: "snd s = secret" if "s \<in> set ss" for s using assms(2) that by auto
  have "inj_on fst (set ss)" using snd by (auto simp: inj_on_def prod_eq_iff)
  then have "distinct (map fst ss)" using assms(1) by (simp add: distinct_map)
  then have len: "length (remdups (map fst ss)) = length ss" by (simp add: distinct_remdups_id)
  have ne: "ss \<noteq> []" using assms(3,4) by (auto simp: word_less_nat_alt)
  then have hd: "snd (hd ss) = secret" using snd by simp
  have "\<not> list_ex (\<lambda>s. length (snd s) \<noteq> length (snd (hd ss))) ss"
    using snd hd by (auto simp: list_ex_iff)
  with assms(4) len ne hd show ?thesis by (simp add: demo_recover_def)
qed

lemma demo_recover_size:
  "a \<in> set ss \<Longrightarrow> b \<in> set ss \<Longrightarrow> length (snd a) \<noteq> length (snd b) \<Longrightarrow> \<exists>e. demo_recover t ss = Inl e"
  by (cases "list_ex (\<lambda>s. length (snd s) \<noteq> length (snd (hd ss))) ss")
    (auto simp: demo_recover_def list_ex_iff)

lemma demo_sharks_ok: "sharks_ok demo_sharks"
proof -
  have "share_try_from demo_sharks (share_to_bytes demo_sharks s) = Inr s" for s :: "u8 \<times> bytes"
    by (cases s) simp
  moreover have "share_size demo_sharks s = length (snd s)" for s :: "u8 \<times> bytes"
    by (cases s) simp
  ultimately show ?thesis
    unfolding sharks_ok_def
    using demo_recover_dealt demo_recover_size by (metis demo_sharks_simps(5))
qed

lemma demo_check_value: "\<exists>c. check_value demo_lib key = Inr c"
  by (simp add: check_value_def derive_key_def)

lemma demo_init:
  assumes "0 < t" "t \<le> n" "si_material inner = None"
  shows "\<exists>m. seal_init demo_lib demo_sharks demo_draws n t inner = (seal_init_commit m inner,
           Inr (\<lparr>ir_shares = map (\<lambda>i. demo_b64_encode (of_nat (Suc i) # replicate 32 7)) [0..<unat n],
                 ir_threshold = t\<rparr>, m)) \<and> sm_threshold m = t"
proof -
  obtain c where c: "check_value demo_lib (replicate 32 7) = Inr c" using demo_check_value by blast
  have "seal_init_check n t inner = Inr ()"
    using assms by (auto simp: seal_init_check_def not_less word_gt_0)
  then show ?thesis
    by (simp add: seal_init_def seal_init_generate_def random_32_def demo_draws_def c
        encrypt_with_dek_def generate_aes_gcm_nonce_def o_def)
qed

lemma demo_b64_inj: "demo_b64_encode x = demo_b64_encode y \<longleftrightarrow> x = y"
  by (metis demo_b64_roundtrip old.sum.inject(2))

lemma demo_opened:
  "\<exists>m. fold (seal_step demo_lib demo_sharks)
      [OpUnseal (demo_b64_encode (3 # replicate 32 7)), OpUnseal (demo_b64_encode (1 # replicate 32 7))]
      (seal_load m seal_new) = (seal_load m seal_new)\<lparr>si_root_key := Some (replicate 32 9), si_pending := []\<rparr> \<and>
    sm_threshold m = 2"
proof -
  obtain m where i: "seal_init demo_lib demo_sharks demo_draws 3 2 seal_new =
      (seal_init_commit m seal_new,
       Inr (\<lparr>ir_shares = map (\<lambda>i. demo_b64_encode (of_nat (Suc i) # replicate 32 7)) [0..<unat (3 :: u8)],
             ir_threshold = 2\<rparr>, m))"
    using demo_init [of 2 3 seal_new] by (auto simp: seal_new_def)
  from seal_init_material [OF demo_lib_ok i, of "replicate 12 1"]
  have "check_value demo_lib (replicate 32 7) = Inr (sm_unseal_key_check m)" "sm_threshold m = 2"
      "decrypt_with_dek demo_lib (replicate 32 7) (sm_sealed_root_key m) SEAL_AAD = Inr (replicate 32 9)"
    by (simp_all add: demo_draws_def)
  with unseal_completes [OF demo_lib_ok demo_sharks_ok, of "replicate 32 7" m "replicate 32 9"
      "seal_load m seal_new" "[]" "[(3, replicate 32 7), (1, replicate 32 7)]" 0 3]
  show ?thesis
    by (intro exI [of _ m]) (simp add: seal_load_def upt_rec del: demo_b64_encode.simps)
qed

section \<open>Properties\<close>

text \<open>C12. A threshold of shares opens the vault: after a successful initialisation, submitting
  any \<open>threshold\<close> different shares of those it issued, in any order, leaves the vault
  unsealed with exactly the root key that was generated.\<close>

theorem threshold_shares_unseal:
  assumes "crypto_ok lib" "sharks_ok sharks"
    and "seal_init lib sharks draws n t inner = (inner', Inr (res, m))"
    and "sd_root draws = Some root" "length root = 32"
    and "sd_unseal draws = Some key" "length key = 32"
    and "sd_nonce draws = Some nonce" "length nonce = 12"
    and "distinct xs" "set xs \<subseteq> set (ir_shares res)" "length xs = unat t"
  shows "root_key (fold (\<lambda>x st. fst (unseal lib sharks x st)) xs inner') = Inr root"
proof -
  let ?f = "\<lambda>s. b64_encode lib (share_to_bytes sharks s)"
  let ?D = "sharks_dealer sharks t key (sd_seed draws) (unat n)"
  from seal_init_material [OF assms(1,3,8,9)] assms(4,6)
  have m: "0 < t" "inner' = seal_init_commit m inner" "sm_threshold m = t" "ir_shares res = map ?f ?D"
      "check_value lib key = Inr (sm_unseal_key_check m)"
      "decrypt_with_dek lib key (sm_sealed_root_key m) SEAL_AAD = Inr root"
    by auto
  from map_preimage [of xs ?f "set ?D"] assms(11) m(4)
  obtain ss where ss: "xs = map ?f ss" "set ss \<subseteq> set ?D" by auto
  have "ss \<noteq> []" using ss(1) assms(12) m(1) by (auto simp: word_less_nat_alt)
  with unseal_completes [OF assms(1,2,7) m(5,6) assms(5), of inner' "[]" ss "sd_seed draws" "unat n"]
    ss assms(10,12) m(2,3)
  show ?thesis by (simp add: distinct_map seal_init_commit_def root_key_def)
qed

theorem threshold_shares_unseal_witness:
  "\<exists>inner' res m. seal_init demo_lib demo_sharks demo_draws 3 2 seal_new = (inner', Inr (res, m)) \<and>
     root_key (fold (\<lambda>x st. fst (unseal demo_lib demo_sharks x st))
       [demo_b64_encode (3 # replicate 32 7), demo_b64_encode (1 # replicate 32 7)] inner') =
       Inr (replicate 32 9)"
proof -
  obtain m where i: "seal_init demo_lib demo_sharks demo_draws 3 2 seal_new =
      (seal_init_commit m seal_new,
       Inr (\<lparr>ir_shares = map (\<lambda>i. demo_b64_encode (of_nat (Suc i) # replicate 32 7)) [0..<unat (3 :: u8)],
             ir_threshold = 2\<rparr>, m))"
    using demo_init [of 2 3 seal_new] by (auto simp: seal_new_def)
  have "demo_b64_encode (3 # r) \<noteq> demo_b64_encode (1 # r)" for r
    using demo_b64_inj [of "3 # r" "1 # r"] by (auto simp del: demo_b64_encode.simps)
  with threshold_shares_unseal [OF demo_lib_ok demo_sharks_ok i, of "replicate 32 9" "replicate 32 7" "replicate 12 1"
      "[demo_b64_encode (3 # replicate 32 7), demo_b64_encode (1 # replicate 32 7)]"] i
  show ?thesis
    by (simp add: demo_draws_def upt_rec del: demo_b64_encode.simps)
qed

text \<open>C13. Nothing less opens it: a vault that starts from its stored material is unsealed, after
  any sequence of initialisation attempts, submissions, seals and resets, only if at
  least \<open>threshold\<close> different well-formed shares were submitted which together reconstruct
  a key with the stored check value, and its root key is then the decryption of the
  stored sealed root key under that key.\<close>

theorem unseal_needs_threshold:
  assumes "si_root_key (fold (seal_step lib sharks) ops (seal_load m inner)) = Some k"
  shows "\<exists>raws. set raws \<subseteq> submitted lib sharks ops \<and> opened_by lib sharks m raws k"
  using seal_run_inv [OF seal_load_inv, of lib sharks m ops inner] assms by (simp add: seal_inv_def)

theorem unseal_needs_threshold_witness:
  "\<exists>m raws. set raws \<subseteq> submitted demo_lib demo_sharks
       [OpUnseal (demo_b64_encode (3 # replicate 32 7)), OpUnseal (demo_b64_encode (1 # replicate 32 7))] \<and>
     opened_by demo_lib demo_sharks m raws (replicate 32 9) \<and> sm_threshold m = 2"
proof -
  obtain m where "si_root_key (fold (seal_step demo_lib demo_sharks)
      [OpUnseal (demo_b64_encode (3 # replicate 32 7)), OpUnseal (demo_b64_encode (1 # replicate 32 7))]
      (seal_load m seal_new)) = Some (replicate 32 9)" "sm_threshold m = 2"
    using demo_opened by (metis (no_types, lifting) seal_inner.select_convs(2) seal_inner.surjective
        seal_inner.update_convs(2,3))
  with unseal_needs_threshold show ?thesis by blast
qed

text \<open>Submissions can be blocked: once two shares of different sizes are pending, the failed
  reconstruction does not clear them, so no sequence of further submissions, a full
  set of correct shares included, opens the vault.\<close>

theorem unseal_blocked:
  assumes "sharks_ok sharks"
    and "share_try_from sharks ra = Inr a" "share_try_from sharks rb = Inr b"
    and "share_size sharks a \<noteq> share_size sharks b"
    and "ra \<in> set (si_pending inner)" "rb \<in> set (si_pending inner)" "si_root_key inner = None"
  shows "root_key (fold (\<lambda>x st. fst (unseal lib sharks x st)) xs inner) = Inl Sealed"
  using unseal_wedged_run [OF assms, of lib xs] by (simp add: root_key_def)

theorem unseal_blocked_witness:
  "root_key (fold (\<lambda>x st. fst (unseal demo_lib demo_sharks x st)) [''aa'', ''bb'']
     \<lparr>si_material = Some \<lparr>sm_shares = 3, sm_threshold = 2, sm_sealed_root_key = [], sm_unseal_key_check = []\<rparr>,
      si_root_key = None, si_pending = [[1, 5], [2, 5, 5]]\<rparr>) = Inl Sealed"
  by (rule unseal_blocked [OF demo_sharks_ok, of "[1, 5]" "(1, [5])" "[2, 5, 5]" "(2, [5, 5])"]) simp_all

text \<open>A failed initialisation is not undone: when the material cannot be stored the response
  says that the vault is not initialized, and the stored row is unchanged, but the
  service keeps the material in memory, reports itself initialized and refuses every
  further initialisation. If the row was written by another instance, the material in
  memory is not the stored one.\<close>

theorem sys_init_failure_kept:
  assumes "sys_init lib sharks draws fault body st = (st', SysError 500 msg e)"
  shows "sy_db_row st' = sy_db_row st \<and>
         st_initialized (seal_status_now (sy_seal st')) \<and> \<not> is_unsealed (sy_seal st') \<and>
         (\<exists>e'. sys_init lib sharks draws' fault' None st' = (st', SysError 400 [] e'))"
proof -
  obtain n t where b: "(case body of Some b \<Rightarrow> b | None \<Rightarrow> (default_shares, default_threshold)) = (n, t)"
    by (metis surj_pair)
  from assms b obtain res m row where i: "seal_init lib sharks draws n t (sy_seal st) = (seal_init_commit m (sy_seal st), Inr (res, m))"
    and s: "save_initial fault (sy_db_row st) m = (row, Inl e)" and pool: "sy_pool st"
    and st': "st' = st\<lparr>sy_seal := do_seal (seal_init_commit m (sy_seal st)), sy_db_row := row\<rparr>"
    by (auto simp: sys_init_def seal_init_def Let_def split: if_splits prod.splits sum.splits)
  from s have row: "row = sy_db_row st"
    by (auto simp: save_initial_def split: option.splits)
  have "seal_init lib sharks draws' default_shares default_threshold (sy_seal st') =
      (sy_seal st', Inl (ValidationError ''seal''
        ''vault is already initialized; re-initialising would orphan every key encrypted under the current root key''))"
    by (simp add: st' seal_init_def seal_init_check_def seal_defs default_shares_def default_threshold_def)
  with row pool st' show ?thesis
    by (simp add: sys_init_def Let_def seal_status_now_def status_of_def is_unsealed_def seal_defs)
qed

theorem sys_init_failure_kept_witness:
  "\<exists>st' e msg. sys_init demo_lib demo_sharks demo_draws (Some ''down'') None demo_sys = (st', SysError 500 msg e) \<and>
     sy_db_row st' = None \<and> st_initialized (seal_status_now (sy_seal st'))"
proof -
  obtain m where "seal_init demo_lib demo_sharks demo_draws 5 3 seal_new =
      (seal_init_commit m seal_new,
       Inr (\<lparr>ir_shares = map (\<lambda>i. demo_b64_encode (of_nat (Suc i) # replicate 32 7)) [0..<unat (5 :: u8)],
             ir_threshold = 3\<rparr>, m))"
    using demo_init [of 3 5 seal_new] by (auto simp: seal_new_def)
  then obtain st' e msg where
    "sys_init demo_lib demo_sharks demo_draws (Some ''down'') None demo_sys = (st', SysError 500 msg e)"
    by (simp add: sys_init_def demo_sys_def default_shares_def default_threshold_def save_initial_def)
  with sys_init_failure_kept [OF this] show ?thesis by (auto simp: demo_sys_def)
qed

text \<open>C14. Initialisation replaces a root key that is in use: a service started on a root key
  from its provider (with a database, and no seal material yet) accepts an
  initialisation, drops that key from memory and stores material for another key; from
  then on every start ignores the provider's key.\<close>

theorem sys_init_discards_root_key:
  assumes "sy_pool st" "sy_db_row st = None"
    and "startup_seal True None None (Inr (Inr legacy)) = Inr (sy_seal st)"
    and "seal_init_generate lib sharks draws default_shares default_threshold = Inr (res, m)"
  shows "root_key (sy_seal st) = Inr legacy \<and>
         (\<exists>st'. sys_init lib sharks draws None None st = (st', SysInit 200 (ir_shares res) (ir_threshold res)) \<and>
            root_key (sy_seal st') = Inl Sealed \<and>
            startup_seal True None (sy_db_row st') (Inr (Inr legacy)) = Inr (seal_load m seal_new))"
proof -
  have "sy_seal st = unseal_with_root_key legacy seal_new"
    using assms(3) by (simp add: startup_seal_def seal_store_load_def)
  with assms(1,2,4) show ?thesis
    by (simp add: sys_init_def seal_init_def seal_init_check_def save_initial_def unseal_with_root_key_def
        seal_new_def default_shares_def default_threshold_def root_key_def seal_init_commit_def Let_def
        startup_seal_def seal_store_load_def)
qed

theorem sys_init_discards_root_key_witness:
  "\<exists>st'. sys_init demo_lib demo_sharks demo_draws None None
       (demo_sys\<lparr>sy_seal := unseal_with_root_key (replicate 32 4) seal_new\<rparr>) = st' \<and>
     root_key (sy_seal (fst st')) = Inl Sealed"
proof -
  let ?st = "demo_sys\<lparr>sy_seal := unseal_with_root_key (replicate 32 4) seal_new\<rparr>"
  have "\<exists>r. seal_init_generate demo_lib demo_sharks demo_draws default_shares default_threshold = Inr r"
    using demo_check_value [of "replicate 32 7"]
    by (auto simp: seal_init_generate_def random_32_def demo_draws_def encrypt_with_dek_def
        generate_aes_gcm_nonce_def)
  then obtain res m where
    "seal_init_generate demo_lib demo_sharks demo_draws default_shares default_threshold = Inr (res, m)" by auto
  from sys_init_discards_root_key [OF _ _ _ this, of ?st "replicate 32 4"] show ?thesis
    by (auto simp: demo_sys_def startup_seal_def seal_store_load_def)
qed

end
