(* ===== verification/Key_Table.thy ===== *)
theory Key_Table
  imports Replication_Outbox
begin

text \<open>
  Key descriptors: the types of \<^verbatim>\<open>crates/wslvault-core/src/types/key.rs\<close>, the table
  \<^verbatim>\<open>system.key_descriptors\<close> with its constraints and unique indexes
  (\<^verbatim>\<open>storage/postgres/init/001_schema.sql\<close>, \<^verbatim>\<open>002_indexes.sql\<close>, \<^verbatim>\<open>021_transit_key_names.sql\<close>), and
  the queries of \<^verbatim>\<open>crates/wslvault-storage/src/key_store.rs\<close>.

  The table is the list of its rows in insertion order. The parser of UUIDs is a
  parameter that gives the canonical text of an id; \<open>tenants\<close> are the ids of
  \<^verbatim>\<open>system.tenants\<close>. Rows that \<open>ORDER BY\<close> leaves tied come in table order.
\<close>

section \<open>Types\<close>

datatype key_algorithm = Aes256Gcm | ChaCha20Poly1305 | XChaCha20Poly1305

datatype key_purpose = RootKek | TenantKek | DataEncryption | Signing | TransitKey

datatype key_state = KeyActive | KeyRotatingOut | KeyRetired | KeyDestroyed

record key_descriptor =
  kd_id :: string
  kd_version :: u32
  kd_algorithm :: key_algorithm
  kd_purpose :: key_purpose
  kd_state :: key_state
  kd_tenant_id :: "string option"
  kd_created_at :: datetime
  kd_rotated_at :: "datetime option"
  kd_expires_at :: "datetime option"

definition parse_algorithm :: "string \<Rightarrow> key_algorithm" where
  "parse_algorithm s =
     (if s = ''chacha20-poly1305'' then ChaCha20Poly1305
      else if s = ''xchacha20-poly1305'' then XChaCha20Poly1305
      else Aes256Gcm)"

fun algorithm_str :: "key_algorithm \<Rightarrow> string" where
  "algorithm_str Aes256Gcm = ''aes-256-gcm''"
| "algorithm_str ChaCha20Poly1305 = ''chacha20-poly1305''"
| "algorithm_str XChaCha20Poly1305 = ''xchacha20-poly1305''"

definition parse_purpose :: "string \<Rightarrow> key_purpose" where
  "parse_purpose s =
     (if s = ''root_kek'' then RootKek
      else if s = ''tenant_kek'' then TenantKek
      else if s = ''data_encryption'' then DataEncryption
      else if s = ''signing'' then Signing
      else if s = ''transit'' then TransitKey
      else DataEncryption)"

fun purpose_str :: "key_purpose \<Rightarrow> string" where
  "purpose_str RootKek = ''root_kek''"
| "purpose_str TenantKek = ''tenant_kek''"
| "purpose_str DataEncryption = ''data_encryption''"
| "purpose_str Signing = ''signing''"
| "purpose_str TransitKey = ''transit''"

definition parse_state :: "string \<Rightarrow> key_state" where
  "parse_state s =
     (if s = ''rotating_out'' then KeyRotatingOut
      else if s = ''retired'' then KeyRetired
      else if s = ''destroyed'' then KeyDestroyed
      else KeyActive)"

fun state_str :: "key_state \<Rightarrow> string" where
  "state_str KeyActive = ''active''"
| "state_str KeyRotatingOut = ''rotating_out''"
| "state_str KeyRetired = ''retired''"
| "state_str KeyDestroyed = ''destroyed''"

text \<open>The derived \<^verbatim>\<open>Debug\<close> of a purpose, which the not-found error prints.\<close>

fun purpose_debug :: "key_purpose \<Rightarrow> string" where
  "purpose_debug RootKek = ''RootKek''"
| "purpose_debug TenantKek = ''TenantKek''"
| "purpose_debug DataEncryption = ''DataEncryption''"
| "purpose_debug Signing = ''Signing''"
| "purpose_debug TransitKey = ''Transit''"

section \<open>The table\<close>

record key_row =
  kr_id :: string
  kr_version :: int
  kr_algorithm :: string
  kr_purpose :: string
  kr_state :: string
  kr_tenant_id :: "string option"
  kr_wrapped_key :: string
  kr_parent_key_id :: "string option"
  kr_created_at :: datetime
  kr_rotated_at :: "datetime option"
  kr_expires_at :: "datetime option"
  kr_key_name :: "string option"

type_synonym key_table = "key_row list"

text \<open>The partial unique index over the KEK-class purposes, and the one over names. A null
  tenant never collides.\<close>

definition kek_key :: "key_row \<Rightarrow> (string \<times> string \<times> int) option" where
  "kek_key r =
     (if kr_purpose r \<in> {''tenant_kek'', ''root_kek'', ''signing'', ''transit''}
      then map_option (\<lambda>t. (t, kr_purpose r, kr_version r)) (kr_tenant_id r) else None)"

definition name_key :: "key_row \<Rightarrow> (string \<times> string \<times> int) option" where
  "name_key r =
     (case (kr_tenant_id r, kr_key_name r) of
        (Some t, Some n) \<Rightarrow> if kr_state r \<noteq> ''destroyed'' then Some (t, n, kr_version r) else None
      | _ \<Rightarrow> None)"

definition collides :: "(key_row \<Rightarrow> 'k option) \<Rightarrow> key_row \<Rightarrow> key_table \<Rightarrow> bool" where
  "collides key row table \<longleftrightarrow> key row \<noteq> None \<and> list_ex (\<lambda>r. key r = key row) table"

definition insert_key_row :: "string list \<Rightarrow> key_row \<Rightarrow> key_table \<Rightarrow> string + key_table" where
  "insert_key_row tenants row table =
     (if list_ex (\<lambda>r. kr_id r = kr_id row) table then Inl ''key_descriptors_pkey''
      else if collides kek_key row table then Inl ''idx_key_descriptors_kek_unique''
      else if collides name_key row table then Inl ''uq_key_descriptors_tenant_name_version''
      else if (case kr_tenant_id row of None \<Rightarrow> False | Some t \<Rightarrow> t \<notin> set tenants)
      then Inl ''key_descriptors_tenant_id_fkey''
      else if (case kr_parent_key_id row of None \<Rightarrow> False | Some p \<Rightarrow> \<not> list_ex (\<lambda>r. kr_id r = p) table)
      then Inl ''key_descriptors_parent_key_id_fkey''
      else Inr (table @ [row]))"

section \<open>Queries\<close>

definition descriptor_of :: "key_row \<Rightarrow> key_descriptor" where
  "descriptor_of row =
     \<lparr>kd_id = kr_id row, kd_version = of_int (kr_version row),
      kd_algorithm = parse_algorithm (kr_algorithm row), kd_purpose = parse_purpose (kr_purpose row),
      kd_state = parse_state (kr_state row), kd_tenant_id = kr_tenant_id row,
      kd_created_at = kr_created_at row, kd_rotated_at = kr_rotated_at row,
      kd_expires_at = kr_expires_at row\<rparr>"

definition get_key_descriptor :: "key_table \<Rightarrow> string \<Rightarrow> vault_error + key_descriptor" where
  "get_key_descriptor table key_id =
     and_then (ok_or (KeyNotFound key_id) (find (\<lambda>r. kr_id r = key_id) table)) (\<lambda>row. Inr (descriptor_of row))"

definition get_active_key :: "key_table \<Rightarrow> string \<Rightarrow> key_purpose \<Rightarrow> vault_error + key_descriptor" where
  "get_active_key table tenant_id purpose =
     (case sort_key (\<lambda>r. - kr_version r) (filter (\<lambda>r. kr_tenant_id r = Some tenant_id \<and>
             kr_purpose r = purpose_str purpose \<and> kr_state r = ''active'') table) of
        [] \<Rightarrow> Inl (KeyNotFound (tenant_id @ '':'' @ purpose_debug purpose))
      | row # _ \<Rightarrow> Inr (descriptor_of row))"

definition insert_named_key_descriptor ::
  "(string \<Rightarrow> string option) \<Rightarrow> string list \<Rightarrow> datetime \<Rightarrow> key_descriptor \<Rightarrow> string \<Rightarrow> string option \<Rightarrow>
   string option \<Rightarrow> key_table \<Rightarrow> vault_error + key_table" where
  "insert_named_key_descriptor parse_uuid tenants now desc wrapped_key parent_key_id key_name table =
     (case insert_key_row tenants
             \<lparr>kr_id = kd_id desc, kr_version = sint (kd_version desc),
              kr_algorithm = algorithm_str (kd_algorithm desc), kr_purpose = purpose_str (kd_purpose desc),
              kr_state = state_str (kd_state desc),
              kr_tenant_id = (case kd_tenant_id desc of None \<Rightarrow> None | Some s \<Rightarrow> parse_uuid s),
              kr_wrapped_key = wrapped_key, kr_parent_key_id = parent_key_id, kr_created_at = now,
              kr_rotated_at = None, kr_expires_at = kd_expires_at desc, kr_key_name = key_name\<rparr> table of
        Inl constraint \<Rightarrow> Inl (Database constraint)
      | Inr table' \<Rightarrow> Inr table')"

definition insert_key_descriptor ::
  "(string \<Rightarrow> string option) \<Rightarrow> string list \<Rightarrow> datetime \<Rightarrow> key_descriptor \<Rightarrow> string \<Rightarrow> string option \<Rightarrow>
   key_table \<Rightarrow> vault_error + key_table" where
  "insert_key_descriptor parse_uuid tenants now desc wrapped_key parent_key_id table =
     insert_named_key_descriptor parse_uuid tenants now desc wrapped_key parent_key_id None table"

definition emit_dek_upsert_event ::
  "datetime \<Rightarrow> string \<Rightarrow> string \<Rightarrow> string \<Rightarrow> string \<Rightarrow> int \<Rightarrow> string \<Rightarrow> replication_event" where
  "emit_dek_upsert_event now event_id source_region tenant_id key_id version dek_wrapped_root =
     outbox_row event_id now ''dek_upsert'' source_region
       (JObj [(''tenant_id'', JStr tenant_id), (''key_id'', JStr key_id), (''version'', JInt version),
              (''algorithm'', JStr ''aes-256-gcm''), (''dek_wrapped_root'', JStr dek_wrapped_root)])"

record persisted_key_entry =
  pk_key_id :: string
  pk_tenant_id :: "string option"
  pk_version :: u32
  pk_wrapped_key :: string
  pk_key_name :: "string option"

definition persisted_of :: "key_row \<Rightarrow> persisted_key_entry" where
  "persisted_of row =
     \<lparr>pk_key_id = kr_id row, pk_tenant_id = kr_tenant_id row, pk_version = of_int (kr_version row),
      pk_wrapped_key = kr_wrapped_key row, pk_key_name = kr_key_name row\<rparr>"

definition loadable :: "key_row \<Rightarrow> bool" where
  "loadable r \<longleftrightarrow> kr_state r = ''active'' \<or> kr_state r = ''rotating_out''"

definition get_key_with_wrapped_key :: "key_table \<Rightarrow> string \<Rightarrow> persisted_key_entry option" where
  "get_key_with_wrapped_key table key_id =
     (case sort_key (\<lambda>r. - kr_version r) (filter (\<lambda>r. kr_id r = key_id \<and> loadable r) table) of
        [] \<Rightarrow> None
      | row # _ \<Rightarrow> Some (persisted_of row))"

definition get_key_versions_with_wrapped_key :: "key_table \<Rightarrow> string \<Rightarrow> persisted_key_entry list" where
  "get_key_versions_with_wrapped_key table key_id =
     map persisted_of (sort_key kr_version (filter (\<lambda>r. kr_id r = key_id \<and> loadable r) table))"

definition list_recent_loadable_keys :: "key_table \<Rightarrow> key_purpose \<Rightarrow> nat \<Rightarrow> persisted_key_entry list" where
  "list_recent_loadable_keys table purpose limit =
     map persisted_of (sort_key kr_version (take limit (sort_key (\<lambda>r. - kr_created_at r)
       (filter (\<lambda>r. kr_purpose r = purpose_str purpose \<and> loadable r) table))))"

definition list_loadable_keys_with_wrapped_key :: "key_table \<Rightarrow> key_purpose \<Rightarrow> persisted_key_entry list" where
  "list_loadable_keys_with_wrapped_key table purpose = list_recent_loadable_keys table purpose (2 ^ 63 - 1)"

definition list_active_keys_with_wrapped_key :: "key_table \<Rightarrow> key_purpose \<Rightarrow> persisted_key_entry list" where
  "list_active_keys_with_wrapped_key table purpose = list_loadable_keys_with_wrapped_key table purpose"

text \<open>The name index excludes destroyed rows, so leaving that state can collide.\<close>

definition update_key_state :: "datetime \<Rightarrow> string \<Rightarrow> key_state \<Rightarrow> key_table \<Rightarrow> vault_error + key_table" where
  "update_key_state now key_id new_state table =
     (let change = (\<lambda>r. r\<lparr>kr_state := state_str new_state, kr_rotated_at := Some now\<rparr>)
      in if list_ex (\<lambda>r. kr_id r = key_id \<and>
              collides name_key (change r) (filter (\<lambda>r'. kr_id r' \<noteq> key_id) table)) table
         then Inl (Database ''uq_key_descriptors_tenant_name_version'')
         else Inr (map (\<lambda>r. if kr_id r = key_id then change r else r) table))"

section \<open>Lemmas\<close>

definition key_table_ok :: "key_table \<Rightarrow> bool" where
  "key_table_ok table \<longleftrightarrow> distinct (map kr_id table)"

lemma key_type_strings [simp]:
  "parse_algorithm (algorithm_str a) = a" "parse_purpose (purpose_str p) = p" "parse_state (state_str s) = s"
  by (cases a; simp add: parse_algorithm_def; fail | cases p; simp add: parse_purpose_def; fail |
      cases s; simp add: parse_state_def; fail)+

lemma purpose_str_inject [simp]: "purpose_str p = purpose_str q \<longleftrightarrow> p = q"
  by (metis key_type_strings(2))

lemma insert_key_row_Inr:
  assumes "insert_key_row tenants row table = Inr table'"
  shows "table' = table @ [row]" "\<forall>r \<in> set table. kr_id r \<noteq> kr_id row"
    "\<not> collides kek_key row table"
  using assms by (auto simp: insert_key_row_def list_ex_iff split: if_splits)

lemma insert_key_row_ok:
  "insert_key_row tenants row table = Inr table' \<Longrightarrow> key_table_ok table \<Longrightarrow> key_table_ok table'"
  by (frule insert_key_row_Inr(1), drule insert_key_row_Inr(2)) (force simp: key_table_ok_def)

lemma insert_key_row_dup:
  "\<exists>r \<in> set table. kr_id r = kr_id row \<Longrightarrow> insert_key_row tenants row table = Inl ''key_descriptors_pkey''"
  by (simp add: insert_key_row_def list_ex_iff)

lemma update_key_state_ok:
  "update_key_state now key_id s table = Inr table' \<Longrightarrow> key_table_ok table \<Longrightarrow> key_table_ok table'"
  by (auto simp: update_key_state_def key_table_ok_def Let_def comp_def if_distrib cong: if_cong split: if_splits)

lemma row_of_key:
  assumes "key_table_ok table" "row \<in> set table" "loadable row"
  shows "filter (\<lambda>r. kr_id r = kr_id row \<and> loadable r) table = [row]"
  using assms
proof (induction table)
  case (Cons r table)
  have no: "filter (\<lambda>x. kr_id x = kr_id r \<and> loadable x) table = []"
    using Cons.prems(1) unfolding filter_empty_conv by (simp add: key_table_ok_def) (metis imageI)
  from Cons show ?case by (auto simp: key_table_ok_def no)
qed simp

lemma versions_of_unique:
  assumes "key_table_ok table" "row \<in> set table" "loadable row"
  shows "get_key_versions_with_wrapped_key table (kr_id row) = [persisted_of row]"
  by (simp add: get_key_versions_with_wrapped_key_def row_of_key [OF assms])

end
