(* ===== verification/Keyring.thy ===== *)
theory Keyring
  imports Seal Key_Table
begin

text \<open>
  The key hierarchy of the crypto-service: \<^verbatim>\<open>services/crypto-service/src/kek_store.rs\<close> (tenant key
  encryption keys under the root key, data encryption keys under those, their rotation,
  their rehydration from the database).

  An operation takes and returns the store of one instance and the database it shares
  with others. The lock each operation takes makes it one step; where the code releases
  a lock and looks again, both looks are in the model. Random draws, fresh ids and the
  time are the argument of type \<open>key_draws\<close>; a failing generator is \<^term>\<open>None\<close>.
\<close>

section \<open>State\<close>

record tenant_kek_entry =
  tk_raw_kek :: bytes
  tk_wrapped_kek_b64 :: string
  tk_version :: u32

record current_dek =
  cd_key_id :: string
  cd_operations :: nat

record dek_entry =
  de_raw_dek :: bytes
  de_superseded :: "bytes list"
  de_wrapped_dek_b64 :: string
  de_tenant_id :: string
  de_version :: u32
  de_key_id :: string

definition DEK_MAX_OPERATIONS :: nat where
  "DEK_MAX_OPERATIONS = 100000"

definition WARM_LOAD_DEK_LIMIT :: nat where
  "WARM_LOAD_DEK_LIMIT = 10000"

record kek_store =
  ks_seal :: seal_inner
  ks_tenant_keks :: "(string, tenant_kek_entry) hash_map"
  ks_deks :: "(string, dek_entry) hash_map"
  ks_current_dek :: "(string, current_dek) hash_map"
  ks_db_pool :: bool

record key_db =
  kb_table :: key_table
  kb_outbox :: "replication_event list"
  kb_tenants :: "string list"

record key_env =
  ke_lib :: crypto_lib
  ke_parse_uuid :: "string \<Rightarrow> string option"
  ke_region_id :: string

record key_draws =
  kw_now :: datetime
  kw_kek :: "bytes option"
  kw_kek_nonce :: "bytes option"
  kw_kek_id :: string
  kw_dek :: "bytes option"
  kw_dek_nonce :: "bytes option"
  kw_dek_id :: string
  kw_transport_nonce :: "bytes option"
  kw_event_id :: "string option"
  kw_data_nonce :: "bytes option"

type_synonym 'a key_result = "kek_store \<times> key_db \<times> (vault_error + 'a)"

definition key_bind ::
  "'a key_result \<Rightarrow> (kek_store \<Rightarrow> key_db \<Rightarrow> 'a \<Rightarrow> 'b key_result) \<Rightarrow> 'b key_result" where
  "key_bind r f = (case r of (st, db, Inl e) \<Rightarrow> (st, db, Inl e) | (st, db, Inr x) \<Rightarrow> f st db x)"

definition with_seal_ephemeral :: "seal_inner \<Rightarrow> kek_store" where
  "with_seal_ephemeral seal =
     \<lparr>ks_seal = seal, ks_tenant_keks = [], ks_deks = [], ks_current_dek = [], ks_db_pool = False\<rparr>"

definition with_seal :: "seal_inner \<Rightarrow> kek_store" where
  "with_seal seal =
     \<lparr>ks_seal = seal, ks_tenant_keks = [], ks_deks = [], ks_current_dek = [], ks_db_pool = True\<rparr>"

definition generate_random_32_bytes :: "bytes option \<Rightarrow> vault_error + bytes" where
  "generate_random_32_bytes draw = ok_or (EncryptionFailed ''CSPRNG key generation failed'') draw"

section \<open>Tenant keys\<close>

definition tenant_kek_aad :: "string \<Rightarrow> bytes" where
  "tenant_kek_aad tenant_id = str_bytes (''tenant-kek:'' @ tenant_id)"

definition dek_reload_aad :: "string \<Rightarrow> bytes" where
  "dek_reload_aad key_id = str_bytes (''dek:reload:'' @ key_id)"

definition dek_transport_aad :: "string \<Rightarrow> bytes" where
  "dek_transport_aad key_id = str_bytes (''dek:transport:'' @ key_id)"

definition new_descriptor :: "string \<Rightarrow> u32 \<Rightarrow> key_purpose \<Rightarrow> string \<Rightarrow> datetime \<Rightarrow> key_descriptor" where
  "new_descriptor key_id version purpose tenant_id now =
     \<lparr>kd_id = key_id, kd_version = version, kd_algorithm = Aes256Gcm, kd_purpose = purpose,
      kd_state = KeyActive, kd_tenant_id = Some tenant_id, kd_created_at = now, kd_rotated_at = None,
      kd_expires_at = None\<rparr>"

definition persist_descriptor ::
  "key_env \<Rightarrow> datetime \<Rightarrow> string \<Rightarrow> key_descriptor \<Rightarrow> string \<Rightarrow> key_db \<Rightarrow> vault_error + key_db" where
  "persist_descriptor env now what desc wrapped db =
     (case insert_key_descriptor (ke_parse_uuid env) (kb_tenants db) now desc wrapped None (kb_table db) of
        Inl e \<Rightarrow> Inl (Internal (''Failed to persist '' @ what @ '' to DB: '' @ error_to_string e))
      | Inr table \<Rightarrow> Inr (db\<lparr>kb_table := table\<rparr>))"

definition invalid_tenant :: vault_error where
  "invalid_tenant = Internal ''tenant_id is not a valid UUID''"

definition get_or_create_tenant_kek ::
  "key_env \<Rightarrow> key_draws \<Rightarrow> string \<Rightarrow> kek_store \<Rightarrow> key_db \<Rightarrow> bytes key_result" where
  "get_or_create_tenant_kek env w tenant_id st db =
     (case hm_get (ks_tenant_keks st) tenant_id of
        Some entry \<Rightarrow> (st, db, Inr (tk_raw_kek entry))
      | None \<Rightarrow>
          (case and_then (generate_random_32_bytes (kw_kek w)) (\<lambda>raw_kek.
                and_then (root_key (ks_seal st)) (\<lambda>root_kek.
                and_then (encrypt_with_dek (ke_lib env) (kw_kek_nonce w) root_kek raw_kek (tenant_kek_aad tenant_id))
                  (\<lambda>envelope. Inr (raw_kek, env_ciphertext_b64 envelope)))) of
             Inl e \<Rightarrow> (st, db, Inl e)
           | Inr (raw_kek, wrapped) \<Rightarrow>
               let st' = st\<lparr>ks_tenant_keks := hm_insert tenant_id
                     \<lparr>tk_raw_kek = raw_kek, tk_wrapped_kek_b64 = wrapped, tk_version = 1\<rparr> (ks_tenant_keks st)\<rparr>
               in if \<not> ks_db_pool st then (st', db, Inr raw_kek)
                  else if ke_parse_uuid env tenant_id = None then (st', db, Inl invalid_tenant)
                  else
                    (case persist_descriptor env (kw_now w) ''tenant KEK''
                            (new_descriptor (kw_kek_id w) 1 TenantKek tenant_id (kw_now w)) wrapped db of
                       Inl e \<Rightarrow> (st', db, Inl e)
                     | Inr db' \<Rightarrow> (st', db', Inr raw_kek))))"

definition unwrap_tenant_kek :: "key_env \<Rightarrow> kek_store \<Rightarrow> string \<Rightarrow> string \<Rightarrow> vault_error + bytes" where
  "unwrap_tenant_kek env st tenant_id wrapped_kek_b64 =
     and_then (root_key (ks_seal st)) (\<lambda>root_kek.
     and_then (decrypt_with_dek (ke_lib env) root_kek wrapped_kek_b64 (tenant_kek_aad tenant_id)) (\<lambda>plaintext.
       if length plaintext \<noteq> 32
       then Inl (Internal (''Unwrapped tenant KEK has unexpected length '' @ show_nat (length plaintext)))
       else Inr plaintext))"

section \<open>Data keys\<close>

definition transport_wrap_dek :: "key_env \<Rightarrow> bytes option \<Rightarrow> kek_store \<Rightarrow> bytes \<Rightarrow> string \<Rightarrow> vault_error + string" where
  "transport_wrap_dek env nonce st raw_dek key_id =
     and_then (root_key (ks_seal st)) (\<lambda>root_kek.
     and_then (encrypt_with_dek (ke_lib env) nonce root_kek raw_dek (dek_transport_aad key_id)) (\<lambda>envelope.
       Inr (env_ciphertext_b64 envelope)))"

definition transport_unwrap_dek :: "key_env \<Rightarrow> kek_store \<Rightarrow> string \<Rightarrow> string \<Rightarrow> vault_error + bytes" where
  "transport_unwrap_dek env st wrapped_b64 key_id =
     and_then (root_key (ks_seal st)) (\<lambda>root_kek.
       decrypt_with_dek (ke_lib env) root_kek wrapped_b64 (dek_transport_aad key_id))"

text \<open>The best-effort announcement to the peer regions: a failure is only logged.\<close>

definition announce_dek ::
  "key_env \<Rightarrow> key_draws \<Rightarrow> kek_store \<Rightarrow> string \<Rightarrow> string \<Rightarrow> bytes \<Rightarrow> key_db \<Rightarrow> key_db" where
  "announce_dek env w st tenant_id key_id raw_dek db =
     (case (transport_wrap_dek env (kw_transport_nonce w) st raw_dek key_id, kw_event_id w) of
        (Inr dek_wrapped_root, Some event_id) \<Rightarrow>
          db\<lparr>kb_outbox := kb_outbox db @
            [emit_dek_upsert_event (kw_now w) event_id (ke_region_id env) tenant_id key_id 1 dek_wrapped_root]\<rparr>
      | _ \<Rightarrow> db)"

definition generate_and_store_dek ::
  "key_env \<Rightarrow> key_draws \<Rightarrow> string \<Rightarrow> kek_store \<Rightarrow> key_db \<Rightarrow> string key_result" where
  "generate_and_store_dek env w tenant_id st0 db0 =
     key_bind (get_or_create_tenant_kek env w tenant_id st0 db0) (\<lambda>st db tenant_kek.
       case and_then (generate_random_32_bytes (kw_dek w)) (\<lambda>raw_dek.
            and_then (encrypt_with_dek (ke_lib env) (kw_dek_nonce w) tenant_kek raw_dek
                        (dek_reload_aad (kw_dek_id w))) (\<lambda>envelope.
              Inr (raw_dek, env_ciphertext_b64 envelope))) of
         Inl e \<Rightarrow> (st, db, Inl e)
       | Inr (raw_dek, wrapped) \<Rightarrow>
           let key_id = kw_dek_id w;
               st' = st\<lparr>ks_deks := hm_insert key_id
                 \<lparr>de_raw_dek = raw_dek, de_superseded = [], de_wrapped_dek_b64 = wrapped,
                  de_tenant_id = tenant_id, de_version = 1, de_key_id = key_id\<rparr> (ks_deks st)\<rparr>
           in if \<not> ks_db_pool st then (st', db, Inr key_id)
              else if ke_parse_uuid env tenant_id = None then (st', db, Inl invalid_tenant)
              else
                (case ke_parse_uuid env key_id of
                   None \<Rightarrow> (st', db, Inl (Internal ''Generated key_id is not a valid UUID''))
                 | Some dek_uuid \<Rightarrow>
                     (case persist_descriptor env (kw_now w) ''DEK''
                             (new_descriptor dek_uuid 1 DataEncryption tenant_id (kw_now w)) wrapped db of
                        Inl e \<Rightarrow> (st', db, Inl e)
                      | Inr db' \<Rightarrow> (st', announce_dek env w st' tenant_id key_id raw_dek db', Inr key_id))))"

definition take_operation :: "string \<Rightarrow> current_dek \<Rightarrow> kek_store \<Rightarrow> kek_store" where
  "take_operation tenant_id entry st =
     st\<lparr>ks_current_dek := hm_insert tenant_id (entry\<lparr>cd_operations := cd_operations entry + 1\<rparr>)
        (ks_current_dek st)\<rparr>"

definition current_with_budget :: "string \<Rightarrow> kek_store \<Rightarrow> current_dek option" where
  "current_with_budget tenant_id st =
     (case hm_get (ks_current_dek st) tenant_id of
        Some entry \<Rightarrow> if cd_operations entry < DEK_MAX_OPERATIONS then Some entry else None
      | None \<Rightarrow> None)"

definition current_dek_for_encrypt ::
  "key_env \<Rightarrow> key_draws \<Rightarrow> string \<Rightarrow> kek_store \<Rightarrow> key_db \<Rightarrow> string key_result" where
  "current_dek_for_encrypt env w tenant_id st db =
     (case current_with_budget tenant_id st of
        Some entry \<Rightarrow> (take_operation tenant_id entry st, db, Inr (cd_key_id entry))
      | None \<Rightarrow>
          key_bind (generate_and_store_dek env w tenant_id st db) (\<lambda>st db key_id.
            case current_with_budget tenant_id st of
              Some entry \<Rightarrow> (take_operation tenant_id entry st, db, Inr (cd_key_id entry))
            | None \<Rightarrow>
                (st\<lparr>ks_current_dek := hm_insert tenant_id \<lparr>cd_key_id = key_id, cd_operations = 1\<rparr>
                    (ks_current_dek st)\<rparr>, db, Inr key_id)))"

section \<open>Rehydration\<close>

text \<open>The reload unwrap under the tenant key, with the fallback to the root key for a key
  that a peer region wrapped for transport.\<close>

definition unwrap_dek_row :: "key_env \<Rightarrow> kek_store \<Rightarrow> bytes \<Rightarrow> persisted_key_entry \<Rightarrow> bytes option" where
  "unwrap_dek_row env st tenant_kek row =
     (case decrypt_with_dek (ke_lib env) tenant_kek (pk_wrapped_key row) (dek_reload_aad (pk_key_id row)) of
        Inr p \<Rightarrow> if length p = 32 then Some p else None
      | Inl _ \<Rightarrow>
          (case transport_unwrap_dek env st (pk_wrapped_key row) (pk_key_id row) of
             Inr p \<Rightarrow> if length p = 32 then Some p else None
           | Inl _ \<Rightarrow> None))"

definition load_tenant_kek ::
  "key_env \<Rightarrow> bytes \<Rightarrow> persisted_key_entry \<Rightarrow> (string, tenant_kek_entry) hash_map \<Rightarrow>
   (string, tenant_kek_entry) hash_map" where
  "load_tenant_kek env root_kek row keks =
     (case pk_tenant_id row of
        None \<Rightarrow> keks
      | Some tenant_id \<Rightarrow>
          (case decrypt_with_dek (ke_lib env) root_kek (pk_wrapped_key row) (tenant_kek_aad tenant_id) of
             Inl _ \<Rightarrow> keks
           | Inr plaintext \<Rightarrow>
               if length plaintext \<noteq> 32 then keks
               else hm_insert tenant_id \<lparr>tk_raw_kek = plaintext, tk_wrapped_kek_b64 = pk_wrapped_key row,
                                         tk_version = pk_version row\<rparr> keks))"

definition load_dek ::
  "key_env \<Rightarrow> kek_store \<Rightarrow> persisted_key_entry \<Rightarrow> (string, dek_entry) hash_map \<Rightarrow> (string, dek_entry) hash_map" where
  "load_dek env st row deks =
     (case pk_tenant_id row of
        None \<Rightarrow> deks
      | Some tenant_id \<Rightarrow>
          (case hm_get (ks_tenant_keks st) tenant_id of
             None \<Rightarrow> deks
           | Some kek \<Rightarrow>
               (case unwrap_dek_row env st (tk_raw_kek kek) row of
                  None \<Rightarrow> deks
                | Some raw_dek \<Rightarrow>
                    (case hm_get deks (pk_key_id row) of
                       Some existing \<Rightarrow>
                         hm_insert (pk_key_id row) (existing\<lparr>de_superseded := de_superseded existing @ [de_raw_dek existing],
                           de_raw_dek := raw_dek, de_wrapped_dek_b64 := pk_wrapped_key row,
                           de_version := pk_version row\<rparr>) deks
                     | None \<Rightarrow>
                         hm_insert (pk_key_id row)
                           \<lparr>de_raw_dek = raw_dek, de_superseded = [], de_wrapped_dek_b64 = pk_wrapped_key row,
                            de_tenant_id = tenant_id, de_version = pk_version row, de_key_id = pk_key_id row\<rparr> deks))))"

definition load_from_db :: "key_env \<Rightarrow> kek_store \<Rightarrow> key_db \<Rightarrow> kek_store \<times> (vault_error + unit)" where
  "load_from_db env st db =
     (if \<not> ks_db_pool st then (st, Inr ())
      else
        (case root_key (ks_seal st) of
           Inl e \<Rightarrow> (st, Inl e)
         | Inr root_kek \<Rightarrow>
             let st1 = st\<lparr>ks_tenant_keks := fold (load_tenant_kek env root_kek)
                         (list_active_keys_with_wrapped_key (kb_table db) TenantKek) (ks_tenant_keks st)\<rparr>
             in (st1\<lparr>ks_deks := fold (load_dek env st1)
                   (list_recent_loadable_keys (kb_table db) DataEncryption WARM_LOAD_DEK_LIMIT) (ks_deks st1)\<rparr>,
                 Inr ())))"

definition hydrate_dek ::
  "key_env \<Rightarrow> key_draws \<Rightarrow> string \<Rightarrow> kek_store \<Rightarrow> key_db \<Rightarrow> bool key_result" where
  "hydrate_dek env w key_id st db =
     (if \<not> ks_db_pool st then (st, db, Inr False)
      else
        (case ke_parse_uuid env key_id of
           None \<Rightarrow> (st, db, Inr False)
         | Some uuid \<Rightarrow>
             let rows = get_key_versions_with_wrapped_key (kb_table db) uuid in
             (case rows of
                [] \<Rightarrow> (st, db, Inr False)
              | first # _ \<Rightarrow>
                  (case pk_tenant_id first of
                     None \<Rightarrow> (st, db, Inr False)
                   | Some tenant_id \<Rightarrow>
                       key_bind (get_or_create_tenant_kek env w tenant_id st db) (\<lambda>st db tenant_kek.
                         let versions = List.map_filter (\<lambda>row.
                               map_option (\<lambda>raw. (pk_version row, raw, pk_wrapped_key row))
                                 (unwrap_dek_row env st tenant_kek row)) rows
                         in if versions = [] then (st, db, Inr False)
                            else let (version, raw_dek, wrapped) = last versions in
                              (st\<lparr>ks_deks := hm_insert key_id
                                 \<lparr>de_raw_dek = raw_dek, de_superseded = map (\<lambda>(_, k, _). k) (butlast versions),
                                  de_wrapped_dek_b64 = wrapped, de_tenant_id = tenant_id, de_version = version,
                                  de_key_id = key_id\<rparr> (ks_deks st)\<rparr>, db, Inr True))))))"

definition hydrate_missing ::
  "key_env \<Rightarrow> key_draws \<Rightarrow> string \<Rightarrow> kek_store \<Rightarrow> key_db \<Rightarrow> unit key_result" where
  "hydrate_missing env w key_id st db =
     (if hm_get (ks_deks st) key_id = None
      then key_bind (hydrate_dek env w key_id st db) (\<lambda>st db _. (st, db, Inr ()))
      else (st, db, Inr ()))"

section \<open>Reading keys\<close>

definition owned_dek :: "kek_store \<Rightarrow> string \<Rightarrow> string \<Rightarrow> vault_error + dek_entry" where
  "owned_dek st key_id tenant_id =
     and_then (ok_or (KeyNotFound key_id) (hm_get (ks_deks st) key_id)) (\<lambda>entry.
       if de_tenant_id entry \<noteq> tenant_id then Inl (KeyNotFound key_id) else Inr entry)"

definition get_dek ::
  "key_env \<Rightarrow> key_draws \<Rightarrow> string \<Rightarrow> string \<Rightarrow> kek_store \<Rightarrow> key_db \<Rightarrow> bytes key_result" where
  "get_dek env w key_id tenant_id st db =
     key_bind (hydrate_missing env w key_id st db) (\<lambda>st db _.
       (st, db, and_then (owned_dek st key_id tenant_id) (\<lambda>entry. Inr (de_raw_dek entry))))"

definition dek_chain :: "dek_entry \<Rightarrow> bytes list" where
  "dek_chain entry = de_raw_dek entry # rev (de_superseded entry)"

definition get_dek_chain ::
  "key_env \<Rightarrow> key_draws \<Rightarrow> string \<Rightarrow> string \<Rightarrow> kek_store \<Rightarrow> key_db \<Rightarrow> bytes list key_result" where
  "get_dek_chain env w key_id tenant_id st db =
     key_bind (hydrate_missing env w key_id st db) (\<lambda>st db _.
       (st, db, and_then (owned_dek st key_id tenant_id) (\<lambda>entry. Inr (dek_chain entry))))"

definition get_dek_metadata :: "kek_store \<Rightarrow> string \<Rightarrow> string \<Rightarrow> vault_error + string \<times> u32" where
  "get_dek_metadata st key_id tenant_id =
     and_then (owned_dek st key_id tenant_id) (\<lambda>entry. Inr (de_wrapped_dek_b64 entry, de_version entry))"

definition get_dek_version_unscoped :: "kek_store \<Rightarrow> string \<Rightarrow> vault_error + u32" where
  "get_dek_version_unscoped st key_id =
     ok_or (KeyNotFound key_id) (map_option de_version (hm_get (ks_deks st) key_id))"

section \<open>Rotation\<close>

definition demote :: "bytes \<Rightarrow> string \<Rightarrow> dek_entry \<Rightarrow> dek_entry" where
  "demote new_raw_dek wrapped entry =
     entry\<lparr>de_superseded := de_superseded entry @ [de_raw_dek entry], de_raw_dek := new_raw_dek,
           de_wrapped_dek_b64 := wrapped, de_version := de_version entry + 1\<rparr>"

definition persist_rotation ::
  "key_env \<Rightarrow> datetime \<Rightarrow> string \<Rightarrow> string \<Rightarrow> u32 \<Rightarrow> string \<Rightarrow> key_db \<Rightarrow> key_db \<times> (vault_error + unit)" where
  "persist_rotation env now tenant_id key_id new_version wrapped db =
     (case ke_parse_uuid env key_id of
        None \<Rightarrow> (db, Inl (Internal ''key_id is not a valid UUID''))
      | Some key_uuid \<Rightarrow>
          if ke_parse_uuid env tenant_id = None then (db, Inl invalid_tenant)
          else
            (case update_key_state now key_uuid KeyRotatingOut (kb_table db) of
               Inl e \<Rightarrow> (db, Inl (Internal (''Failed to update old DEK state in DB: '' @ error_to_string e)))
             | Inr table \<Rightarrow>
                 let db1 = db\<lparr>kb_table := table\<rparr> in
                 (case persist_descriptor env now ''rotated DEK''
                         (new_descriptor key_uuid new_version DataEncryption tenant_id now) wrapped db1 of
                    Inl e \<Rightarrow> (db1, Inl e)
                  | Inr db2 \<Rightarrow> (db2, Inr ()))))"

definition rotate_dek ::
  "key_env \<Rightarrow> key_draws \<Rightarrow> string \<Rightarrow> string \<Rightarrow> kek_store \<Rightarrow> key_db \<Rightarrow> u32 key_result" where
  "rotate_dek env w tenant_id key_id st0 db0 =
     (case hm_get (ks_deks st0) key_id of
        None \<Rightarrow> (st0, db0, Inl (KeyNotFound key_id))
      | Some entry0 \<Rightarrow>
          if de_tenant_id entry0 \<noteq> tenant_id
          then (st0, db0, Inl (PermissionDenied (''key:'' @ key_id) ''key does not belong to the requesting tenant''))
          else
            key_bind (get_or_create_tenant_kek env w tenant_id st0 db0) (\<lambda>st db tenant_kek.
              case and_then (generate_random_32_bytes (kw_dek w)) (\<lambda>new_raw_dek.
                   and_then (encrypt_with_dek (ke_lib env) (kw_dek_nonce w) tenant_kek new_raw_dek
                               (dek_reload_aad key_id)) (\<lambda>envelope.
                     Inr (new_raw_dek, env_ciphertext_b64 envelope))) of
                Inl e \<Rightarrow> (st, db, Inl e)
              | Inr (new_raw_dek, wrapped) \<Rightarrow>
                  (case hm_get (ks_deks st) key_id of
                     None \<Rightarrow> (st, db, Inl (KeyNotFound key_id))
                   | Some entry \<Rightarrow>
                       let entry' = demote new_raw_dek wrapped entry;
                           st' = st\<lparr>ks_deks := hm_insert key_id entry' (ks_deks st)\<rparr>
                       in if \<not> ks_db_pool st then (st', db, Inr (de_version entry'))
                          else
                            (case persist_rotation env (kw_now w) tenant_id key_id (de_version entry') wrapped db of
                               (db', Inl e) \<Rightarrow> (st', db', Inl e)
                             | (db', Inr _) \<Rightarrow> (st', db', Inr (de_version entry'))))))"

section \<open>What stays true\<close>

text \<open>A later store still holds a key when it has the DEK under the same owner and every
  version it could decrypt with.\<close>

definition extends :: "(string, dek_entry) hash_map \<Rightarrow> (string, dek_entry) hash_map \<Rightarrow> bool" where
  "extends deks deks' \<longleftrightarrow>
     (\<forall>key_id e. hm_get deks key_id = Some e \<longrightarrow>
        (\<exists>e'. hm_get deks' key_id = Some e' \<and> de_tenant_id e' = de_tenant_id e \<and>
              set (dek_chain e) \<subseteq> set (dek_chain e')))"

definition keys_32 :: "(string, dek_entry) hash_map \<Rightarrow> bool" where
  "keys_32 deks \<longleftrightarrow>
     (\<forall>key_id e. hm_get deks key_id = Some e \<longrightarrow> (\<forall>k \<in> set (dek_chain e). length k = 32))"

text \<open>The current DEK of a tenant is one of its keys and has served at most the maximum.\<close>

definition current_ok :: "kek_store \<Rightarrow> bool" where
  "current_ok st \<longleftrightarrow>
     (\<forall>t c. hm_get (ks_current_dek st) t = Some c \<longrightarrow>
        1 \<le> cd_operations c \<and> cd_operations c \<le> DEK_MAX_OPERATIONS \<and>
        (\<exists>e. hm_get (ks_deks st) (cd_key_id c) = Some e \<and> de_tenant_id e = t))"

section \<open>Lemmas\<close>

lemma key_bind_simps [simp]:
  "key_bind (st, db, Inl e) f = (st, db, Inl e)"
  "key_bind (st, db, Inr x) f = f st db x"
  by (simp_all add: key_bind_def)

lemma extends_refl [simp, intro]: "extends deks deks"
  by (auto simp: extends_def)

lemma extendsD:
  assumes "extends a b" "hm_get a k = Some e"
  shows "\<exists>e'. hm_get b k = Some e' \<and> de_tenant_id e' = de_tenant_id e \<and> set (dek_chain e) \<subseteq> set (dek_chain e')"
  using assms by (simp add: extends_def)

lemma extends_trans:
  assumes "extends a b" "extends b c"
  shows "extends a c"
  unfolding extends_def
proof (intro allI impI)
  fix k e
  assume "hm_get a k = Some e"
  with assms(1) obtain e1 where 1: "hm_get b k = Some e1" "de_tenant_id e1 = de_tenant_id e"
      "set (dek_chain e) \<subseteq> set (dek_chain e1)"
    by (blast dest: extendsD)
  with assms(2) obtain e2 where "hm_get c k = Some e2" "de_tenant_id e2 = de_tenant_id e1"
      "set (dek_chain e1) \<subseteq> set (dek_chain e2)"
    by (blast dest: extendsD)
  with 1 show "\<exists>e'. hm_get c k = Some e' \<and> de_tenant_id e' = de_tenant_id e \<and> set (dek_chain e) \<subseteq> set (dek_chain e')"
    by (intro exI [of _ e2]) simp
qed

lemma extends_insert_fresh: "hm_get deks k = None \<Longrightarrow> extends deks (hm_insert k e deks)"
  by (auto simp: extends_def)

lemma extends_insert_grown:
  assumes "hm_get deks k = Some e" "de_tenant_id e' = de_tenant_id e" "set (dek_chain e) \<subseteq> set (dek_chain e')"
  shows "extends deks (hm_insert k e' deks)"
  using assms by (auto simp: extends_def)

lemma extends_fold: "(\<And>x d. extends d (f x d)) \<Longrightarrow> extends d (fold f xs d)"
  by (induction xs arbitrary: d) (auto intro: extends_trans)

lemma extends_load_dek: "extends deks (load_dek env st row deks)"
  by (auto simp: load_dek_def dek_chain_def intro: extends_insert_fresh extends_insert_grown split: option.split)

lemma keys_32_insert: "keys_32 deks \<Longrightarrow> \<forall>k \<in> set (dek_chain e). length k = 32 \<Longrightarrow> keys_32 (hm_insert key_id e deks)"
  by (auto simp: keys_32_def)

lemma keys_32_fold: "(\<And>x d. keys_32 d \<Longrightarrow> keys_32 (f x d)) \<Longrightarrow> keys_32 d \<Longrightarrow> keys_32 (fold f xs d)"
  by (induction xs arbitrary: d) auto

lemma unwrap_dek_row_32: "unwrap_dek_row env st kek row = Some raw \<Longrightarrow> length raw = 32"
  by (auto simp: unwrap_dek_row_def split: sum.splits if_splits)

lemma keys_32_load_dek:
  assumes "keys_32 deks"
  shows "keys_32 (load_dek env st row deks)"
proof -
  have "\<forall>k \<in> set (de_raw_dek e # de_superseded e). length k = 32" if "hm_get deks key_id = Some e" for key_id e
    using assms that by (auto simp: keys_32_def dek_chain_def)
  with assms show ?thesis
    by (auto simp: load_dek_def dek_chain_def intro!: keys_32_insert dest: unwrap_dek_row_32 split: option.split)
qed

text \<open>Only the DEK operations touch the DEKs.\<close>

lemma tenant_kek_keeps:
  assumes "get_or_create_tenant_kek env w tenant_id st db = (st', db', r)"
  shows "ks_deks st' = ks_deks st" "ks_current_dek st' = ks_current_dek st" "ks_seal st' = ks_seal st"
    "ks_db_pool st' = ks_db_pool st"
  using assms
  by (auto simp: get_or_create_tenant_kek_def Let_def split: option.splits sum.splits if_splits)

lemma tenant_kek_result:
  assumes "get_or_create_tenant_kek env w tenant_id st db = (st', db', Inr kek)"
  shows "\<exists>e. hm_get (ks_tenant_keks st') tenant_id = Some e \<and> tk_raw_kek e = kek"
  using assms
  by (auto simp: get_or_create_tenant_kek_def Let_def split: option.splits sum.splits if_splits)

lemma generate_result:
  assumes "generate_and_store_dek env w tenant_id st db = (st', db', r)"
  shows "(ks_deks st' = ks_deks st \<and> (\<exists>e. r = Inl e) \<or>
          (\<exists>e. ks_deks st' = hm_insert (kw_dek_id w) e (ks_deks st) \<and> de_tenant_id e = tenant_id \<and>
               kw_dek w = Some (de_raw_dek e) \<and> de_superseded e = [] \<and>
               (r = Inr (kw_dek_id w) \<or> (\<exists>err. r = Inl err)))) \<and>
         ks_current_dek st' = ks_current_dek st \<and> ks_seal st' = ks_seal st \<and> ks_db_pool st' = ks_db_pool st"
proof -
  obtain st1 db1 r1 where k: "get_or_create_tenant_kek env w tenant_id st db = (st1, db1, r1)"
    by (cases "get_or_create_tenant_kek env w tenant_id st db")
  show ?thesis
  proof (cases r1)
    case (Inl e)
    with assms k tenant_kek_keeps [OF k] show ?thesis by (auto simp: generate_and_store_dek_def)
  next
    case (Inr kek)
    have "st' = st1 \<and> (\<exists>e. r = Inl e) \<or>
        (\<exists>e. st' = st1\<lparr>ks_deks := hm_insert (kw_dek_id w) e (ks_deks st1)\<rparr> \<and> de_tenant_id e = tenant_id \<and>
             kw_dek w = Some (de_raw_dek e) \<and> de_superseded e = [] \<and>
             (r = Inr (kw_dek_id w) \<or> (\<exists>err. r = Inl err)))"
      using assms unfolding generate_and_store_dek_def k Inr key_bind_simps Let_def
      by (auto simp: generate_random_32_bytes_def result_iff
          split: sum.splits prod.splits if_splits option.splits)
    with tenant_kek_keeps [OF k] show ?thesis by auto
  qed
qed

lemma extends_generate:
  assumes "generate_and_store_dek env w tenant_id st db = (st', db', r)" "hm_get (ks_deks st) (kw_dek_id w) = None"
  shows "extends (ks_deks st) (ks_deks st')"
  using generate_result [OF assms(1)] assms(2) by (auto intro: extends_insert_fresh)

lemma keys_32_generate:
  assumes "generate_and_store_dek env w tenant_id st db = (st', db', r)"
    and "keys_32 (ks_deks st)" "\<forall>k. kw_dek w = Some k \<longrightarrow> length k = 32"
  shows "keys_32 (ks_deks st')"
  using generate_result [OF assms(1)] assms(2,3) by (auto simp: dek_chain_def intro!: keys_32_insert)

lemma current_ok_extends:
  "current_ok st \<Longrightarrow> extends (ks_deks st) (ks_deks st') \<Longrightarrow> ks_current_dek st' = ks_current_dek st \<Longrightarrow> current_ok st'"
  unfolding current_ok_def by (metis extendsD)

lemma current_ok_set:
  assumes "current_ok st" "hm_get (ks_deks st) k = Some e" "de_tenant_id e = t" "1 \<le> n" "n \<le> DEK_MAX_OPERATIONS"
  shows "current_ok (st\<lparr>ks_current_dek := hm_insert t \<lparr>cd_key_id = k, cd_operations = n\<rparr> (ks_current_dek st)\<rparr>)"
  using assms by (auto simp: current_ok_def)

lemma current_with_budget_Some:
  assumes "current_ok st" "current_with_budget t st = Some c"
  shows "current_ok (take_operation t c st)"
    "\<exists>e. hm_get (ks_deks st) (cd_key_id c) = Some e \<and> de_tenant_id e = t"
  using assms
  by (auto simp: current_with_budget_def take_operation_def current_ok_def split: option.splits if_splits)

lemma current_dek_result:
  assumes "current_dek_for_encrypt env w tenant_id st db = (st', db', r)"
    and "current_ok st" "hm_get (ks_deks st) (kw_dek_id w) = None"
  shows "current_ok st'" "extends (ks_deks st) (ks_deks st')" "ks_db_pool st' = ks_db_pool st"
    "ks_seal st' = ks_seal st"
    "r = Inr k \<Longrightarrow> \<exists>e. hm_get (ks_deks st') k = Some e \<and> de_tenant_id e = tenant_id"
proof -
  have *: "current_ok st' \<and> extends (ks_deks st) (ks_deks st') \<and> ks_db_pool st' = ks_db_pool st \<and>
     ks_seal st' = ks_seal st \<and>
     (\<forall>k. r = Inr k \<longrightarrow> (\<exists>e. hm_get (ks_deks st') k = Some e \<and> de_tenant_id e = tenant_id))"
  proof (cases "current_with_budget tenant_id st")
    case (Some c)
    with assms(1) have "st' = take_operation tenant_id c st" "r = Inr (cd_key_id c)"
      by (simp_all add: current_dek_for_encrypt_def)
    with current_with_budget_Some [OF assms(2) Some] show ?thesis by (auto simp: take_operation_def)
  next
    case None
    obtain st1 db1 r1 where g: "generate_and_store_dek env w tenant_id st db = (st1, db1, r1)"
      by (cases "generate_and_store_dek env w tenant_id st db")
    note gr = generate_result [OF g] and ex = extends_generate [OF g assms(3)]
    have ok1: "current_ok st1" using current_ok_extends [OF assms(2) ex] gr by simp
    have none: "current_with_budget tenant_id st1 = None"
      using None gr by (simp add: current_with_budget_def)
    show ?thesis
    proof (cases r1)
      case (Inl e)
      with assms(1) None g ok1 ex gr show ?thesis by (auto simp: current_dek_for_encrypt_def)
    next
      case (Inr k)
      with gr obtain e where e: "hm_get (ks_deks st1) k = Some e" "de_tenant_id e = tenant_id" by auto
      from assms(1) None g Inr none have "st' = st1\<lparr>ks_current_dek :=
          hm_insert tenant_id \<lparr>cd_key_id = k, cd_operations = 1\<rparr> (ks_current_dek st1)\<rparr>" "r = Inr k"
        by (simp_all add: current_dek_for_encrypt_def)
      with current_ok_set [OF ok1 e] ex e gr show ?thesis by (simp add: DEK_MAX_OPERATIONS_def)
    qed
  qed
  show "current_ok st'" "extends (ks_deks st) (ks_deks st')" "ks_db_pool st' = ks_db_pool st"
    "ks_seal st' = ks_seal st" using * by simp_all
  show "r = Inr k \<Longrightarrow> \<exists>e. hm_get (ks_deks st') k = Some e \<and> de_tenant_id e = tenant_id" using * by blast
qed

lemma keys_32_current_dek:
  assumes "current_dek_for_encrypt env w tenant_id st db = (st', db', r)"
    and "keys_32 (ks_deks st)" "\<forall>k. kw_dek w = Some k \<longrightarrow> length k = 32"
  shows "keys_32 (ks_deks st')"
proof -
  obtain st1 db1 r1 where g: "generate_and_store_dek env w tenant_id st db = (st1, db1, r1)"
    by (cases "generate_and_store_dek env w tenant_id st db")
  from assms(1) have "ks_deks st' = ks_deks st \<or> ks_deks st' = ks_deks st1"
    by (cases r1) (auto simp: current_dek_for_encrypt_def g take_operation_def split: option.splits)
  with assms(2) keys_32_generate [OF g assms(2,3)] show ?thesis by auto
qed

lemma hydrate_dek_keeps:
  assumes "hydrate_dek env w key_id st db = (st', db', r)" "hm_get (ks_deks st) key_id = None"
  shows "extends (ks_deks st) (ks_deks st')" "ks_current_dek st' = ks_current_dek st"
    "ks_db_pool st' = ks_db_pool st" "ks_seal st' = ks_seal st"
    "keys_32 (ks_deks st) \<Longrightarrow> keys_32 (ks_deks st')"
proof -
  have *: "extends (ks_deks st) (ks_deks st') \<and> ks_current_dek st' = ks_current_dek st \<and>
    ks_db_pool st' = ks_db_pool st \<and> ks_seal st' = ks_seal st \<and> (keys_32 (ks_deks st) \<longrightarrow> keys_32 (ks_deks st'))"
  proof (cases "\<exists>uuid first rest t. ks_db_pool st \<and> ke_parse_uuid env key_id = Some uuid \<and>
      get_key_versions_with_wrapped_key (kb_table db) uuid = first # rest \<and> pk_tenant_id first = Some t")
    case False
    with assms(1) show ?thesis
      by (auto simp: hydrate_dek_def Let_def split: if_splits option.splits list.splits)
  next
    case True
    then obtain uuid first rest t where c: "ks_db_pool st" "ke_parse_uuid env key_id = Some uuid"
      "get_key_versions_with_wrapped_key (kb_table db) uuid = first # rest" "pk_tenant_id first = Some t" by blast
    obtain st1 db1 r1 where k: "get_or_create_tenant_kek env w t st db = (st1, db1, r1)"
      by (cases "get_or_create_tenant_kek env w t st db")
    note keeps = tenant_kek_keeps [OF k]
    show ?thesis
    proof (cases r1)
      case (Inl err)
      with assms(1) c k keeps show ?thesis by (simp add: hydrate_dek_def)
    next
      case (Inr kek)
      define vs where "vs = List.map_filter (\<lambda>row. map_option (\<lambda>raw. (pk_version row, raw, pk_wrapped_key row))
          (unwrap_dek_row env st1 kek row)) (first # rest)"
      have len: "\<forall>v \<in> set vs. length (fst (snd v)) = 32"
        by (auto simp: vs_def List.map_filter_def unwrap_dek_row_32)
      from Inr assms(1) c k have "st' = st1 \<or> vs \<noteq> [] \<and>
          (\<exists>e. st' = st1\<lparr>ks_deks := hm_insert key_id e (ks_deks st1)\<rparr> \<and>
               set (dek_chain e) \<subseteq> (fst \<circ> snd) ` set vs)"
        unfolding vs_def by (simp add: hydrate_dek_def Let_def split: if_splits prod.splits)
          (force simp: dek_chain_def dest: in_set_butlastD intro: rev_image_eqI [OF last_in_set])
      with len have "st' = st1 \<or> (\<exists>e. st' = st1\<lparr>ks_deks := hm_insert key_id e (ks_deks st1)\<rparr> \<and>
          (\<forall>k \<in> set (dek_chain e). length k = 32))" by fastforce
      with keeps assms(2) show ?thesis
        by (auto intro: extends_insert_fresh keys_32_insert)
    qed
  qed
  then show "extends (ks_deks st) (ks_deks st')" "ks_current_dek st' = ks_current_dek st"
    "ks_db_pool st' = ks_db_pool st" "ks_seal st' = ks_seal st"
    "keys_32 (ks_deks st) \<Longrightarrow> keys_32 (ks_deks st')" by simp_all
qed

lemma hydrate_missing_keeps:
  assumes "hydrate_missing env w key_id st db = (st', db', r)"
  shows "extends (ks_deks st) (ks_deks st')" "ks_current_dek st' = ks_current_dek st"
    "ks_db_pool st' = ks_db_pool st" "ks_seal st' = ks_seal st"
    "keys_32 (ks_deks st) \<Longrightarrow> keys_32 (ks_deks st')"
proof -
  obtain st1 db1 r1 where h: "hydrate_dek env w key_id st db = (st1, db1, r1)"
    by (cases "hydrate_dek env w key_id st db")
  show "extends (ks_deks st) (ks_deks st')" "ks_current_dek st' = ks_current_dek st"
    "ks_db_pool st' = ks_db_pool st" "ks_seal st' = ks_seal st"
    "keys_32 (ks_deks st) \<Longrightarrow> keys_32 (ks_deks st')"
    using assms hydrate_dek_keeps [OF h]
    by (cases r1; auto simp: hydrate_missing_def h split: if_splits)+
qed

lemma get_dek_chain_keeps:
  assumes "get_dek_chain env w key_id tenant_id st db = (st', db', r)"
  shows "extends (ks_deks st) (ks_deks st')" "ks_current_dek st' = ks_current_dek st"
    "ks_db_pool st' = ks_db_pool st" "ks_seal st' = ks_seal st"
    "keys_32 (ks_deks st) \<Longrightarrow> keys_32 (ks_deks st')"
proof -
  obtain st1 db1 r1 where h: "hydrate_missing env w key_id st db = (st1, db1, r1)"
    by (cases "hydrate_missing env w key_id st db")
  show "extends (ks_deks st) (ks_deks st')" "ks_current_dek st' = ks_current_dek st"
    "ks_db_pool st' = ks_db_pool st" "ks_seal st' = ks_seal st"
    "keys_32 (ks_deks st) \<Longrightarrow> keys_32 (ks_deks st')"
    using assms hydrate_missing_keeps [OF h] by (cases r1; auto simp: get_dek_chain_def h)+
qed

lemma get_dek_keeps:
  assumes "get_dek env w key_id tenant_id st db = (st', db', r)"
  shows "extends (ks_deks st) (ks_deks st')" "ks_current_dek st' = ks_current_dek st"
    "ks_db_pool st' = ks_db_pool st" "ks_seal st' = ks_seal st"
    "keys_32 (ks_deks st) \<Longrightarrow> keys_32 (ks_deks st')"
proof -
  obtain st1 db1 r1 where h: "hydrate_missing env w key_id st db = (st1, db1, r1)"
    by (cases "hydrate_missing env w key_id st db")
  show "extends (ks_deks st) (ks_deks st')" "ks_current_dek st' = ks_current_dek st"
    "ks_db_pool st' = ks_db_pool st" "ks_seal st' = ks_seal st"
    "keys_32 (ks_deks st) \<Longrightarrow> keys_32 (ks_deks st')"
    using assms hydrate_missing_keeps [OF h] by (cases r1; auto simp: get_dek_def h)+
qed

text \<open>A cached key is read without touching the seal or the database.\<close>

lemma cached_reads:
  assumes "hm_get (ks_deks st) key_id = Some e"
  shows "get_dek env w key_id tenant_id st db =
           (st, db, if de_tenant_id e = tenant_id then Inr (de_raw_dek e) else Inl (KeyNotFound key_id))"
    and "get_dek_chain env w key_id tenant_id st db =
           (st, db, if de_tenant_id e = tenant_id then Inr (dek_chain e) else Inl (KeyNotFound key_id))"
  using assms by (auto simp: get_dek_def get_dek_chain_def hydrate_missing_def owned_dek_def)

lemma rotate_result:
  assumes "rotate_dek env w tenant_id key_id st db = (st', db', r)"
  shows "extends (ks_deks st) (ks_deks st') \<and> ks_current_dek st' = ks_current_dek st \<and>
         ks_db_pool st' = ks_db_pool st \<and> ks_seal st' = ks_seal st \<and>
         (keys_32 (ks_deks st) \<longrightarrow> (\<forall>k. kw_dek w = Some k \<longrightarrow> length k = 32) \<longrightarrow> keys_32 (ks_deks st'))"
proof (cases "\<exists>e. hm_get (ks_deks st) key_id = Some e \<and> de_tenant_id e = tenant_id")
  case False
  with assms show ?thesis by (auto simp: rotate_dek_def split: option.splits if_splits)
next
  case True
  then obtain e where e: "hm_get (ks_deks st) key_id = Some e" "de_tenant_id e = tenant_id" by blast
  obtain st1 db1 r1 where k: "get_or_create_tenant_kek env w tenant_id st db = (st1, db1, r1)"
    by (cases "get_or_create_tenant_kek env w tenant_id st db")
  note keeps = tenant_kek_keeps [OF k]
  have grown: "extends (ks_deks st) (hm_insert key_id (demote raw wr e) (ks_deks st))" for raw wr
    by (rule extends_insert_grown [OF e(1)]) (auto simp: demote_def dek_chain_def)
  show ?thesis
  proof (cases r1)
    case (Inl err)
    with assms e k keeps show ?thesis by (auto simp: rotate_dek_def)
  next
    case (Inr kek)
    with assms e k keeps have "st' = st1 \<or>
        (\<exists>raw wr. st' = st1\<lparr>ks_deks := hm_insert key_id (demote raw wr e) (ks_deks st1)\<rparr> \<and> kw_dek w = Some raw)"
      by (simp add: rotate_dek_def Let_def generate_random_32_bytes_def result_iff
          split: sum.splits prod.splits if_splits) blast+
    moreover have "keys_32 (hm_insert key_id (demote raw wr e) (ks_deks st))"
      if "keys_32 (ks_deks st)" "length raw = 32" for raw wr
      using that e(1) by (intro keys_32_insert) (auto simp: keys_32_def dek_chain_def demote_def)
    ultimately show ?thesis using keeps grown by auto
  qed
qed

end
