(* ===== verification/Crypto_Service.thy ===== *)
theory Crypto_Service
  imports Keyring
begin

text \<open>
  The crypto-service around the key store: where the root key comes from
  (\<^verbatim>\<open>services/crypto-service/src/root_key.rs\<close>), the remote procedures (\<^verbatim>\<open>grpc.rs\<close>), and what a
  history of calls, seals and restarts does to encrypted data.

  Environment variables and the key management service are parameters. A procedure
  takes and returns the store and the database; an error is the status the caller gets.
\<close>

section \<open>The root key\<close>

datatype root_key_error =
    EnvVarMissing
  | InvalidBase64 string
  | InvalidLength nat
  | KmsDecryptFailed string
  | KmsNoPlaintext
  | KmsNoCiphertext
  | AwsKmsFeatureNotEnabled
  | UnknownProvider string

record root_key_world =
  rw_var :: "string \<Rightarrow> string option"
  rw_kms_decrypt :: "string \<Rightarrow> bytes \<Rightarrow> string + bytes option"
  rw_kms_generate_data_key :: "string \<Rightarrow> string + bytes option \<times> bytes option"
  rw_aws_kms_feature :: bool

definition extract_32_bytes :: "bytes \<Rightarrow> root_key_error + bytes" where
  "extract_32_bytes raw = (if length raw \<noteq> 32 then Inl (InvalidLength (length raw)) else Inr raw)"

definition load_key_from_env_var :: "crypto_lib \<Rightarrow> root_key_world \<Rightarrow> string \<Rightarrow> root_key_error + bytes" where
  "load_key_from_env_var lib world var_name =
     and_then (ok_or EnvVarMissing (rw_var world var_name)) (\<lambda>encoded.
       case b64_decode lib (trim encoded) of
         Inl e \<Rightarrow> Inl (InvalidBase64 e)
       | Inr raw_bytes \<Rightarrow> extract_32_bytes raw_bytes)"

definition kms_decrypt :: "crypto_lib \<Rightarrow> root_key_world \<Rightarrow> string \<Rightarrow> string \<Rightarrow> root_key_error + bytes" where
  "kms_decrypt lib world key_id ciphertext_b64 =
     (case b64_decode lib ciphertext_b64 of
        Inl e \<Rightarrow> Inl (InvalidBase64 e)
      | Inr ciphertext_bytes \<Rightarrow>
          (case rw_kms_decrypt world key_id ciphertext_bytes of
             Inl e \<Rightarrow> Inl (KmsDecryptFailed e)
           | Inr plaintext \<Rightarrow> and_then (ok_or KmsNoPlaintext plaintext) extract_32_bytes))"

definition kms_generate_data_key :: "root_key_world \<Rightarrow> string \<Rightarrow> root_key_error + bytes" where
  "kms_generate_data_key world key_id =
     (case rw_kms_generate_data_key world key_id of
        Inl e \<Rightarrow> Inl (KmsDecryptFailed (''GenerateDataKey failed: '' @ e))
      | Inr (ciphertext_blob, plaintext) \<Rightarrow>
          and_then (ok_or KmsNoCiphertext ciphertext_blob) (\<lambda>_.
          and_then (ok_or KmsNoPlaintext plaintext) extract_32_bytes))"

datatype root_key_provider = EnvRootKeyProvider | AwsKmsRootKeyProvider string

definition load_root_key :: "crypto_lib \<Rightarrow> root_key_world \<Rightarrow> root_key_provider \<Rightarrow> root_key_error + bytes" where
  "load_root_key lib world provider =
     (case provider of
        EnvRootKeyProvider \<Rightarrow> load_key_from_env_var lib world ''VAULT_ROOT_KEY''
      | AwsKmsRootKeyProvider key_id \<Rightarrow>
          (let ciphertext_b64 = (case rw_var world ''VAULT_ROOT_KEY_CIPHERTEXT'' of Some s \<Rightarrow> trim s | None \<Rightarrow> []) in
           if ciphertext_b64 \<noteq> [] then kms_decrypt lib world key_id ciphertext_b64
           else if (case rw_var world ''VAULT_KMS_GENERATE'' of
                      Some v \<Rightarrow> map to_lower_char (trim v) = ''true'' | None \<Rightarrow> False)
           then kms_generate_data_key world key_id
           else Inl (KmsDecryptFailed (''VAULT_ROOT_KEY_CIPHERTEXT is not set and VAULT_KMS_GENERATE is not true. '' @
                  ''Either provide the encrypted root key blob or set VAULT_KMS_GENERATE=true to bootstrap a new one.''))))"

definition select_provider :: "root_key_world \<Rightarrow> root_key_error + root_key_provider" where
  "select_provider world =
     (let provider_name = map to_lower_char (trim (case rw_var world ''VAULT_ROOT_KEY_PROVIDER'' of
                            Some s \<Rightarrow> s | None \<Rightarrow> ''env''))
      in if provider_name = ''env'' then Inr EnvRootKeyProvider
         else if provider_name = ''aws-kms'' then
           (if rw_aws_kms_feature world
            then and_then (ok_or (KmsDecryptFailed
                     ''VAULT_KMS_KEY_ID environment variable is required for the aws-kms provider'')
                   (rw_var world ''VAULT_KMS_KEY_ID'')) (\<lambda>key_id. Inr (AwsKmsRootKeyProvider key_id))
            else Inl AwsKmsFeatureNotEnabled)
         else Inl (UnknownProvider provider_name))"

section \<open>Remote procedures\<close>

fun vault_error_to_status :: "vault_error \<Rightarrow> grpc_status" where
  "vault_error_to_status (KeyNotFound key_id) = NotFound (''key not found: '' @ key_id)"
| "vault_error_to_status (TenantNotFound tenant_id) = NotFound (''tenant not found: '' @ tenant_id)"
| "vault_error_to_status (PermissionDenied resource reason) =
     PermissionDeniedStatus (''permission denied on '' @ resource @ '': '' @ reason)"
| "vault_error_to_status (ValidationError field reason) =
     InvalidArgument (''validation error on '' @ field @ '': '' @ reason)"
| "vault_error_to_status (EncryptionFailed _) = InternalStatus ''encryption operation failed''"
| "vault_error_to_status DecryptionFailed = InternalStatus ''decryption operation failed''"
| "vault_error_to_status _ = InternalStatus ''internal service error''"

definition require_non_empty :: "string \<Rightarrow> string \<Rightarrow> grpc_status + string" where
  "require_non_empty val field =
     (if trim val = [] then Inl (InvalidArgument (''field '' @ [CHR 0x27] @ field @ [CHR 0x27] @ '' must not be empty''))
      else Inr val)"

type_synonym 'a rpc_result = "kek_store \<times> key_db \<times> (grpc_status + 'a)"

definition rpc_bind :: "'a key_result \<Rightarrow> (kek_store \<Rightarrow> key_db \<Rightarrow> 'a \<Rightarrow> 'b rpc_result) \<Rightarrow> 'b rpc_result" where
  "rpc_bind r f =
     (case r of (st, db, Inl e) \<Rightarrow> (st, db, Inl (vault_error_to_status e)) | (st, db, Inr x) \<Rightarrow> f st db x)"

definition encrypt_rpc ::
  "key_env \<Rightarrow> key_draws \<Rightarrow> string \<Rightarrow> bytes \<Rightarrow> bytes \<Rightarrow> kek_store \<Rightarrow> key_db \<Rightarrow> (string \<times> string) rpc_result" where
  "encrypt_rpc env w tenant_id plaintext aad st db =
     (case require_non_empty tenant_id ''tenant_id'' of
        Inl s \<Rightarrow> (st, db, Inl s)
      | Inr _ \<Rightarrow>
          if plaintext = [] then (st, db, Inl (InvalidArgument ''plaintext must not be empty''))
          else
            rpc_bind (current_dek_for_encrypt env w tenant_id st db) (\<lambda>st db key_id.
            rpc_bind (get_dek env w key_id tenant_id st db) (\<lambda>st db dek.
              (st, db,
               case encrypt_with_dek (ke_lib env) (kw_data_nonce w) dek plaintext aad of
                 Inl e \<Rightarrow> Inl (vault_error_to_status e)
               | Inr envelope \<Rightarrow> Inr (env_ciphertext_b64 envelope, key_id)))))"

fun try_decrypt :: "crypto_lib \<Rightarrow> string \<Rightarrow> bytes \<Rightarrow> bytes list \<Rightarrow> bytes option" where
  "try_decrypt lib ciphertext_b64 aad [] = None"
| "try_decrypt lib ciphertext_b64 aad (dek # chain) =
     (case decrypt_with_dek lib dek ciphertext_b64 aad of
        Inr pt \<Rightarrow> Some pt
      | Inl _ \<Rightarrow> try_decrypt lib ciphertext_b64 aad chain)"

definition decrypt_request :: "string \<Rightarrow> string \<Rightarrow> grpc_status + string \<times> string" where
  "decrypt_request tenant_id combined =
     and_then (require_non_empty tenant_id ''tenant_id'') (\<lambda>_.
     and_then (ok_or (InvalidArgument (''ciphertext_b64 must be in the format '' @ [CHR 0x27] @
                  ''<dek_id>:<base64_ciphertext>'' @ [CHR 0x27])) (split_once CHR '':'' combined)) (\<lambda>(dek_id, ct).
     and_then (require_non_empty dek_id ''dek_id (embedded in ciphertext_b64)'') (\<lambda>_.
     and_then (require_non_empty ct ''base64 ciphertext (embedded in ciphertext_b64)'') (\<lambda>_.
       Inr (dek_id, ct)))))"

definition decrypt_rpc ::
  "key_env \<Rightarrow> key_draws \<Rightarrow> string \<Rightarrow> string \<Rightarrow> bytes \<Rightarrow> kek_store \<Rightarrow> key_db \<Rightarrow> bytes rpc_result" where
  "decrypt_rpc env w tenant_id combined aad st db =
     (case decrypt_request tenant_id combined of
        Inl s \<Rightarrow> (st, db, Inl s)
      | Inr (dek_id, ct) \<Rightarrow>
          rpc_bind (get_dek_chain env w dek_id tenant_id st db) (\<lambda>st db chain.
            (st, db, ok_or (vault_error_to_status DecryptionFailed) (try_decrypt (ke_lib env) ct aad chain))))"

definition generate_dek_rpc ::
  "key_env \<Rightarrow> key_draws \<Rightarrow> string \<Rightarrow> string \<Rightarrow> kek_store \<Rightarrow> key_db \<Rightarrow> (string \<times> u32 \<times> string) rpc_result" where
  "generate_dek_rpc env w tenant_id context st db =
     (case and_then (require_non_empty tenant_id ''tenant_id'') (\<lambda>_. require_non_empty context ''context'') of
        Inl s \<Rightarrow> (st, db, Inl s)
      | Inr _ \<Rightarrow>
          rpc_bind (generate_and_store_dek env w tenant_id st db) (\<lambda>st db key_id.
            (st, db,
             case get_dek_metadata st key_id tenant_id of
               Inl e \<Rightarrow> Inl (vault_error_to_status e)
             | Inr (wrapped_dek_b64, version) \<Rightarrow> Inr (key_id, version, wrapped_dek_b64))))"

definition rotate_key_rpc ::
  "key_env \<Rightarrow> key_draws \<Rightarrow> string \<Rightarrow> string \<Rightarrow> kek_store \<Rightarrow> key_db \<Rightarrow> (string \<times> u32) rpc_result" where
  "rotate_key_rpc env w tenant_id key_id st db =
     (case and_then (require_non_empty tenant_id ''tenant_id'') (\<lambda>_. require_non_empty key_id ''key_id'') of
        Inl s \<Rightarrow> (st, db, Inl s)
      | Inr _ \<Rightarrow>
          rpc_bind (rotate_dek env w tenant_id key_id st db) (\<lambda>st db new_version. (st, db, Inr (key_id, new_version))))"

definition get_key_descriptor_rpc :: "kek_store \<Rightarrow> string \<Rightarrow> grpc_status + string \<times> u32" where
  "get_key_descriptor_rpc st key_id =
     and_then (require_non_empty key_id ''key_id'') (\<lambda>_.
       case get_dek_version_unscoped st key_id of
         Inl e \<Rightarrow> Inl (vault_error_to_status e)
       | Inr version \<Rightarrow> Inr (key_id, version))"

text \<open>A new process: the store is empty, and loads from the database when it starts unsealed.\<close>

definition restart :: "key_env \<Rightarrow> seal_inner \<Rightarrow> key_db \<Rightarrow> kek_store" where
  "restart env seal db =
     (let st = with_seal seal in if is_unsealed seal then fst (load_from_db env st db) else st)"

section \<open>Histories\<close>

text \<open>The generator gives 32-byte keys and 12-byte nonces, and an id never seen before.\<close>

definition draws_ok :: "key_draws \<Rightarrow> kek_store \<Rightarrow> bool" where
  "draws_ok w st \<longleftrightarrow>
     (\<forall>k. kw_dek w = Some k \<longrightarrow> length k = 32) \<and> (\<forall>n. kw_data_nonce w = Some n \<longrightarrow> length n = 12) \<and>
     hm_get (ks_deks st) (kw_dek_id w) = None"

text \<open>Any procedure with any arguments, any change of the seal, reloading the caches, and
  any change another process makes to the database.\<close>

inductive crypto_step :: "key_env \<Rightarrow> kek_store \<times> key_db \<Rightarrow> kek_store \<times> key_db \<Rightarrow> bool"
  for env :: key_env where
  step_encrypt: "draws_ok w st \<Longrightarrow> encrypt_rpc env w t m a st db = (st', db', r) \<Longrightarrow> crypto_step env (st, db) (st', db')"
| step_decrypt: "decrypt_rpc env w t c a st db = (st', db', r) \<Longrightarrow> crypto_step env (st, db) (st', db')"
| step_generate: "draws_ok w st \<Longrightarrow> generate_dek_rpc env w t x st db = (st', db', r) \<Longrightarrow> crypto_step env (st, db) (st', db')"
| step_rotate: "draws_ok w st \<Longrightarrow> rotate_key_rpc env w t k st db = (st', db', r) \<Longrightarrow> crypto_step env (st, db) (st', db')"
| step_load: "load_from_db env st db = (st', r) \<Longrightarrow> crypto_step env (st, db) (st', db)"
| step_seal: "crypto_step env (st, db) (st\<lparr>ks_seal := seal\<rparr>, db)"
| step_database: "crypto_step env (st, db) (st, db')"

definition keyring_ok :: "kek_store \<Rightarrow> bool" where
  "keyring_ok st \<longleftrightarrow> current_ok st \<and> keys_32 (ks_deks st)"

section \<open>Lemmas\<close>

lemma rpc_bind_simps [simp]:
  "rpc_bind (st, db, Inl e) f = (st, db, Inl (vault_error_to_status e))"
  "rpc_bind (st, db, Inr x) f = f st db x"
  by (simp_all add: rpc_bind_def)

lemma require_non_empty_Inr [simp]: "require_non_empty v f = Inr x \<longleftrightarrow> trim v \<noteq> [] \<and> x = v"
  by (auto simp: require_non_empty_def)

lemma try_decrypt_hit:
  assumes "k \<in> set chain" "decrypt_with_dek lib k ct aad = Inr m"
    and "\<And>k' m'. k' \<in> set chain \<Longrightarrow> decrypt_with_dek lib k' ct aad = Inr m' \<Longrightarrow> m' = m"
  shows "try_decrypt lib ct aad chain = Some m"
  using assms
proof (induction chain)
  case (Cons k0 chain)
  show ?case
  proof (cases "decrypt_with_dek lib k0 ct aad")
    case (Inl e)
    then have k: "k \<in> set chain" using Cons.prems(1,2) by auto
    have "try_decrypt lib ct aad chain = Some m"
      by (rule Cons.IH [OF k Cons.prems(2)], rule Cons.prems(3)) simp_all
    with Inl show ?thesis by simp
  next
    case (Inr m0)
    have "m0 = m" by (rule Cons.prems(3) [OF _ Inr]) simp
    with Inr show ?thesis by simp
  qed
qed simp

lemma encrypt_rpc_keeps:
  assumes "encrypt_rpc env w t m a st db = (st', db', r)" "keyring_ok st" "draws_ok w st"
  shows "keyring_ok st' \<and> extends (ks_deks st) (ks_deks st')"
proof -
  obtain st1 db1 r1 where c: "current_dek_for_encrypt env w t st db = (st1, db1, r1)"
    by (cases "current_dek_for_encrypt env w t st db")
  note cr = current_dek_result [OF c] and k32 = keys_32_current_dek [OF c]
  have ok1: "keyring_ok st1" "extends (ks_deks st) (ks_deks st1)"
    using cr(1,2) k32 assms(2,3) by (auto simp: keyring_ok_def draws_ok_def)
  show ?thesis
  proof (cases "trim t = [] \<or> m = [] \<or> (\<exists>e. r1 = Inl e)")
    case True
    with assms(1) c have "st' = st \<or> st' = st1"
      by (auto simp: encrypt_rpc_def require_non_empty_def split: if_splits)
    with ok1 assms(2) show ?thesis by auto
  next
    case False
    then obtain k where k: "r1 = Inr k" by (cases r1) auto
    obtain st2 db2 r2 where g: "get_dek env w k t st1 db1 = (st2, db2, r2)" by (cases "get_dek env w k t st1 db1")
    from assms(1) c g k False have "st' = st2"
      by (cases r2) (auto simp: encrypt_rpc_def require_non_empty_def)
    with get_dek_keeps [OF g] ok1 show ?thesis
      by (auto simp: keyring_ok_def intro: extends_trans current_ok_extends)
  qed
qed

lemma decrypt_rpc_keeps:
  assumes "decrypt_rpc env w t c a st db = (st', db', r)"
  shows "extends (ks_deks st) (ks_deks st') \<and> ks_current_dek st' = ks_current_dek st \<and>
         (keys_32 (ks_deks st) \<longrightarrow> keys_32 (ks_deks st'))"
proof -
  show ?thesis
  proof (cases "decrypt_request t c")
    case (Inl e)
    with assms show ?thesis by (simp add: decrypt_rpc_def)
  next
    case (Inr x)
    obtain k ct where x: "x = (k, ct)" by (cases x)
    obtain st1 db1 r1 where g: "get_dek_chain env w k t st db = (st1, db1, r1)"
      by (cases "get_dek_chain env w k t st db")
    from assms Inr x g have "st' = st1" by (cases r1) (simp_all add: decrypt_rpc_def)
    with get_dek_chain_keeps [OF g] show ?thesis by simp
  qed
qed

lemma generate_rpc_keeps:
  assumes "generate_dek_rpc env w t x st db = (st', db', r)" "keyring_ok st" "draws_ok w st"
  shows "keyring_ok st' \<and> extends (ks_deks st) (ks_deks st')"
proof -
  obtain st1 db1 r1 where g: "generate_and_store_dek env w t st db = (st1, db1, r1)"
    by (cases "generate_and_store_dek env w t st db")
  from assms(1) have "st' = st \<or> st' = st1"
    by (cases r1) (auto simp: generate_dek_rpc_def g split: sum.splits)
  moreover have "extends (ks_deks st) (ks_deks st1)" "ks_current_dek st1 = ks_current_dek st"
    using extends_generate [OF g] generate_result [OF g] assms(3) by (auto simp: draws_ok_def)
  moreover have "keys_32 (ks_deks st1)"
    using keys_32_generate [OF g] assms(2,3) by (simp add: keyring_ok_def draws_ok_def)
  ultimately show ?thesis using assms(2) by (auto simp: keyring_ok_def intro: current_ok_extends)
qed

lemma rotate_rpc_keeps:
  assumes "rotate_key_rpc env w t k st db = (st', db', r)" "keyring_ok st" "draws_ok w st"
  shows "keyring_ok st' \<and> extends (ks_deks st) (ks_deks st')"
proof -
  obtain st1 db1 r1 where g: "rotate_dek env w t k st db = (st1, db1, r1)" by (cases "rotate_dek env w t k st db")
  from assms(1) have "st' = st \<or> st' = st1"
    by (cases r1) (auto simp: rotate_key_rpc_def g split: sum.splits)
  with rotate_result [OF g] assms(2,3) show ?thesis
    by (auto simp: keyring_ok_def draws_ok_def intro: current_ok_extends)
qed

lemma load_from_db_keeps:
  assumes "load_from_db env st db = (st', r)"
  shows "extends (ks_deks st) (ks_deks st') \<and> ks_current_dek st' = ks_current_dek st \<and>
         (keys_32 (ks_deks st) \<longrightarrow> keys_32 (ks_deks st'))"
  using assms
  by (auto simp: load_from_db_def Let_def intro!: extends_fold extends_load_dek keys_32_fold keys_32_load_dek
      split: if_splits sum.splits)

lemma crypto_step_keeps:
  assumes "crypto_step env s s'" "keyring_ok (fst s)"
  shows "keyring_ok (fst s') \<and> extends (ks_deks (fst s)) (ks_deks (fst s'))"
  using assms
proof (induction rule: crypto_step.induct)
  case (step_encrypt w st t m a db st' db' r)
  then show ?case using encrypt_rpc_keeps by simp
next
  case (step_decrypt w t c a st db st' db' r)
  from decrypt_rpc_keeps [OF step_decrypt(1)] step_decrypt(2) show ?case
    by (auto simp: keyring_ok_def intro: current_ok_extends)
next
  case (step_generate w st t x db st' db' r)
  then show ?case using generate_rpc_keeps by simp
next
  case (step_rotate w st t k db st' db' r)
  then show ?case using rotate_rpc_keeps by simp
next
  case (step_load st db st' r)
  from load_from_db_keeps [OF step_load(1)] step_load(2) show ?case
    by (auto simp: keyring_ok_def intro: current_ok_extends)
qed (simp_all add: keyring_ok_def current_ok_def)

lemma crypto_steps_keep:
  assumes "(crypto_step env)\<^sup>*\<^sup>* s s'" "keyring_ok (fst s)"
  shows "keyring_ok (fst s')" "extends (ks_deks (fst s)) (ks_deks (fst s'))"
proof -
  from assms have "keyring_ok (fst s') \<and> extends (ks_deks (fst s)) (ks_deks (fst s'))"
    by (induction rule: rtranclp_induct) (auto dest: crypto_step_keeps intro: extends_trans)
  then show "keyring_ok (fst s')" "extends (ks_deks (fst s)) (ks_deks (fst s'))" by auto
qed

text \<open>What an answered encryption left behind.\<close>

lemma encrypt_rpc_result:
  assumes "encrypt_rpc env w t m a st db = (st', db', Inr (ct, key_id))" "keyring_ok st" "draws_ok w st"
  shows "\<exists>e nonce envelope. trim t \<noteq> [] \<and> hm_get (ks_deks st') key_id = Some e \<and> de_tenant_id e = t \<and>
           length nonce = 12 \<and> encrypt_with_dek (ke_lib env) (Some nonce) (de_raw_dek e) m a = Inr envelope \<and>
           ct = env_ciphertext_b64 envelope"
proof -
  obtain st1 db1 r1 where c: "current_dek_for_encrypt env w t st db = (st1, db1, r1)"
    by (cases "current_dek_for_encrypt env w t st db")
  have t: "trim t \<noteq> []" "m \<noteq> []"
    using assms(1) by (auto simp: encrypt_rpc_def require_non_empty_def split: if_splits)
  obtain k where k: "r1 = Inr k"
    using assms(1) t c by (cases r1) (auto simp: encrypt_rpc_def require_non_empty_def)
  from current_dek_result(5) [OF c _ _ k] assms(2,3)
  obtain e where e: "hm_get (ks_deks st1) k = Some e" "de_tenant_id e = t"
    by (auto simp: keyring_ok_def draws_ok_def)
  have g: "get_dek env w k t st1 db1 = (st1, db1, Inr (de_raw_dek e))"
    using cached_reads(1) [OF e(1)] e(2) by simp
  from assms(1) t c k g obtain envelope where st': "st' = st1" "key_id = k" "ct = env_ciphertext_b64 envelope"
    and env: "encrypt_with_dek (ke_lib env) (kw_data_nonce w) (de_raw_dek e) m a = Inr envelope"
    by (auto simp: encrypt_rpc_def require_non_empty_def split: sum.splits)
  from env obtain nonce where "kw_data_nonce w = Some nonce"
    by (auto simp: encrypt_with_dek_def generate_aes_gcm_nonce_def result_iff)
  with env assms(3) st' e t show ?thesis by (auto simp: draws_ok_def)
qed

lemma decrypt_rpc_cached:
  assumes "trim t \<noteq> []" "trim key_id \<noteq> []" "trim ct \<noteq> []" "CHR '':'' \<notin> set key_id"
    and "hm_get (ks_deks st) key_id = Some e"
  shows "decrypt_rpc env w t (key_id @ '':'' @ ct) a st db =
           (st, db, if de_tenant_id e = t
                    then ok_or (vault_error_to_status DecryptionFailed) (try_decrypt (ke_lib env) ct a (dek_chain e))
                    else Inl (NotFound (''key not found: '' @ key_id)))"
proof -
  have "decrypt_request t (key_id @ '':'' @ ct) = Inr (key_id, ct)"
    using assms(1-4) by (simp add: decrypt_request_def require_non_empty_def)
  then show ?thesis by (simp add: decrypt_rpc_def cached_reads(2) [OF assms(5)])
qed

section \<open>A service to evaluate\<close>

definition demo_key_env :: key_env where
  "demo_key_env = \<lparr>ke_lib = demo_lib, ke_parse_uuid = Some, ke_region_id = ''eu''\<rparr>"

definition demo_key_draws :: "nat \<Rightarrow> string \<Rightarrow> key_draws" where
  "demo_key_draws n key_id =
     \<lparr>kw_now = int n, kw_kek = Some (replicate 32 1), kw_kek_nonce = Some (replicate 12 2),
      kw_kek_id = ''kek'', kw_dek = Some (replicate 32 (of_nat n)), kw_dek_nonce = Some (replicate 12 3),
      kw_dek_id = key_id, kw_transport_nonce = Some (replicate 12 4), kw_event_id = Some ''e'',
      kw_data_nonce = Some (replicate 12 5)\<rparr>"

definition demo_key_seal :: seal_inner where
  "demo_key_seal = unseal_with_root_key (replicate 32 9) seal_new"

definition demo_key_db :: key_db where
  "demo_key_db = \<lparr>kb_table = [], kb_outbox = [], kb_tenants = [''t'']\<rparr>"

text \<open>A first encryption, and a rotation of the key it used.\<close>

definition demo_encrypted :: "(string \<times> string) rpc_result" where
  "demo_encrypted = encrypt_rpc demo_key_env (demo_key_draws 7 ''k'') ''t'' [104, 105] [] (with_seal demo_key_seal) demo_key_db"

definition demo_rotated :: "(string \<times> u32) rpc_result" where
  "demo_rotated = rotate_key_rpc demo_key_env (demo_key_draws 8 ''k2'') ''t'' ''k'' (fst demo_encrypted) (fst (snd demo_encrypted))"

lemma keyring_ok_new [simp]: "keyring_ok (with_seal seal)" "keyring_ok (with_seal_ephemeral seal)"
  by (simp_all add: keyring_ok_def current_ok_def keys_32_def with_seal_def with_seal_ephemeral_def)

lemma demo_draws_ok: "hm_get (ks_deks st) key_id = None \<Longrightarrow> draws_ok (demo_key_draws n key_id) st"
  by (simp add: draws_ok_def demo_key_draws_def)

lemmas keyring_eval =
  encrypt_rpc_def require_non_empty_def current_dek_for_encrypt_def current_with_budget_def
  generate_and_store_dek_def get_or_create_tenant_kek_def generate_random_32_bytes_def root_key_def
  encrypt_with_dek_def generate_aes_gcm_nonce_def persist_descriptor_def insert_key_descriptor_def
  insert_named_key_descriptor_def insert_key_row_def collides_def kek_key_def name_key_def new_descriptor_def announce_dek_def
  transport_wrap_dek_def emit_dek_upsert_event_def get_dek_def hydrate_missing_def owned_dek_def
  rotate_key_rpc_def rotate_dek_def demote_def persist_rotation_def update_key_state_def
  demo_key_env_def demo_key_draws_def demo_key_db_def demo_key_seal_def with_seal_def
  unseal_with_root_key_def seal_new_def

lemma trim_demo [simp]: "trim ''t'' = ''t''" "trim ''k'' = ''k''"
  by code_simp+

lemma demo_encrypted_eq:
  "\<exists>st db ct. demo_encrypted = (st, db, Inr (ct, ''k'')) \<and> hm_get (ks_deks st) ''k2'' = None \<and>
     hm_get (ks_current_dek st) ''t'' = Some \<lparr>cd_key_id = ''k'', cd_operations = 1\<rparr>"
  by (simp add: demo_encrypted_def keyring_eval Let_def trim_demo)

lemma demo_rotated_versions:
  assumes "demo_encrypted = (st, db, Inr (ct, ''k''))"
  shows "\<exists>e e2. hm_get (ks_deks st) ''k'' = Some e \<and> hm_get (ks_deks (fst demo_rotated)) ''k'' = Some e2 \<and>
    (\<forall>k \<in> set (dek_chain e2). k \<noteq> de_raw_dek e \<longrightarrow> isl (decrypt_with_dek (ke_lib demo_key_env) k ct []))"
  using assms demo_other_key [of "replicate 12 5" "replicate 32 8" "replicate 32 7" "[104, 105]" "[]"]
  by (auto simp: demo_rotated_def demo_encrypted_def keyring_eval Let_def trim_demo dek_chain_def
      replicate_eq_replicate)

section \<open>Properties\<close>

text \<open>C20. Encrypted data stays readable: if a tenant's plaintext was encrypted, then whatever
  any tenant does afterwards, in any order (encryptions, key generations, rotations of
  any key, reloads, seals and unseals, changes of the database by other instances), as
  long as the process runs, decrypting with the returned key id and the same associated
  data returns that plaintext, provided none of the other versions of that key the
  process then holds happens to pass the tag check on this ciphertext.\<close>

theorem decrypts_what_was_encrypted:
  assumes lib: "crypto_ok (ke_lib env)"
    and st: "keyring_ok st" "draws_ok w st"
    and enc: "encrypt_rpc env w t m a st db = (st1, db1, Inr (ct, key_id))"
    and id: "CHR '':'' \<notin> set key_id" "trim key_id \<noteq> []"
    and steps: "(crypto_step env)\<^sup>*\<^sup>* (st1, db1) (st2, db2)"
    and versions: "hm_get (ks_deks st1) key_id = Some e" "hm_get (ks_deks st2) key_id = Some e2"
      "\<forall>k \<in> set (dek_chain e2). k \<noteq> de_raw_dek e \<longrightarrow> isl (decrypt_with_dek (ke_lib env) k ct a)"
  shows "decrypt_rpc env w' t (key_id @ '':'' @ ct) a st2 db2 = (st2, db2, Inr m)"
proof -
  from encrypt_rpc_result [OF enc st] versions(1) obtain nonce envelope where
    t: "trim t \<noteq> []" and e: "de_tenant_id e = t"
    and n: "length nonce = 12" and envl: "encrypt_with_dek (ke_lib env) (Some nonce) (de_raw_dek e) m a = Inr envelope"
      "ct = env_ciphertext_b64 envelope"
    by auto
  have ok1: "keyring_ok (fst (st1, db1))" using encrypt_rpc_keeps [OF enc st] by simp
  have "extends (ks_deks st1) (ks_deks st2)" using crypto_steps_keep(2) [OF steps ok1] by simp
  from extendsD [OF this versions(1)] versions(2) have e2: "de_tenant_id e2 = t"
      "set (dek_chain e) \<subseteq> set (dek_chain e2)" unfolding e by auto
  have hit: "decrypt_with_dek (ke_lib env) (de_raw_dek e) ct a = Inr m"
    using encrypt_decrypt [OF lib n envl(1)] envl(2) by simp
  have "try_decrypt (ke_lib env) ct a (dek_chain e2) = Some m"
  proof (rule try_decrypt_hit)
    show "de_raw_dek e \<in> set (dek_chain e2)" using e2(2) by (auto simp: dek_chain_def)
    show "m' = m" if "k' \<in> set (dek_chain e2)" "decrypt_with_dek (ke_lib env) k' ct a = Inr m'" for k' m'
      using versions(3) that hit by (cases "k' = de_raw_dek e") auto
  qed (rule hit)
  moreover have "trim ct \<noteq> []"
    using envl lib n
    by (auto simp: encrypt_with_dek_def generate_aes_gcm_nonce_def result_iff crypto_ok_def base64_ok_simps)
  ultimately show ?thesis using decrypt_rpc_cached [OF t id(2) _ id(1) versions(2)] e2(1) by simp
qed

theorem decrypts_what_was_encrypted_witness:
  "\<exists>st db ct. demo_encrypted = (st, db, Inr (ct, ''k'')) \<and>
     decrypt_rpc demo_key_env (demo_key_draws 9 ''k3'') ''t'' (''k:'' @ ct) [] (fst demo_rotated) (fst (snd demo_rotated)) =
       (fst demo_rotated, fst (snd demo_rotated), Inr [104, 105])"
proof -
  obtain st db ct where d: "demo_encrypted = (st, db, Inr (ct, ''k''))" "hm_get (ks_deks st) ''k2'' = None"
    using demo_encrypted_eq by blast
  have enc: "encrypt_rpc demo_key_env (demo_key_draws 7 ''k'') ''t'' [104, 105] [] (with_seal demo_key_seal) demo_key_db =
      (st, db, Inr (ct, ''k''))"
    using d(1) by (simp add: demo_encrypted_def)
  have rot: "rotate_key_rpc demo_key_env (demo_key_draws 8 ''k2'') ''t'' ''k'' st db =
      (fst demo_rotated, fst (snd demo_rotated), snd (snd demo_rotated))"
    by (simp add: demo_rotated_def d(1))
  have step: "(crypto_step demo_key_env)\<^sup>*\<^sup>* (st, db) (fst demo_rotated, fst (snd demo_rotated))"
    by (rule r_into_rtranclp) (rule step_rotate [OF demo_draws_ok [OF d(2)] rot])
  have draws: "draws_ok (demo_key_draws 7 ''k'') (with_seal demo_key_seal)"
    by (rule demo_draws_ok) (simp add: with_seal_def)
  have lib: "crypto_ok (ke_lib demo_key_env)" by (simp add: demo_key_env_def demo_lib_ok)
  obtain e e2 where versions: "hm_get (ks_deks st) ''k'' = Some e" "hm_get (ks_deks (fst demo_rotated)) ''k'' = Some e2"
    "\<forall>k \<in> set (dek_chain e2). k \<noteq> de_raw_dek e \<longrightarrow> isl (decrypt_with_dek (ke_lib demo_key_env) k ct [])"
    using demo_rotated_versions [OF d(1)] by blast
  from decrypts_what_was_encrypted [OF lib keyring_ok_new(1) draws enc _ _ step versions, of "demo_key_draws 9 ''k3''"]
  have "decrypt_rpc demo_key_env (demo_key_draws 9 ''k3'') ''t'' (''k:'' @ ct) [] (fst demo_rotated)
      (fst (snd demo_rotated)) = (fst demo_rotated, fst (snd demo_rotated), Inr [104, 105])" by simp
  with d(1) show ?thesis by blast
qed

text \<open>C21. A key has one owner: once a data key is in the store, whatever happens afterwards,
  another tenant's request to decrypt with it answers that the key does not exist, and its
  request to rotate it is denied; both leave the store and the database as they were.\<close>

theorem foreign_key_refused:
  assumes "keyring_ok st" "hm_get (ks_deks st) key_id = Some e" "(crypto_step env)\<^sup>*\<^sup>* (st, db) (st2, db2)"
    and "t \<noteq> de_tenant_id e" "trim t \<noteq> []" "trim key_id \<noteq> []" "trim ct \<noteq> []" "CHR '':'' \<notin> set key_id"
  shows "decrypt_rpc env w t (key_id @ '':'' @ ct) a st2 db2 = (st2, db2, Inl (NotFound (''key not found: '' @ key_id))) \<and>
         rotate_key_rpc env w t key_id st2 db2 =
           (st2, db2, Inl (PermissionDeniedStatus (''permission denied on key:'' @ key_id @
              '': key does not belong to the requesting tenant'')))"
proof -
  have "extends (ks_deks st) (ks_deks st2)" using crypto_steps_keep(2) [OF assms(3)] assms(1) by simp
  from extendsD [OF this assms(2)] obtain e2 where e2: "hm_get (ks_deks st2) key_id = Some e2"
      "de_tenant_id e2 = de_tenant_id e" by blast
  have "decrypt_rpc env w t (key_id @ '':'' @ ct) a st2 db2 = (st2, db2, Inl (NotFound (''key not found: '' @ key_id)))"
    using decrypt_rpc_cached [OF assms(5,6,7,8) e2(1)] e2(2) assms(4) by simp
  moreover have "rotate_key_rpc env w t key_id st2 db2 =
      (st2, db2, Inl (PermissionDeniedStatus (''permission denied on key:'' @ key_id @
         '': key does not belong to the requesting tenant'')))"
    using assms(4,5,6) e2 by (simp add: rotate_key_rpc_def require_non_empty_def rotate_dek_def)
  ultimately show ?thesis ..
qed

theorem foreign_key_refused_witness:
  "\<exists>st db ct. demo_encrypted = (st, db, Inr (ct, ''k'')) \<and>
     snd (snd (decrypt_rpc demo_key_env (demo_key_draws 9 ''k3'') ''u'' ''k:c'' [] st db)) = Inl (NotFound ''key not found: k'')"
proof -
  obtain st db ct where d: "demo_encrypted = (st, db, Inr (ct, ''k''))" using demo_encrypted_eq by blast
  have enc: "encrypt_rpc demo_key_env (demo_key_draws 7 ''k'') ''t'' [104, 105] [] (with_seal demo_key_seal) demo_key_db =
      (st, db, Inr (ct, ''k''))"
    using d(1) by (simp add: demo_encrypted_def)
  have draws: "draws_ok (demo_key_draws 7 ''k'') (with_seal demo_key_seal)"
    by (rule demo_draws_ok) (simp add: with_seal_def)
  from encrypt_rpc_result [OF enc keyring_ok_new(1) draws] obtain e where
    e: "hm_get (ks_deks st) ''k'' = Some e" "de_tenant_id e = ''t''" by blast
  have ok: "keyring_ok st" using encrypt_rpc_keeps [OF enc keyring_ok_new(1) draws] by simp
  have "trim ''u'' = ''u''" "trim ''c'' = ''c''" by code_simp+
  with foreign_key_refused [OF ok e(1) rtranclp.rtrancl_refl, of "''u''" "''c''" demo_key_env
      "demo_key_draws 9 ''k3''" "[]" db] e(2)
  have "snd (snd (decrypt_rpc demo_key_env (demo_key_draws 9 ''k3'') ''u'' ''k:c'' [] st db)) =
      Inl (NotFound ''key not found: k'')" by simp
  with d show ?thesis by blast
qed

text \<open>Sealing does not stop the service: sealing drops the root key only. For a tenant
  whose current data key is cached, encryption and decryption give after the seal exactly
  the answers they gave before it.\<close>

theorem sealed_service_still_serves:
  assumes "hm_get (ks_current_dek st) t = Some c" "cd_operations c < DEK_MAX_OPERATIONS"
    and "hm_get (ks_deks st) (cd_key_id c) = Some e"
    and "hm_get (ks_deks st) key_id = Some e'" "CHR '':'' \<notin> set key_id"
  shows "\<not> is_unsealed (do_seal (ks_seal st)) \<and>
         snd (snd (encrypt_rpc env w t m a (st\<lparr>ks_seal := do_seal (ks_seal st)\<rparr>) db)) =
           snd (snd (encrypt_rpc env w t m a st db)) \<and>
         snd (snd (decrypt_rpc env w t (key_id @ '':'' @ ct) a (st\<lparr>ks_seal := do_seal (ks_seal st)\<rparr>) db)) =
           snd (snd (decrypt_rpc env w t (key_id @ '':'' @ ct) a st db))"
proof -
  let ?st = "st\<lparr>ks_seal := do_seal (ks_seal st)\<rparr>"
  have cur: "current_dek_for_encrypt env w t s db = (take_operation t c s, db, Inr (cd_key_id c))"
    if "ks_current_dek s = ks_current_dek st" for s
    using assms(1,2) that by (simp add: current_dek_for_encrypt_def current_with_budget_def)
  have get: "get_dek env w (cd_key_id c) t (take_operation t c s) db =
      (take_operation t c s, db, if de_tenant_id e = t then Inr (de_raw_dek e) else Inl (KeyNotFound (cd_key_id c)))"
    if "ks_deks s = ks_deks st" for s
    by (rule cached_reads(1)) (use assms(3) that in \<open>simp add: take_operation_def\<close>)
  have "snd (snd (encrypt_rpc env w t m a ?st db)) = snd (snd (encrypt_rpc env w t m a st db))"
    by (cases "trim t = []") (simp_all add: encrypt_rpc_def require_non_empty_def cur get)
  moreover have "snd (snd (decrypt_rpc env w t (key_id @ '':'' @ ct) a ?st db)) =
      snd (snd (decrypt_rpc env w t (key_id @ '':'' @ ct) a st db))"
  proof (cases "decrypt_request t (key_id @ '':'' @ ct)")
    case (Inr x)
    then have "x = (key_id, ct)"
      using assms(5) by (auto simp: decrypt_request_def result_iff)
    with Inr cached_reads(2) [OF assms(4)] cached_reads(2) [of ?st key_id e'] assms(4) show ?thesis
      by (simp add: decrypt_rpc_def)
  qed (simp add: decrypt_rpc_def)
  ultimately show ?thesis by (simp add: is_unsealed_def do_seal_def)
qed

theorem sealed_service_still_serves_witness:
  "\<exists>st db ct. demo_encrypted = (st, db, Inr (ct, ''k'')) \<and> \<not> is_unsealed (do_seal (ks_seal st)) \<and>
     snd (snd (decrypt_rpc demo_key_env (demo_key_draws 9 ''k3'') ''t'' (''k:'' @ ct) [] (st\<lparr>ks_seal := do_seal (ks_seal st)\<rparr>) db)) =
       snd (snd (decrypt_rpc demo_key_env (demo_key_draws 9 ''k3'') ''t'' (''k:'' @ ct) [] st db))"
proof -
  obtain st db ct where d: "demo_encrypted = (st, db, Inr (ct, ''k''))"
    and c: "hm_get (ks_current_dek st) ''t'' = Some \<lparr>cd_key_id = ''k'', cd_operations = 1\<rparr>"
    using demo_encrypted_eq by blast
  have enc: "encrypt_rpc demo_key_env (demo_key_draws 7 ''k'') ''t'' [104, 105] [] (with_seal demo_key_seal) demo_key_db =
      (st, db, Inr (ct, ''k''))"
    using d(1) by (simp add: demo_encrypted_def)
  have draws: "draws_ok (demo_key_draws 7 ''k'') (with_seal demo_key_seal)"
    by (rule demo_draws_ok) (simp add: with_seal_def)
  from encrypt_rpc_result [OF enc keyring_ok_new(1) draws] obtain e where
    e: "hm_get (ks_deks st) ''k'' = Some e" by blast
  from sealed_service_still_serves [OF c, of e "''k''" e demo_key_env "demo_key_draws 9 ''k3''" "[]" "[]" db ct] e
  have "\<not> is_unsealed (do_seal (ks_seal st)) \<and>
     snd (snd (decrypt_rpc demo_key_env (demo_key_draws 9 ''k3'') ''t'' (''k:'' @ ct) [] (st\<lparr>ks_seal := do_seal (ks_seal st)\<rparr>) db)) =
       snd (snd (decrypt_rpc demo_key_env (demo_key_draws 9 ''k3'') ''t'' (''k:'' @ ct) [] st db))"
    by (simp add: DEK_MAX_OPERATIONS_def)
  with d show ?thesis by blast
qed

end
