(* ===== verification/Key_Durability.thy ===== *)
theory Key_Durability
  imports Crypto_Service
begin

text \<open>
  What survives a restart of the crypto-service: the composition of the key table, the
  key hierarchy of \<^verbatim>\<open>kek_store.rs\<close> and the start of the process in \<^verbatim>\<open>main.rs\<close>. A key that was
  generated and persisted is found again, whether the bounded warm load of the start
  brings it in or the first use does; a key that a rotation produced is not.
\<close>

section \<open>Vocabulary\<close>

definition kek_rows :: "string \<Rightarrow> key_table \<Rightarrow> key_row list" where
  "kek_rows t table =
     filter (\<lambda>r. kr_purpose r = ''tenant_kek'' \<and> loadable r \<and> kr_tenant_id r = Some t) table"

text \<open>The table holds exactly one key of the tenant, and it unwraps to the given bytes.\<close>

definition stored_kek :: "key_env \<Rightarrow> bytes \<Rightarrow> string \<Rightarrow> key_table \<Rightarrow> bytes \<Rightarrow> bool" where
  "stored_kek env root t table kek \<longleftrightarrow>
     (case kek_rows t table of
        [r] \<Rightarrow> decrypt_with_dek (ke_lib env) root (kr_wrapped_key r) (tenant_kek_aad t) = Inr kek \<and> length kek = 32
      | _ \<Rightarrow> False)"

text \<open>The cache and the table agree on the tenant key: neither has one, or both the same.\<close>

definition kek_durable :: "key_env \<Rightarrow> bytes \<Rightarrow> string \<Rightarrow> kek_store \<Rightarrow> key_table \<Rightarrow> bool" where
  "kek_durable env root t st table \<longleftrightarrow>
     (case hm_get (ks_tenant_keks st) t of
        None \<Rightarrow> kek_rows t table = []
      | Some e \<Rightarrow> stored_kek env root t table (tk_raw_kek e))"

section \<open>Loading\<close>

lemma stored_kekE:
  assumes "stored_kek env root t table kek"
  obtains r where "kek_rows t table = [r]"
    "decrypt_with_dek (ke_lib env) root (kr_wrapped_key r) (tenant_kek_aad t) = Inr kek" "length kek = 32"
  using assms by (auto simp: stored_kek_def split: list.splits)

text \<open>A fold over rows that each touch one key only depends, at that key, on its own rows.\<close>

lemma fold_at:
  assumes cong: "\<And>x m m'. hm_get m k = hm_get m' k \<Longrightarrow> hm_get (f x m) k = hm_get (f x m') k"
    and other: "\<And>x m. \<not> P x \<Longrightarrow> hm_get (f x m) k = hm_get m k"
  shows "hm_get m k = hm_get m' k \<Longrightarrow> hm_get (fold f xs m) k = hm_get (fold f (filter P xs) m') k"
proof (induction xs arbitrary: m m')
  case (Cons x xs)
  show ?case
  proof (cases "P x")
    case True
    have "hm_get (f x m) k = hm_get (f x m') k" by (rule cong [OF Cons.prems])
    with Cons.IH [OF this] True show ?thesis by simp
  next
    case False
    have "hm_get (f x m) k = hm_get m' k" using other [OF False] Cons.prems by simp
    with Cons.IH [OF this] False show ?thesis by simp
  qed
qed simp

lemma filter_take_single: "filter P xs = [x] \<Longrightarrow> filter P (take n xs) = [] \<or> filter P (take n xs) = [x]"
proof -
  assume a: "filter P xs = [x]"
  have "filter P xs = filter P (take n xs) @ filter P (drop n xs)"
    by (metis append_take_drop_id filter_append)
  with a show ?thesis by (auto simp: append_eq_Cons_conv Cons_eq_append_conv)
qed

lemma kek_rows_listed:
  assumes "length table < 2 ^ 63"
  shows "filter (\<lambda>p. pk_tenant_id p = Some t) (list_active_keys_with_wrapped_key table TenantKek) =
         map persisted_of (sort_key kr_version (sort_key (\<lambda>r. - kr_created_at r) (kek_rows t table)))"
proof -
  have le: "length (filter Q table) \<le> 2 ^ 63 - 1" for Q
    using assms length_filter_le [of Q table] by linarith
  have "(\<lambda>p. pk_tenant_id p = Some t) \<circ> persisted_of = (\<lambda>r. kr_tenant_id r = Some t)"
    by (simp add: fun_eq_iff persisted_of_def)
  then show ?thesis
    using le
    by (simp add: list_active_keys_with_wrapped_key_def list_loadable_keys_with_wrapped_key_def
        list_recent_loadable_keys_def filter_map filter_sort take_all kek_rows_def conj_ac)
qed

lemma restart_fields [simp]: "ks_seal (restart env seal db) = seal" "ks_db_pool (restart env seal db)"
  by (auto simp: restart_def with_seal_def load_from_db_def Let_def split: sum.splits)

lemma restart_eq:
  assumes "root_key seal = Inr root"
  shows "restart env seal db =
    (let st1 = (with_seal seal)\<lparr>ks_tenant_keks := fold (load_tenant_kek env root)
                 (list_active_keys_with_wrapped_key (kb_table db) TenantKek) []\<rparr>
     in st1\<lparr>ks_deks := fold (load_dek env st1)
          (list_recent_loadable_keys (kb_table db) DataEncryption WARM_LOAD_DEK_LIMIT) []\<rparr>)"
proof -
  have "is_unsealed seal" using assms by (auto simp: root_key_def is_unsealed_def result_iff split: option.splits)
  with assms show ?thesis by (simp add: restart_def load_from_db_def Let_def with_seal_def)
qed

lemma restart_kek:
  assumes "root_key seal = Inr root" "stored_kek env root t (kb_table db) kek" "length (kb_table db) < 2 ^ 63"
  shows "\<exists>e. hm_get (ks_tenant_keks (restart env seal db)) t = Some e \<and> tk_raw_kek e = kek"
proof -
  let ?rows = "list_active_keys_with_wrapped_key (kb_table db) TenantKek"
  obtain r where r: "kek_rows t (kb_table db) = [r]"
      "decrypt_with_dek (ke_lib env) root (kr_wrapped_key r) (tenant_kek_aad t) = Inr kek" "length kek = 32"
    using assms(2) by (rule stored_kekE)
  then have tr: "kr_tenant_id r = Some t"
    by (auto simp: kek_rows_def filter_eq_Cons_iff)
  have "hm_get (fold (load_tenant_kek env root) ?rows []) t =
      hm_get (fold (load_tenant_kek env root) (filter (\<lambda>p. pk_tenant_id p = Some t) ?rows) []) t"
    by (rule fold_at) (auto simp: load_tenant_kek_def split: option.split sum.split)
  also have "filter (\<lambda>p. pk_tenant_id p = Some t) ?rows = [persisted_of r]"
    by (simp add: kek_rows_listed [OF assms(3)] r(1))
  also have "hm_get (fold (load_tenant_kek env root) [persisted_of r] []) t =
      Some \<lparr>tk_raw_kek = kek, tk_wrapped_kek_b64 = kr_wrapped_key r, tk_version = of_int (kr_version r)\<rparr>"
    using r(2,3) tr by (simp add: load_tenant_kek_def persisted_of_def)
  finally show ?thesis by (simp add: restart_eq [OF assms(1)] Let_def)
qed

lemma unwrap_row_cong:
  assumes "ks_seal st = ks_seal st'" "pk_key_id row = pk_key_id row'" "pk_wrapped_key row = pk_wrapped_key row'"
  shows "unwrap_dek_row env st kek row = unwrap_dek_row env st' kek row'"
proof -
  from assms(1) have "transport_unwrap_dek env st = transport_unwrap_dek env st'"
    by (simp add: fun_eq_iff transport_unwrap_dek_def)
  then show ?thesis unfolding unwrap_dek_row_def using assms(2,3) by (simp split: sum.split)
qed

lemma dek_rows_listed:
  assumes "key_table_ok table" "row \<in> set table" "loadable row" "kr_purpose row = ''data_encryption''"
  shows "filter (\<lambda>p. pk_key_id p = kr_id row) (list_recent_loadable_keys table DataEncryption n) \<in> {[], [persisted_of row]}"
proof -
  let ?P = "\<lambda>r. kr_id r = kr_id row" and ?Q = "\<lambda>r. kr_purpose r = ''data_encryption'' \<and> loadable r"
  have comp: "(\<lambda>p. pk_key_id p = kr_id row) \<circ> persisted_of = ?P" by (simp add: fun_eq_iff persisted_of_def)
  have "filter ?P (filter ?Q table) = filter (\<lambda>r. kr_purpose r = ''data_encryption'') (filter (\<lambda>r. ?P r \<and> loadable r) table)"
    by (simp add: conj_ac)
  then have "filter ?P (filter ?Q table) = [row]" using row_of_key [OF assms(1-3)] assms(4) by simp
  then have "filter ?P (sort_key (\<lambda>r. - kr_created_at r) (filter ?Q table)) = [row]"
    by (simp only: filter_sort) simp
  from filter_take_single [OF this, of n] show ?thesis
    by (auto simp: list_recent_loadable_keys_def filter_map comp filter_sort)
qed

lemma load_dek_at:
  "hm_get m k = hm_get m' k \<Longrightarrow> hm_get (load_dek env st x m) k = hm_get (load_dek env st x m') k"
  "pk_key_id x \<noteq> k \<Longrightarrow> hm_get (load_dek env st x m) k = hm_get m k"
  by (cases "pk_key_id x = k"; auto simp: load_dek_def split: option.split)+

text \<open>A persisted data key is usable after a restart with the same root key, and the chain
  of its versions is what the one row of the key unwraps to.\<close>

lemma restart_chain:
  assumes root: "root_key seal = Inr root" and kek: "stored_kek env root t (kb_table db) kek"
    and table: "key_table_ok (kb_table db)" "length (kb_table db) < 2 ^ 63"
    and row: "row \<in> set (kb_table db)" "loadable row" "kr_purpose row = ''data_encryption''"
      "kr_tenant_id row = Some t" "ke_parse_uuid env (kr_id row) = Some (kr_id row)"
    and raw: "unwrap_dek_row env (with_seal seal) kek (persisted_of row) = Some raw"
  shows "\<exists>st'. get_dek_chain env w (kr_id row) t (restart env seal db) db = (st', db, Inr [raw])"
proof -
  let ?st = "restart env seal db"
  let ?rows = "list_recent_loadable_keys (kb_table db) DataEncryption WARM_LOAD_DEK_LIMIT"
  from restart_kek [OF root kek table(2)] obtain e where
    e: "hm_get (ks_tenant_keks ?st) t = Some e" "tk_raw_kek e = kek" by blast
  define st1 where "st1 = (with_seal seal)\<lparr>ks_tenant_keks := ks_tenant_keks ?st\<rparr>"
  have deks: "ks_deks ?st = fold (load_dek env st1) ?rows []"
    by (simp add: restart_eq [OF root] Let_def st1_def)
  have "hm_get (ks_deks ?st) (kr_id row) =
      hm_get (fold (load_dek env st1) (filter (\<lambda>p. pk_key_id p = kr_id row) ?rows) []) (kr_id row)"
    unfolding deks by (rule fold_at) (auto intro: load_dek_at)
  moreover have un: "unwrap_dek_row env s kek (persisted_of row) = Some raw" if "ks_seal s = seal" for s
    using raw unwrap_row_cong [of s "with_seal seal" "persisted_of row"] that by (simp add: with_seal_def)
  moreover have "filter (\<lambda>p. pk_key_id p = kr_id row) ?rows \<in> {[], [persisted_of row]}"
    by (rule dek_rows_listed [OF table(1) row(1-3)])
  ultimately consider "hm_get (ks_deks ?st) (kr_id row) = None"
    | d where "hm_get (ks_deks ?st) (kr_id row) = Some d" "de_tenant_id d = t" "dek_chain d = [raw]"
    using e row(4) un [of st1]
    by (auto simp: load_dek_def st1_def persisted_of_def dek_chain_def with_seal_def)
  then show ?thesis
  proof cases
    case 1
    have "get_or_create_tenant_kek env w t ?st db = (?st, db, Inr kek)"
      using e by (simp add: get_or_create_tenant_kek_def)
    with 1 show ?thesis
      using row(4,5) un [of ?st] versions_of_unique [OF table(1) row(1,2)]
      by (simp add: get_dek_chain_def hydrate_missing_def hydrate_dek_def owned_dek_def dek_chain_def
          map_filter_simps Let_def) (simp add: persisted_of_def owned_dek_def dek_chain_def)
  next
    case 2
    then show ?thesis by (simp add: cached_reads(2))
  qed
qed

section \<open>Persisting\<close>

lemma persist_descriptor_Inr:
  assumes "persist_descriptor env now what desc wrapped db = Inr db'"
  obtains row where "kb_table db' = kb_table db @ [row]" "kr_id row = kd_id desc" "kr_purpose row = purpose_str (kd_purpose desc)"
    "kr_state row = state_str (kd_state desc)" "kr_wrapped_key row = wrapped"
    "kr_tenant_id row = (case kd_tenant_id desc of None \<Rightarrow> None | Some s \<Rightarrow> ke_parse_uuid env s)"
    "key_table_ok (kb_table db) \<longrightarrow> key_table_ok (kb_table db')"
proof -
  from assms obtain row where ins: "insert_key_row (kb_tenants db) row (kb_table db) = Inr (kb_table db')"
    and f: "kr_id row = kd_id desc" "kr_purpose row = purpose_str (kd_purpose desc)"
      "kr_state row = state_str (kd_state desc)" "kr_wrapped_key row = wrapped"
      "kr_tenant_id row = (case kd_tenant_id desc of None \<Rightarrow> None | Some s \<Rightarrow> ke_parse_uuid env s)"
    by (fastforce simp: persist_descriptor_def insert_key_descriptor_def insert_named_key_descriptor_def
        split: sum.splits)
  show ?thesis
    by (rule that [OF insert_key_row_Inr(1) [OF ins] f]) (use insert_key_row_ok [OF ins] in simp)
qed

text \<open>Obtaining the tenant key leaves it stored.\<close>

lemma tenant_kek_durable:
  assumes g: "get_or_create_tenant_kek env w t st db = (st1, db1, Inr kek)"
    and lib: "crypto_ok (ke_lib env)" and st: "ks_db_pool st" "root_key (ks_seal st) = Inr root"
    and d: "kek_durable env root t st (kb_table db)" and id: "ke_parse_uuid env t = Some t"
    and w: "\<And>k. kw_kek w = Some k \<Longrightarrow> length k = 32" "\<And>n. kw_kek_nonce w = Some n \<Longrightarrow> length n = 12"
    and table: "key_table_ok (kb_table db)"
  shows "stored_kek env root t (kb_table db1) kek \<and> key_table_ok (kb_table db1) \<and>
         length (kb_table db1) \<le> length (kb_table db) + 1"
proof (cases "hm_get (ks_tenant_keks st) t")
  case (Some e)
  then have "db1 = db" "kek = tk_raw_kek e" using g by (simp_all add: get_or_create_tenant_kek_def)
  with d table Some show ?thesis by (simp add: kek_durable_def)
next
  case None
  then obtain nonce envl where k: "kw_kek w = Some kek"
    and envl: "encrypt_with_dek (ke_lib env) (kw_kek_nonce w) root kek (tenant_kek_aad t) = Inr envl"
    and p: "persist_descriptor env (kw_now w) ''tenant KEK''
        (new_descriptor (kw_kek_id w) 1 TenantKek t (kw_now w)) (env_ciphertext_b64 envl) db = Inr db1"
    using g st by (auto simp: get_or_create_tenant_kek_def generate_random_32_bytes_def Let_def result_iff id
        split: sum.splits prod.splits)
  from envl obtain nonce where n: "kw_kek_nonce w = Some nonce"
    by (auto simp: encrypt_with_dek_def generate_aes_gcm_nonce_def result_iff)
  have dec: "decrypt_with_dek (ke_lib env) root (env_ciphertext_b64 envl) (tenant_kek_aad t) = Inr kek"
    using encrypt_decrypt [OF lib w(2) [OF n] envl [unfolded n]] .
  from p obtain row where row: "kb_table db1 = kb_table db @ [row]" "kr_purpose row = ''tenant_kek''"
      "kr_state row = ''active''" "kr_wrapped_key row = env_ciphertext_b64 envl" "kr_tenant_id row = Some t"
      "key_table_ok (kb_table db1)"
    by (rule persist_descriptor_Inr) (use table in \<open>simp add: new_descriptor_def id\<close>)
  have "kek_rows t (kb_table db1) = [row]"
    using d None row(1-3,5) by (simp add: kek_rows_def kek_durable_def loadable_def)
  then show ?thesis using dec row(1,4,6) w(1) [OF k] by (simp add: stored_kek_def)
qed

lemma decrypt_request_ok:
  assumes "trim t \<noteq> []" "trim key_id \<noteq> []" "trim ct \<noteq> []" "CHR '':'' \<notin> set key_id"
  shows "decrypt_request t (key_id @ '':'' @ ct) = Inr (key_id, ct)"
  using assms by (simp add: decrypt_request_def require_non_empty_def)

lemma announce_dek_table [simp]: "kb_table (announce_dek env w st t key_id raw db) = kb_table db"
  by (auto simp: announce_dek_def split: sum.split option.split)

text \<open>The generator's draws for new keys, and ids in the spelling the database returns.\<close>

definition durable_draws :: "key_env \<Rightarrow> key_draws \<Rightarrow> bool" where
  "durable_draws env w \<longleftrightarrow>
     (\<forall>k. kw_kek w = Some k \<longrightarrow> length k = 32) \<and> (\<forall>n. kw_kek_nonce w = Some n \<longrightarrow> length n = 12) \<and>
     (\<forall>k. kw_dek w = Some k \<longrightarrow> length k = 32) \<and> (\<forall>n. kw_dek_nonce w = Some n \<longrightarrow> length n = 12) \<and>
     ke_parse_uuid env (kw_dek_id w) = Some (kw_dek_id w)"

lemma unwrap_own_row:
  assumes "crypto_ok (ke_lib env)" "length nonce = 12" "length raw = 32"
    and "encrypt_with_dek (ke_lib env) (Some nonce) kek raw (dek_reload_aad key_id) = Inr envl"
    and "pk_key_id row = key_id" "pk_wrapped_key row = env_ciphertext_b64 envl"
  shows "unwrap_dek_row env st kek row = Some raw"
  using encrypt_decrypt [OF assms(1,2,4)] assms(3,5,6) by (simp add: unwrap_dek_row_def)

lemma generate_persists:
  assumes g: "generate_and_store_dek env w t st db = (st1, db1, Inr key_id)"
    and lib: "crypto_ok (ke_lib env)" and st: "ks_db_pool st" "root_key (ks_seal st) = Inr root"
    and d: "kek_durable env root t st (kb_table db)" and id: "ke_parse_uuid env t = Some t"
    and w: "durable_draws env w" and table: "key_table_ok (kb_table db)"
  shows "\<exists>row raw kek. kw_dek w = Some raw \<and> row \<in> set (kb_table db1) \<and> loadable row \<and>
           kr_purpose row = ''data_encryption'' \<and> kr_tenant_id row = Some t \<and> kr_id row = key_id \<and>
           key_id = kw_dek_id w \<and> stored_kek env root t (kb_table db1) kek \<and> key_table_ok (kb_table db1) \<and>
           length (kb_table db1) \<le> length (kb_table db) + 2 \<and>
           (\<forall>s. unwrap_dek_row env s kek (persisted_of row) = Some raw)"
proof -
  obtain st0 db0 r0 where k: "get_or_create_tenant_kek env w t st db = (st0, db0, r0)"
    by (cases "get_or_create_tenant_kek env w t st db")
  with g obtain kek where r0: "r0 = Inr kek" by (cases r0) (simp_all add: generate_and_store_dek_def)
  have kek: "stored_kek env root t (kb_table db0) kek" "key_table_ok (kb_table db0)"
      "length (kb_table db0) \<le> length (kb_table db) + 1"
    using tenant_kek_durable [OF k [unfolded r0] lib st d id _ _ table] w by (auto simp: durable_draws_def)
  have pool: "ks_db_pool st0" using tenant_kek_keeps(4) [OF k] st by simp
  note gen = g [unfolded generate_and_store_dek_def k r0 generate_random_32_bytes_def Let_def]
  from gen obtain raw where raw: "kw_dek w = Some raw" by (cases "kw_dek w") simp_all
  from gen raw obtain envl where
    envl: "encrypt_with_dek (ke_lib env) (kw_dek_nonce w) kek raw (dek_reload_aad (kw_dek_id w)) = Inr envl"
    by (cases "encrypt_with_dek (ke_lib env) (kw_dek_nonce w) kek raw (dek_reload_aad (kw_dek_id w))") simp_all
  have uuid: "ke_parse_uuid env (kw_dek_id w) = Some (kw_dek_id w)" using w by (simp add: durable_draws_def)
  let ?p = "persist_descriptor env (kw_now w) ''DEK'' (new_descriptor (kw_dek_id w) 1 DataEncryption t (kw_now w))
        (env_ciphertext_b64 envl) db0"
  from gen raw envl pool id uuid obtain db' where p: "?p = Inr db'"
    by (cases ?p) simp_all
  from gen raw envl pool id uuid p have key: "key_id = kw_dek_id w" "kb_table db1 = kb_table db'"
    by auto
  from envl obtain nonce where n: "kw_dek_nonce w = Some nonce"
    by (auto simp: encrypt_with_dek_def generate_aes_gcm_nonce_def result_iff)
  from p obtain row where row: "kb_table db' = kb_table db0 @ [row]" "kr_id row = kw_dek_id w"
      "kr_purpose row = ''data_encryption''" "kr_state row = ''active''" "kr_wrapped_key row = env_ciphertext_b64 envl"
      "kr_tenant_id row = Some t" "key_table_ok (kb_table db')"
    by (rule persist_descriptor_Inr) (use kek(2) in \<open>simp add: new_descriptor_def id\<close>)
  have "kek_rows t (kb_table db') = kek_rows t (kb_table db0)" using row(1,3) by (simp add: kek_rows_def)
  then have "stored_kek env root t (kb_table db') kek" using kek(1) by (simp add: stored_kek_def)
  moreover have "unwrap_dek_row env s kek (persisted_of row) = Some raw" for s
    by (rule unwrap_own_row [OF lib _ _ envl [unfolded n]])
      (use n raw w row(2,5) in \<open>auto simp: durable_draws_def persisted_of_def\<close>)
  ultimately show ?thesis
    using raw key row kek(3) by (intro exI [of _ row] exI [of _ raw] exI [of _ kek]) (simp add: loadable_def)
qed

text \<open>The encryption that starts a new data key is the generation followed by one use of it.\<close>

lemma encrypt_generates:
  assumes enc: "encrypt_rpc env w t m a st db = (st1, db1, Inr (ct, key_id))"
    and spent: "current_with_budget t st = None"
  shows "\<exists>st0 raw envl. generate_and_store_dek env w t st db = (st0, db1, Inr key_id) \<and> kw_dek w = Some raw \<and>
           trim t \<noteq> [] \<and> encrypt_with_dek (ke_lib env) (kw_data_nonce w) raw m a = Inr envl \<and> ct = env_ciphertext_b64 envl"
proof -
  obtain st0 db0 r0 where g: "generate_and_store_dek env w t st db = (st0, db0, r0)"
    by (cases "generate_and_store_dek env w t st db")
  note gr = generate_result [OF g]
  have none: "current_with_budget t st0 = None" using gr spent by (simp add: current_with_budget_def)
  have t: "trim t \<noteq> []" "m \<noteq> []" using enc by (auto simp: encrypt_rpc_def require_non_empty_def split: if_splits)
  from enc t g obtain k where k: "r0 = Inr k"
    by (cases r0) (simp_all add: encrypt_rpc_def require_non_empty_def current_dek_for_encrypt_def spent)
  from gr k obtain e where e: "hm_get (ks_deks st0) k = Some e" "de_tenant_id e = t" "kw_dek w = Some (de_raw_dek e)"
    by auto
  define st2 where "st2 = st0\<lparr>ks_current_dek := hm_insert t \<lparr>cd_key_id = k, cd_operations = 1\<rparr> (ks_current_dek st0)\<rparr>"
  have "current_dek_for_encrypt env w t st db = (st2, db0, Inr k)"
    by (simp add: current_dek_for_encrypt_def spent g k none st2_def)
  moreover have "get_dek env w k t st2 db0 = (st2, db0, Inr (de_raw_dek e))"
    using cached_reads(1) [of st2 k e] e by (simp add: st2_def)
  ultimately have "encrypt_with_dek (ke_lib env) (kw_data_nonce w) (de_raw_dek e) m a \<noteq> Inl err" "db1 = db0" "key_id = k"
      "\<And>envl. encrypt_with_dek (ke_lib env) (kw_data_nonce w) (de_raw_dek e) m a = Inr envl \<Longrightarrow> ct = env_ciphertext_b64 envl" for err
    using enc t by (auto simp: encrypt_rpc_def require_non_empty_def split: sum.splits)
  with g k e t show ?thesis by (cases "encrypt_with_dek (ke_lib env) (kw_data_nonce w) (de_raw_dek e) m a") auto
qed

lemma ciphertext_not_blank:
  assumes "crypto_ok lib" "length nonce = 12" "encrypt_with_dek lib (Some nonce) k m a = Inr envl"
  shows "trim (env_ciphertext_b64 envl) \<noteq> []"
  using assms by (auto simp: encrypt_with_dek_def generate_aes_gcm_nonce_def result_iff crypto_ok_def base64_ok_simps)

text \<open>Writing a rotation back never succeeds: the new version would be a second row with the
  same primary key. At most the state of the old row changes.\<close>

lemma persist_rotation_fails:
  assumes "ke_parse_uuid env key_id = Some key_id" "row \<in> set (kb_table db)" "kr_id row = key_id"
    and "persist_rotation env now t key_id v wrapped db = (db', r)"
  shows "(\<exists>err. r = Inl err) \<and>
         (kb_table db' = kb_table db \<or>
          kb_table db' = map (\<lambda>r. if kr_id r = key_id
            then r\<lparr>kr_state := ''rotating_out'', kr_rotated_at := Some now\<rparr> else r) (kb_table db))"
proof (cases "ke_parse_uuid env t = None \<or> (\<exists>e. update_key_state now key_id KeyRotatingOut (kb_table db) = Inl e)")
  case True
  with assms(1,4) show ?thesis by (auto simp: persist_rotation_def split: if_splits)
next
  case False
  then obtain table where u: "update_key_state now key_id KeyRotatingOut (kb_table db) = Inr table"
    by (cases "update_key_state now key_id KeyRotatingOut (kb_table db)") auto
  then have table: "table = map (\<lambda>r. if kr_id r = key_id
      then r\<lparr>kr_state := ''rotating_out'', kr_rotated_at := Some now\<rparr> else r) (kb_table db)"
    by (auto simp: update_key_state_def Let_def split: if_splits)
  have "map kr_id table = map kr_id (kb_table db)" unfolding table by simp
  then have "kr_id row \<in> kr_id ` set table" using assms(2) by (metis image_eqI set_map)
  then have dup: "\<exists>r \<in> set table. kr_id r = key_id" using assms(3) by auto
  have "\<exists>e. persist_descriptor env now ''rotated DEK'' (new_descriptor key_id v DataEncryption t now) wrapped
      (db\<lparr>kb_table := table\<rparr>) = Inl e"
    using dup by (simp add: persist_descriptor_def insert_key_descriptor_def insert_named_key_descriptor_def
        insert_key_row_dup new_descriptor_def)
  with False u assms(1,4) show ?thesis by (auto simp: persist_rotation_def table)
qed

lemma rotating_out_row:
  assumes "key_table_ok table" "row \<in> set table" "kr_purpose row = ''data_encryption''"
    and "table' = map (\<lambda>r. if kr_id r = kr_id row then r\<lparr>kr_state := ''rotating_out'', kr_rotated_at := Some now\<rparr> else r) table"
  shows "kek_rows t table' = kek_rows t table" "key_table_ok table'" "length table' = length table"
    "row\<lparr>kr_state := ''rotating_out'', kr_rotated_at := Some now\<rparr> \<in> set table'"
proof -
  let ?f = "\<lambda>r. if kr_id r = kr_id row then r\<lparr>kr_state := ''rotating_out'', kr_rotated_at := Some now\<rparr> else r"
  let ?P = "\<lambda>r. kr_purpose r = ''tenant_kek'' \<and> loadable r \<and> kr_tenant_id r = Some t"
  have only: "r = row" if "r \<in> set table" "kr_id r = kr_id row" for r
    using that assms(1,2) by (auto simp: key_table_ok_def distinct_map dest: inj_onD)
  have "filter (?P \<circ> ?f) table = filter ?P table"
  proof (rule filter_cong)
    fix r assume "r \<in> set table"
    then show "(?P \<circ> ?f) r = ?P r" using only [of r] assms(3) by (cases "kr_id r = kr_id row") auto
  qed simp
  moreover have "map ?f (filter ?P table) = filter ?P table"
  proof (rule map_idI)
    fix r assume "r \<in> set (filter ?P table)"
    then show "?f r = r" using only [of r] assms(3) by (cases "kr_id r = kr_id row") auto
  qed
  ultimately show "kek_rows t table' = kek_rows t table"
    unfolding kek_rows_def assms(4) filter_map by (simp only:)
  show "key_table_ok table'" using assms(1)
    by (simp add: assms(4) key_table_ok_def comp_def if_distrib cong: if_cong)
  show "length table' = length table" by (simp add: assms(4))
  show "row\<lparr>kr_state := ''rotating_out'', kr_rotated_at := Some now\<rparr> \<in> set table'"
    using assms(2) by (auto simp: assms(4) image_iff intro: bexI [of _ row])
qed

lemma rotate_dek_eq:
  assumes "hm_get (ks_deks st) key_id = Some e" "de_tenant_id e = t" "hm_get (ks_tenant_keks st) t = Some k"
    and "ks_db_pool st" "kw_dek w = Some raw"
    and "encrypt_with_dek (ke_lib env) (kw_dek_nonce w) (tk_raw_kek k) raw (dek_reload_aad key_id) = Inr envl"
    and "persist_rotation env (kw_now w) t key_id (de_version e + 1) (env_ciphertext_b64 envl) db = (db', r)"
  shows "\<exists>st'. rotate_dek env w t key_id st db =
           (st', db', case r of Inl err \<Rightarrow> Inl err | Inr _ \<Rightarrow> Inr (de_version e + 1)) \<and>
         hm_get (ks_deks st') key_id = Some (demote raw (env_ciphertext_b64 envl) e)"
proof -
  have "get_or_create_tenant_kek env w t st db = (st, db, Inr (tk_raw_kek k))"
    using assms(3) by (simp add: get_or_create_tenant_kek_def)
  with assms show ?thesis
    by (cases r) (simp_all add: rotate_dek_def generate_random_32_bytes_def Let_def demote_def)
qed

section \<open>A stored key to evaluate\<close>

definition demo_wrap :: "bytes \<Rightarrow> bytes \<Rightarrow> bytes \<Rightarrow> string" where
  "demo_wrap k m a = demo_b64_encode (replicate 12 3 @ m @ k @ replicate 12 3 @ a)"

lemma demo_encrypt: "encrypt_with_dek demo_lib (Some n) k m a = Inr \<lparr>env_ciphertext_b64 = demo_b64_encode (n @ m @ k @ n @ a), env_nonce = n\<rparr>"
  by (simp add: encrypt_with_dek_def generate_aes_gcm_nonce_def)

lemma demo_unwrap: "decrypt_with_dek demo_lib k (demo_wrap k m a) a = Inr m"
  using encrypt_decrypt [OF demo_lib_ok _ demo_encrypt, of "replicate 12 3"] by (simp add: demo_wrap_def)

definition demo_row :: "string \<Rightarrow> string \<Rightarrow> string \<Rightarrow> key_row" where
  "demo_row key_id purpose wrapped =
     \<lparr>kr_id = key_id, kr_version = 1, kr_algorithm = ''aes-256-gcm'', kr_purpose = purpose, kr_state = ''active'',
      kr_tenant_id = Some ''t'', kr_wrapped_key = wrapped, kr_parent_key_id = None, kr_created_at = 0,
      kr_rotated_at = None, kr_expires_at = None, kr_key_name = None\<rparr>"

definition demo_stored_db :: key_db where
  "demo_stored_db = \<lparr>kb_table =
      [demo_row ''kek'' ''tenant_kek'' (demo_wrap (replicate 32 9) (replicate 32 1) (tenant_kek_aad ''t'')),
       demo_row ''k'' ''data_encryption'' (demo_wrap (replicate 32 1) (replicate 32 7) (dek_reload_aad ''k''))],
      kb_outbox = [], kb_tenants = [''t'']\<rparr>"

definition demo_stored_dek :: dek_entry where
  "demo_stored_dek = \<lparr>de_raw_dek = replicate 32 7, de_superseded = [], de_wrapped_dek_b64 = [], de_tenant_id = ''t'',
     de_version = 1, de_key_id = ''k''\<rparr>"

definition demo_stored :: kek_store where
  "demo_stored = (with_seal demo_key_seal)\<lparr>
     ks_tenant_keks := [(''t'', \<lparr>tk_raw_kek = replicate 32 1, tk_wrapped_kek_b64 = [], tk_version = 1\<rparr>)],
     ks_deks := [(''k'', demo_stored_dek)]\<rparr>"

lemmas demo_stored_eval = demo_stored_def demo_stored_dek_def demo_stored_db_def demo_row_def demo_key_env_def
  demo_key_draws_def demo_key_seal_def unseal_with_root_key_def seal_new_def root_key_def with_seal_def
  demo_encrypt demo_unwrap

section \<open>Properties\<close>

text \<open>C22. A persisted encryption survives the process: if an encryption started a new data key
  (the tenant had none, or its current one was spent) while the tenant key in memory, if
  there is one, is the stored one, then a new process opened with the same root key
  decrypts the result, whether the warm load brought the key in or not.\<close>

theorem encryption_survives_restart:
  assumes lib: "crypto_ok (ke_lib env)"
    and st: "ks_db_pool st" "root_key (ks_seal st) = Inr root" "current_with_budget t st = None"
      "kek_durable env root t st (kb_table db)" "key_table_ok (kb_table db)" "length (kb_table db) < 2 ^ 63 - 2"
    and w: "durable_draws env w" "kw_data_nonce w = Some nonce" "length nonce = 12" "ke_parse_uuid env t = Some t"
    and id: "CHR '':'' \<notin> set key_id" "trim key_id \<noteq> []"
    and enc: "encrypt_rpc env w t m a st db = (st1, db1, Inr (ct, key_id))"
    and seal: "root_key seal = Inr root"
  shows "\<exists>st2. decrypt_rpc env w' t (key_id @ '':'' @ ct) a (restart env seal db1) db1 = (st2, db1, Inr m)"
proof -
  from encrypt_generates [OF enc st(3)] obtain st0 raw envl where
    g: "generate_and_store_dek env w t st db = (st0, db1, Inr key_id)" "kw_dek w = Some raw" "trim t \<noteq> []"
    and envl: "encrypt_with_dek (ke_lib env) (Some nonce) raw m a = Inr envl" "ct = env_ciphertext_b64 envl"
    unfolding w(2) by blast
  from generate_persists [OF g(1) lib st(1,2,4) w(4,1) st(5)] g(2) obtain row kek where
    row: "row \<in> set (kb_table db1)" "loadable row" "kr_purpose row = ''data_encryption''" "kr_tenant_id row = Some t"
      "kr_id row = key_id" "key_id = kw_dek_id w"
    and table: "stored_kek env root t (kb_table db1) kek" "key_table_ok (kb_table db1)"
      "length (kb_table db1) \<le> length (kb_table db) + 2"
    and un: "\<And>s. unwrap_dek_row env s kek (persisted_of row) = Some raw" by auto
  have "ke_parse_uuid env (kr_id row) = Some (kr_id row)" using w(1) row(5,6) by (simp add: durable_draws_def)
  from restart_chain [OF seal table(1,2) _ row(1-4) this un] table(3) st(6) obtain st2 where
    "get_dek_chain env w' key_id t (restart env seal db1) db1 = (st2, db1, Inr [raw])"
    using row(5) by auto
  moreover have "decrypt_with_dek (ke_lib env) raw ct a = Inr m"
    using encrypt_decrypt [OF lib w(3) envl(1)] envl(2) by simp
  moreover have "decrypt_request t (key_id @ '':'' @ ct) = Inr (key_id, ct)"
    using decrypt_request_ok [OF g(3) id(2) _ id(1)] ciphertext_not_blank [OF lib w(3) envl(1)] envl(2) by simp
  ultimately show ?thesis by (simp add: decrypt_rpc_def)
qed

theorem encryption_survives_restart_witness:
  "\<exists>st db ct st2. demo_encrypted = (st, db, Inr (ct, ''k'')) \<and>
     decrypt_rpc demo_key_env (demo_key_draws 9 ''k3'') ''t'' (''k:'' @ ct) [] (restart demo_key_env demo_key_seal db) db =
       (st2, db, Inr [104, 105])"
proof -
  obtain st db ct where d: "demo_encrypted = (st, db, Inr (ct, ''k''))" using demo_encrypted_eq by blast
  have "\<exists>st2. decrypt_rpc demo_key_env (demo_key_draws 9 ''k3'') ''t'' (''k'' @ '':'' @ ct) []
      (restart demo_key_env demo_key_seal db) db = (st2, db, Inr [104, 105])"
    by (rule encryption_survives_restart [where st = "with_seal demo_key_seal" and db = demo_key_db
          and w = "demo_key_draws 7 ''k''" and root = "replicate 32 9" and nonce = "replicate 12 5"])
      (use d in \<open>simp_all add: demo_encrypted_def with_seal_def demo_key_seal_def demo_key_env_def demo_lib_ok
         unseal_with_root_key_def seal_new_def root_key_def current_with_budget_def kek_durable_def kek_rows_def
         demo_key_db_def key_table_ok_def durable_draws_def demo_key_draws_def\<close>)
  with d show ?thesis by auto
qed

text \<open>C23. A rotation is lost with the process: rotating a stored data key reports an error but
  takes effect in memory, where the new version serves from then on. A new process opened
  with the same root key has the old version of the key only; what was encrypted with the
  new one, unless the old version happens to pass the tag check on it, fails to decrypt
  there.\<close>

theorem rotated_key_lost_on_restart:
  assumes lib: "crypto_ok (ke_lib env)"
    and st: "ks_db_pool st" "hm_get (ks_deks st) key_id = Some e" "de_tenant_id e = t"
      "hm_get (ks_tenant_keks st) t = Some k" "stored_kek env root t (kb_table db) (tk_raw_kek k)"
    and table: "key_table_ok (kb_table db)" "length (kb_table db) < 2 ^ 63"
    and row: "row \<in> set (kb_table db)" "loadable row" "kr_purpose row = ''data_encryption''" "kr_tenant_id row = Some t"
      "kr_id row = key_id" "ke_parse_uuid env key_id = Some key_id"
      "unwrap_dek_row env (with_seal seal) (tk_raw_kek k) (persisted_of row) = Some (de_raw_dek e)"
    and w: "kw_dek w = Some raw"
      "encrypt_with_dek (ke_lib env) (kw_dek_nonce w) (tk_raw_kek k) raw (dek_reload_aad key_id) = Inr wrapped"
    and enc: "length nonce = 12" "encrypt_with_dek (ke_lib env) (Some nonce) raw m a = Inr envl"
      "isl (decrypt_with_dek (ke_lib env) (de_raw_dek e) (env_ciphertext_b64 envl) a)"
    and id: "CHR '':'' \<notin> set key_id" "trim key_id \<noteq> []" "trim t \<noteq> []"
    and seal: "root_key seal = Inr root"
  shows "\<exists>st1 db1 err st2. rotate_dek env w t key_id st db = (st1, db1, Inl err) \<and>
           get_dek env w' key_id t st1 db1 = (st1, db1, Inr raw) \<and>
           get_dek_chain env w' key_id t (restart env seal db1) db1 = (st2, db1, Inr [de_raw_dek e]) \<and>
           decrypt_rpc env w' t (key_id @ '':'' @ env_ciphertext_b64 envl) a (restart env seal db1) db1 =
             (st2, db1, Inl (InternalStatus ''decryption operation failed''))"
proof -
  obtain db1 r where p: "persist_rotation env (kw_now w) t key_id (de_version e + 1) (env_ciphertext_b64 wrapped) db = (db1, r)"
    by (cases "persist_rotation env (kw_now w) t key_id (de_version e + 1) (env_ciphertext_b64 wrapped) db")
  note fails = persist_rotation_fails [OF row(6,1,5) p]
  from fails rotate_dek_eq [OF st(2,3,4,1) w(1,2) p] obtain st1 err where
    rot: "rotate_dek env w t key_id st db = (st1, db1, Inl err)"
      "hm_get (ks_deks st1) key_id = Some (demote raw (env_ciphertext_b64 wrapped) e)" by auto
  have get: "get_dek env w' key_id t st1 db1 = (st1, db1, Inr raw)"
    using cached_reads(1) [OF rot(2)] st(3) by (simp add: demote_def)
  obtain row' where row': "row' \<in> set (kb_table db1)" "loadable row'" "kr_purpose row' = ''data_encryption''"
      "kr_tenant_id row' = Some t" "kr_id row' = key_id" "kr_wrapped_key row' = kr_wrapped_key row"
    and same: "kek_rows t (kb_table db1) = kek_rows t (kb_table db)" "key_table_ok (kb_table db1)"
      "length (kb_table db1) = length (kb_table db)"
    using fails
  proof (elim conjE disjE)
    assume "kb_table db1 = kb_table db"
    then show ?thesis using that [of row] row table by simp
  next
    assume *: "kb_table db1 = map (\<lambda>r. if kr_id r = key_id
      then r\<lparr>kr_state := ''rotating_out'', kr_rotated_at := Some (kw_now w)\<rparr> else r) (kb_table db)"
    note rr = rotating_out_row [OF table(1) row(1,3) * [folded row(5)]]
    show ?thesis by (rule that [OF rr(4) _ _ _ _ _ rr(1-3)]) (use row in \<open>simp_all add: loadable_def\<close>)
  qed
  have un: "unwrap_dek_row env (with_seal seal) (tk_raw_kek k) (persisted_of row') = Some (de_raw_dek e)"
    using row(5,7) row'(5,6) unwrap_row_cong [of "with_seal seal" "with_seal seal" "persisted_of row" "persisted_of row'"]
    by (simp add: persisted_of_def)
  have kek: "stored_kek env root t (kb_table db1) (tk_raw_kek k)" using st(5) same(1) by (simp add: stored_kek_def)
  from restart_chain [OF seal kek same(2) _ row'(1-4) _ un, of w'] same(3) table(2) row(6) row'(5) obtain st2 where
    chain: "get_dek_chain env w' key_id t (restart env seal db1) db1 = (st2, db1, Inr [de_raw_dek e])" by auto
  have "try_decrypt (ke_lib env) (env_ciphertext_b64 envl) a [de_raw_dek e] = None"
    using enc(3) by (auto split: sum.split)
  moreover have "decrypt_request t (key_id @ '':'' @ env_ciphertext_b64 envl) = Inr (key_id, env_ciphertext_b64 envl)"
    by (rule decrypt_request_ok [OF id(3,2) ciphertext_not_blank [OF lib enc(1,2)] id(1)])
  ultimately have "decrypt_rpc env w' t (key_id @ '':'' @ env_ciphertext_b64 envl) a (restart env seal db1) db1 =
      (st2, db1, Inl (InternalStatus ''decryption operation failed''))"
    using chain by (simp add: decrypt_rpc_def)
  with rot(1) get chain show ?thesis by blast
qed

theorem rotated_key_lost_on_restart_witness:
  "\<exists>st1 db1 err st2. rotate_dek demo_key_env (demo_key_draws 8 ''k2'') ''t'' ''k'' demo_stored demo_stored_db = (st1, db1, Inl err) \<and>
     get_dek demo_key_env (demo_key_draws 9 ''k3'') ''k'' ''t'' st1 db1 = (st1, db1, Inr (replicate 32 8)) \<and>
     get_dek_chain demo_key_env (demo_key_draws 9 ''k3'') ''k'' ''t'' (restart demo_key_env demo_key_seal db1) db1 =
       (st2, db1, Inr [replicate 32 7]) \<and>
     decrypt_rpc demo_key_env (demo_key_draws 9 ''k3'') ''t''
       (''k'' @ '':'' @ demo_b64_encode (replicate 12 5 @ [104, 105] @ replicate 32 8 @ replicate 12 5 @ [])) []
       (restart demo_key_env demo_key_seal db1) db1 = (st2, db1, Inl (InternalStatus ''decryption operation failed''))"
proof -
  have lib: "crypto_ok (ke_lib demo_key_env)" by (simp add: demo_key_env_def demo_lib_ok)
  have kek: "stored_kek demo_key_env (replicate 32 9) ''t'' (kb_table demo_stored_db) (replicate 32 1)"
    by (simp add: stored_kek_def kek_rows_def loadable_def demo_stored_eval)
  have un: "unwrap_dek_row demo_key_env (with_seal demo_key_seal) (replicate 32 1)
      (persisted_of (demo_row ''k'' ''data_encryption'' (demo_wrap (replicate 32 1) (replicate 32 7) (dek_reload_aad ''k'')))) =
      Some (replicate 32 7)"
    by (simp add: unwrap_dek_row_def persisted_of_def demo_stored_eval)
  have shut: "isl (decrypt_with_dek demo_lib (replicate 32 7)
      (demo_b64_encode (replicate 12 5 @ [104, 105] @ replicate 32 8 @ replicate 12 5 @ [])) [])"
    by (rule demo_other_key) (simp_all add: replicate_eq_replicate)
  note lost = rotated_key_lost_on_restart [OF lib, where st = demo_stored and db = demo_stored_db and key_id = "''k''"
      and e = demo_stored_dek and t = "''t''" and root = "replicate 32 9" and seal = demo_key_seal
      and k = "\<lparr>tk_raw_kek = replicate 32 1, tk_wrapped_kek_b64 = [], tk_version = 1\<rparr>"
      and row = "demo_row ''k'' ''data_encryption'' (demo_wrap (replicate 32 1) (replicate 32 7) (dek_reload_aad ''k''))"
      and w = "demo_key_draws 8 ''k2''" and w' = "demo_key_draws 9 ''k3''" and raw = "replicate 32 8"
      and nonce = "replicate 12 5" and m = "[104, 105]" and a = "[]"
      and envl = "\<lparr>env_ciphertext_b64 = demo_b64_encode (replicate 12 5 @ [104, 105] @ replicate 32 8 @ replicate 12 5 @ []), env_nonce = replicate 12 5\<rparr>"
      and wrapped = "\<lparr>env_ciphertext_b64 = demo_b64_encode
        (replicate 12 3 @ replicate 32 8 @ replicate 32 1 @ replicate 12 3 @ dek_reload_aad ''k''), env_nonce = replicate 12 3\<rparr>"]
  show ?thesis
    using lost kek un shut by (simp add: demo_stored_eval key_table_ok_def loadable_def)
qed

end
