(* ===== verification/Replication_Apply.thy ===== *)
theory Replication_Apply
  imports Secret_Lifecycle Key_Table "HOL-Library.Char_ord" "HOL-Library.List_Lexorder"
begin

text \<open>
  The replication agent's conflict resolution and applier
  (\<^verbatim>\<open>services/replication-agent/src/conflict.rs\<close>, \<^verbatim>\<open>applier.rs\<close>): what a region does to its
  database for one event of a peer's outbox. The tables are those of
  \<^verbatim>\<open>storage/postgres/init/001_schema.sql\<close>, \<^verbatim>\<open>005_api_keys.sql\<close>, \<^verbatim>\<open>007_regions.sql\<close> and their
  later alterations, with the constraints and triggers that fire on these writes, among
  them the triggers that write the region's own outbox
  (\<^verbatim>\<open>storage/postgres/init/015_replication_event_triggers.sql\<close>, \<^verbatim>\<open>017_api_key_replication.sql\<close>).
  An event is applied in one transaction: its statements all take effect, or none, and
  what \<open>SET LOCAL\<close> sets lasts until its end.

  The SQL cast to a UUID, the parser of timestamps and base64 are parameters; \<open>now()\<close> and
  the ids that \<open>gen_random_uuid()\<close> draws are arguments. The metrics are not modelled.
\<close>

section \<open>Conflict resolution\<close>

datatype resolution = AcceptRemote | KeepLocal | ManualReview

record conflict_context =
  cc_local_updated_at :: "datetime option"
  cc_remote_updated_at :: datetime
  cc_local_vector_clock :: "(string, int) hash_map"
  cc_remote_vector_clock :: "(string, int) hash_map"
  cc_local_region :: string
  cc_remote_region :: string

definition resolve_lww :: "conflict_context \<Rightarrow> resolution" where
  "resolve_lww ctx =
     (case cc_local_updated_at ctx of
        None \<Rightarrow> AcceptRemote
      | Some local_ts \<Rightarrow>
          if cc_remote_updated_at ctx > local_ts then AcceptRemote
          else if cc_remote_updated_at ctx < local_ts then KeepLocal
          else if cc_remote_region ctx > cc_local_region ctx then AcceptRemote else KeepLocal)"

definition clock_at :: "(string, int) hash_map \<Rightarrow> string \<Rightarrow> int" where
  "clock_at vc region = (case hm_get vc region of Some n \<Rightarrow> n | None \<Rightarrow> 0)"

definition clock_dominates :: "(string, int) hash_map \<Rightarrow> (string, int) hash_map \<Rightarrow> bool" where
  "clock_dominates a b \<longleftrightarrow>
     list_all (\<lambda>(region, n). n \<ge> clock_at b region) a \<and> list_ex (\<lambda>(region, n). n > clock_at b region) a"

definition resolve_vector_clock :: "conflict_context \<Rightarrow> resolution" where
  "resolve_vector_clock ctx =
     (if clock_dominates (cc_remote_vector_clock ctx) (cc_local_vector_clock ctx) then AcceptRemote
      else if clock_dominates (cc_local_vector_clock ctx) (cc_remote_vector_clock ctx) then KeepLocal
      else if cc_remote_region ctx > cc_local_region ctx then AcceptRemote else KeepLocal)"

definition resolve :: "string \<Rightarrow> conflict_context \<Rightarrow> resolution" where
  "resolve strategy ctx =
     (if strategy = ''vector_clock'' then resolve_vector_clock ctx
      else if strategy = ''manual'' then ManualReview
      else resolve_lww ctx)"

section \<open>The tables of a region\<close>

record policy_row =
  pl_id :: string
  pl_tenant_id :: string
  pl_name :: string
  pl_document :: json
  pl_created_at :: datetime
  pl_updated_at :: datetime

record tenant_row =
  tn_id :: string
  tn_slug :: string
  tn_display_name :: string
  tn_tier :: string
  tn_root_key_id :: string
  tn_created_at :: datetime
  tn_updated_at :: datetime
  tn_deleted_at :: "datetime option"

record api_key_row =
  ak_id :: string
  ak_tenant_id :: string
  ak_name :: string
  ak_key_hash :: "u8 list"
  ak_key_prefix :: string
  ak_path_prefixes :: "string list"
  ak_policies :: "string list"
  ak_created_by :: string
  ak_created_at :: datetime
  ak_expires_at :: "datetime option"
  ak_last_used_at :: "datetime option"
  ak_revoked_at :: "datetime option"
  ak_rate_limit_per_minute :: int
  ak_is_superuser :: bool
  ak_mfa_required :: bool

record region_row =
  rg_id :: string
  rg_display_name :: string
  rg_endpoint :: string
  rg_status :: string
  rg_is_local :: bool
  rg_replication_lag_ms :: "int option"
  rg_last_seen :: datetime
  rg_metadata :: json

record audit_row =
  au_id :: string
  au_tenant_id :: string
  au_principal_id :: string
  au_action :: string
  au_resource :: string
  au_outcome :: string
  au_details :: json
  au_origin_region :: "string option"
  au_timestamp :: datetime

record region_db =
  rd_secrets :: pg_db
  rd_keys :: key_table
  rd_policies :: "policy_row list"
  rd_tenants :: "tenant_row list"
  rd_api_keys :: "api_key_row list"
  rd_regions :: "region_row list"
  rd_audit :: "audit_row list"
  rd_outbox :: "replication_event list"
  rd_sequences :: "(string, int) hash_map"

section \<open>The triggers that write the outbox\<close>

text \<open>The settings of the transaction that the triggers read.\<close>

record session_settings =
  ss_region_id :: "string option"
  ss_replication_agent :: bool

definition current_region_id :: "session_settings \<Rightarrow> string" where
  "current_region_id ss = (case ss_region_id ss of Some r \<Rightarrow> r | None \<Rightarrow> ''unknown'')"

definition set_local_replication_agent :: "session_settings \<Rightarrow> session_settings" where
  "set_local_replication_agent ss = ss\<lparr>ss_replication_agent := True\<rparr>"

text \<open>How \<^verbatim>\<open>jsonb_build_object\<close> prints a timestamp and \<^verbatim>\<open>encode\<close> a hash are parameters.\<close>

record json_print =
  jp_datetime :: "datetime \<Rightarrow> string"
  jp_base64 :: "u8 list \<Rightarrow> string"

definition json_opt_datetime :: "json_print \<Rightarrow> datetime option \<Rightarrow> json" where
  "json_opt_datetime pr t = (case t of None \<Rightarrow> JNull | Some d \<Rightarrow> JStr (jp_datetime pr d))"

definition trg_emit_policy_replication_event ::
  "json_print \<Rightarrow> bool \<Rightarrow> datetime \<Rightarrow> string \<Rightarrow> string \<Rightarrow> policy_row \<Rightarrow> replication_event list" where
  "trg_emit_policy_replication_event pr by_agent now event_id region row =
     (if by_agent then []
      else [outbox_row event_id now ''policy_update'' region
        (JObj [(''tenant_id'', JStr (pl_tenant_id row)), (''name'', JStr (pl_name row)),
               (''document'', pl_document row), (''updated_at'', JStr (jp_datetime pr (pl_updated_at row)))])])"

definition trg_emit_tenant_replication_event ::
  "json_print \<Rightarrow> bool \<Rightarrow> datetime \<Rightarrow> string \<Rightarrow> string \<Rightarrow> tenant_row \<Rightarrow> replication_event list" where
  "trg_emit_tenant_replication_event pr by_agent now event_id region row =
     (if by_agent then []
      else [outbox_row event_id now ''tenant_update'' region
        (JObj [(''id'', JStr (tn_id row)), (''slug'', JStr (tn_slug row)),
               (''display_name'', JStr (tn_display_name row)), (''tier'', JStr (tn_tier row)),
               (''root_key_id'', JStr (tn_root_key_id row)),
               (''updated_at'', JStr (jp_datetime pr (tn_updated_at row))),
               (''deleted_at'', json_opt_datetime pr (tn_deleted_at row))])])"

text \<open>For an update the trigger compares with the old row, and skips what a peer has no use for.\<close>

definition trg_emit_api_key_replication_event ::
  "json_print \<Rightarrow> bool \<Rightarrow> datetime \<Rightarrow> string \<Rightarrow> string \<Rightarrow> api_key_row option \<Rightarrow> api_key_row \<Rightarrow> replication_event list" where
  "trg_emit_api_key_replication_event pr by_agent now event_id region old row =
     (if by_agent then []
      else if (case old of
                 None \<Rightarrow> False
               | Some k \<Rightarrow> ak_key_hash row = ak_key_hash k \<and> ak_policies row = ak_policies k \<and>
                    ak_path_prefixes row = ak_path_prefixes k \<and> ak_expires_at row = ak_expires_at k \<and>
                    ak_revoked_at row = ak_revoked_at k \<and> ak_name row = ak_name k) then []
      else [outbox_row event_id now ''api_key_upsert'' region
        (JObj [(''id'', JStr (ak_id row)), (''tenant_id'', JStr (ak_tenant_id row)), (''name'', JStr (ak_name row)),
               (''key_hash_b64'', JStr (jp_base64 pr (ak_key_hash row))), (''key_prefix'', JStr (ak_key_prefix row)),
               (''path_prefixes'', JArr (map JStr (ak_path_prefixes row))),
               (''policies'', JArr (map JStr (ak_policies row))), (''created_by'', JStr (ak_created_by row)),
               (''created_at'', JStr (jp_datetime pr (ak_created_at row))),
               (''expires_at'', json_opt_datetime pr (ak_expires_at row)),
               (''revoked_at'', json_opt_datetime pr (ak_revoked_at row)),
               (''rate_limit_per_minute'', JInt (ak_rate_limit_per_minute row))])])"

datatype apply_error =
    MissingField string
  | NotBase64
  | InvalidUuid string
  | Violation string
  | Procedure sql_error

record apply_env =
  ae_cast_uuid :: "string \<Rightarrow> string option"
  ae_parse_datetime :: "string \<Rightarrow> datetime option"
  ae_b64_decode :: "string \<Rightarrow> u8 list option"
  ae_print :: json_print
  ae_region_id :: "string option"

record apply_draws =
  ad_now :: datetime
  ad_id :: string
  ad_event_id :: string

definition field :: "replication_event \<Rightarrow> string \<Rightarrow> apply_error + string" where
  "field ev k = ok_or (MissingField k) (as_str (json_index (rv_payload ev) k))"

definition cast_uuid :: "apply_env \<Rightarrow> string \<Rightarrow> apply_error + string" where
  "cast_uuid env s = ok_or (InvalidUuid s) (ae_cast_uuid env s)"

text \<open>\<^verbatim>\<open>.as_i64().unwrap_or(n) as i32\<close>: the cast wraps.\<close>

definition i32_or :: "int \<Rightarrow> json \<Rightarrow> int" where
  "i32_or n v = sint (of_int (case as_i64 v of Some x \<Rightarrow> x | None \<Rightarrow> n) :: 32 word)"

definition tenant_ids :: "region_db \<Rightarrow> string list" where
  "tenant_ids db = map tn_id (rd_tenants db)"

text \<open>\<^verbatim>\<open>AFTER INSERT OR UPDATE ... FOR EACH ROW\<close>: what a written row adds to the outbox.\<close>

definition emit_policy :: "session_settings \<Rightarrow> apply_env \<Rightarrow> apply_draws \<Rightarrow> policy_row \<Rightarrow> region_db \<Rightarrow> region_db" where
  "emit_policy ss env w row db = db\<lparr>rd_outbox := rd_outbox db @
     trg_emit_policy_replication_event (ae_print env) (ss_replication_agent ss) (ad_now w) (ad_event_id w)
       (current_region_id ss) row\<rparr>"

definition emit_tenant :: "session_settings \<Rightarrow> apply_env \<Rightarrow> apply_draws \<Rightarrow> tenant_row \<Rightarrow> region_db \<Rightarrow> region_db" where
  "emit_tenant ss env w row db = db\<lparr>rd_outbox := rd_outbox db @
     trg_emit_tenant_replication_event (ae_print env) (ss_replication_agent ss) (ad_now w) (ad_event_id w)
       (current_region_id ss) row\<rparr>"

definition emit_api_key ::
  "session_settings \<Rightarrow> apply_env \<Rightarrow> apply_draws \<Rightarrow> api_key_row option \<Rightarrow> api_key_row \<Rightarrow> region_db \<Rightarrow> region_db" where
  "emit_api_key ss env w old row db = db\<lparr>rd_outbox := rd_outbox db @
     trg_emit_api_key_replication_event (ae_print env) (ss_replication_agent ss) (ad_now w) (ad_event_id w)
       (current_region_id ss) old row\<rparr>"

section \<open>Handlers\<close>

definition apply_dek_upsert ::
  "apply_env \<Rightarrow> apply_draws \<Rightarrow> replication_event \<Rightarrow> region_db \<Rightarrow> apply_error + region_db" where
  "apply_dek_upsert env w ev db =
     and_then (field ev ''tenant_id'') (\<lambda>tenant_id.
     and_then (field ev ''key_id'') (\<lambda>key_id.
     and_then (field ev ''dek_wrapped_root'') (\<lambda>dek_wrapped_root.
       let algorithm = (case as_str (json_index (rv_payload ev) ''algorithm'') of Some a \<Rightarrow> a | None \<Rightarrow> ''aes-256-gcm'');
           version = i32_or 1 (json_index (rv_payload ev) ''version'') in
       and_then (cast_uuid env key_id) (\<lambda>kid.
       and_then (cast_uuid env tenant_id) (\<lambda>tid.
         if algorithm \<notin> {''aes-256-gcm'', ''chacha20-poly1305'', ''xchacha20-poly1305''}
         then Inl (Violation ''key_descriptors_algorithm_check'')
         else if list_ex (\<lambda>r. kr_id r = kid) (rd_keys db) then Inr db
         else
           (case insert_key_row (tenant_ids db)
                   \<lparr>kr_id = kid, kr_version = version, kr_algorithm = algorithm, kr_purpose = ''data_encryption'',
                    kr_state = ''active'', kr_tenant_id = Some tid, kr_wrapped_key = dek_wrapped_root,
                    kr_parent_key_id = None, kr_created_at = ad_now w, kr_rotated_at = None,
                    kr_expires_at = None, kr_key_name = None\<rparr> (rd_keys db) of
              Inl constraint \<Rightarrow> Inl (Violation constraint)
            | Inr keys \<Rightarrow> Inr (db\<lparr>rd_keys := keys\<rparr>)))))))"

definition secret_conflict ::
  "string \<Rightarrow> string \<Rightarrow> replication_event \<Rightarrow> secret_row option \<Rightarrow> resolution" where
  "secret_conflict strategy local_region ev local_meta =
     (case local_meta of
        None \<Rightarrow> AcceptRemote
      | Some s \<Rightarrow> resolve strategy
          \<lparr>cc_local_updated_at = Some (sr_updated_at s), cc_remote_updated_at = rv_created_at ev,
           cc_local_vector_clock = json_clock (sr_vector_clock s),
           cc_remote_vector_clock = json_clock (rv_vector_clock ev),
           cc_local_region = local_region, cc_remote_region = rv_source_region ev\<rparr>)"

definition replicate_secret ::
  "apply_draws \<Rightarrow> replication_event \<Rightarrow> string \<Rightarrow> string \<Rightarrow> string \<Rightarrow> string \<Rightarrow> region_db \<Rightarrow> apply_error + region_db" where
  "replicate_secret w ev tid path ciphertext dek_id db =
     (if hm_get (pg_secrets (rd_secrets db)) (tid, path) = None \<and> tid \<notin> set (tenant_ids db)
      then Inl (Violation ''secrets_tenant_id_fkey'')
      else
        (case vault_upsert_secret (ad_now w) (ad_id w) tid path ''kv_v2'' ciphertext dek_id None 10 False []
                default_lifecycle (rd_secrets db) of
           Inl e \<Rightarrow> Inl (Procedure e)
         | Inr (secrets, _, _) \<Rightarrow>
             Inr (db\<lparr>rd_secrets := secrets\<lparr>pg_secrets := hm_map_values
               (\<lambda>r. if sr_tenant_id r = tid \<and> sr_path r = path
                    then r\<lparr>sr_origin_region := Some (rv_source_region ev), sr_vector_clock := rv_vector_clock ev,
                           sr_updated_at := ad_now w\<rparr> else r) (pg_secrets secrets)\<rparr>\<rparr>)))"

definition apply_secret_upsert ::
  "apply_env \<Rightarrow> apply_draws \<Rightarrow> string \<Rightarrow> string \<Rightarrow> replication_event \<Rightarrow> region_db \<Rightarrow> apply_error + region_db" where
  "apply_secret_upsert env w strategy local_region ev db =
     and_then (field ev ''tenant_id'') (\<lambda>tenant_id.
     and_then (field ev ''path'') (\<lambda>path.
     and_then (field ev ''ciphertext'') (\<lambda>ciphertext.
     and_then (field ev ''dek_id'') (\<lambda>dek_id.
     and_then (cast_uuid env tenant_id) (\<lambda>tid.
       case secret_conflict strategy local_region ev (hm_get (pg_secrets (rd_secrets db)) (tid, path)) of
         AcceptRemote \<Rightarrow> replicate_secret w ev tid path ciphertext dek_id db
       | KeepLocal \<Rightarrow> Inr db
       | ManualReview \<Rightarrow> Inr db)))))"

definition change_versions ::
  "apply_env \<Rightarrow> (string \<Rightarrow> int list \<Rightarrow> pg_db \<Rightarrow> pg_db) \<Rightarrow> replication_event \<Rightarrow> region_db \<Rightarrow> apply_error + region_db" where
  "change_versions env f ev db =
     and_then (field ev ''tenant_id'') (\<lambda>tenant_id.
     and_then (field ev ''path'') (\<lambda>path.
       let versions = json_i32s (json_index (rv_payload ev) ''versions'') in
       if versions = [] then Inr db
       else and_then (cast_uuid env tenant_id) (\<lambda>tid.
         case hm_get (pg_secrets (rd_secrets db)) (tid, path) of
           None \<Rightarrow> Inr db
         | Some s \<Rightarrow> Inr (db\<lparr>rd_secrets := f (sr_id s) versions (rd_secrets db)\<rparr>))))"

definition apply_secret_delete ::
  "apply_env \<Rightarrow> apply_draws \<Rightarrow> replication_event \<Rightarrow> region_db \<Rightarrow> apply_error + region_db" where
  "apply_secret_delete env w ev db =
     change_versions env (\<lambda>sid versions pg. fst (vault_soft_delete_versions (ad_now w) sid versions pg)) ev db"

definition apply_secret_destroy ::
  "apply_env \<Rightarrow> apply_draws \<Rightarrow> replication_event \<Rightarrow> region_db \<Rightarrow> apply_error + region_db" where
  "apply_secret_destroy env w ev db =
     change_versions env (\<lambda>sid versions pg. fst (vault_destroy_versions (ad_now w) sid versions pg)) ev db"

definition apply_key_rotate :: "replication_event \<Rightarrow> region_db \<Rightarrow> apply_error + region_db" where
  "apply_key_rotate ev db = Inr db"

text \<open>The local row decides first; the trigger on updates sets the time of the row to \<open>now()\<close>
  after the statement has set it to the event's.\<close>

definition apply_policy_update ::
  "session_settings \<Rightarrow> apply_env \<Rightarrow> apply_draws \<Rightarrow> replication_event \<Rightarrow> region_db \<Rightarrow> apply_error + region_db" where
  "apply_policy_update ss env w ev db =
     and_then (field ev ''tenant_id'') (\<lambda>tenant_id.
     and_then (field ev ''name'') (\<lambda>name.
     and_then (ok_or (MissingField ''document'') (json_get (rv_payload ev) ''document'')) (\<lambda>document.
     and_then (cast_uuid env tenant_id) (\<lambda>tid.
       case find (\<lambda>p. pl_tenant_id p = tid \<and> pl_name p = name) (rd_policies db) of
         Some p \<Rightarrow>
           if pl_updated_at p > rv_created_at ev then Inr db
           else
             let ss1 = set_local_replication_agent ss;
                 written = (\<lambda>p. p\<lparr>pl_document := document, pl_updated_at := ad_now w\<rparr>)
             in Inr (emit_policy ss1 env w (written p) (db\<lparr>rd_policies := map (\<lambda>p.
                  if pl_tenant_id p = tid \<and> pl_name p = name then written p else p) (rd_policies db)\<rparr>))
       | None \<Rightarrow>
           let ss1 = set_local_replication_agent ss;
               row = \<lparr>pl_id = ad_id w, pl_tenant_id = tid, pl_name = name, pl_document = document,
                 pl_created_at = ad_now w, pl_updated_at = rv_created_at ev\<rparr>
           in if tid \<notin> set (tenant_ids db) then Inl (Violation ''policies_tenant_id_fkey'')
              else Inr (emit_policy ss1 env w row (db\<lparr>rd_policies := rd_policies db @ [row]\<rparr>))))))"

text \<open>The constraints of the API key table a written row must meet against the other rows.\<close>

definition check_api_key :: "api_key_row \<Rightarrow> api_key_row list \<Rightarrow> apply_error + unit" where
  "check_api_key k others =
     (if length (ak_name k) > 255 \<or> length (ak_key_prefix k) > 12 \<or> length (ak_created_by k) > 255
      then Inl (Violation ''value too long'')
      else if list_ex (\<lambda>r. ak_key_hash r = ak_key_hash k) others then Inl (Violation ''api_keys_key_hash_key'')
      else if ak_revoked_at k = None \<and>
              list_ex (\<lambda>r. ak_revoked_at r = None \<and> ak_tenant_id r = ak_tenant_id k \<and> ak_name r = ak_name k) others
      then Inl (Violation ''idx_api_keys_tenant_name_active'')
      else Inr ())"

definition merge_api_key :: "api_key_row \<Rightarrow> api_key_row \<Rightarrow> api_key_row" where
  "merge_api_key old new =
     old\<lparr>ak_name := ak_name new, ak_key_hash := ak_key_hash new, ak_key_prefix := ak_key_prefix new,
         ak_path_prefixes := ak_path_prefixes new, ak_policies := ak_policies new,
         ak_expires_at := ak_expires_at new, ak_revoked_at := coalesce (ak_revoked_at old) (ak_revoked_at new),
         ak_rate_limit_per_minute := ak_rate_limit_per_minute new\<rparr>"

definition upsert_api_key ::
  "session_settings \<Rightarrow> apply_env \<Rightarrow> apply_draws \<Rightarrow> api_key_row \<Rightarrow> region_db \<Rightarrow> apply_error + region_db" where
  "upsert_api_key ss env w new db =
     (let others = filter (\<lambda>r. ak_id r \<noteq> ak_id new) (rd_api_keys db) in
      case find (\<lambda>r. ak_id r = ak_id new) (rd_api_keys db) of
        Some old \<Rightarrow>
          and_then (check_api_key new []) (\<lambda>_.
          and_then (check_api_key (merge_api_key old new) others) (\<lambda>_.
            Inr (emit_api_key ss env w (Some old) (merge_api_key old new) (db\<lparr>rd_api_keys :=
              map (\<lambda>r. if ak_id r = ak_id new then merge_api_key r new else r) (rd_api_keys db)\<rparr>))))
      | None \<Rightarrow>
          and_then (check_api_key new others) (\<lambda>_.
            if ak_tenant_id new \<notin> set (tenant_ids db) then Inl (Violation ''api_keys_tenant_id_fkey'')
            else Inr (emit_api_key ss env w None new (db\<lparr>rd_api_keys := rd_api_keys db @ [new]\<rparr>))))"

definition apply_api_key_upsert ::
  "session_settings \<Rightarrow> apply_env \<Rightarrow> apply_draws \<Rightarrow> replication_event \<Rightarrow> region_db \<Rightarrow> apply_error + region_db" where
  "apply_api_key_upsert ss env w ev db =
     and_then (field ev ''id'') (\<lambda>key_id.
     and_then (field ev ''tenant_id'') (\<lambda>tenant_id.
     and_then (field ev ''name'') (\<lambda>name.
     and_then (field ev ''key_prefix'') (\<lambda>key_prefix.
     and_then (field ev ''created_by'') (\<lambda>created_by.
     and_then (field ev ''key_hash_b64'') (\<lambda>key_hash_b64.
     and_then (ok_or NotBase64 (ae_b64_decode env key_hash_b64)) (\<lambda>key_hash.
     and_then (cast_uuid env key_id) (\<lambda>kid.
     and_then (cast_uuid env tenant_id) (\<lambda>tid.
       upsert_api_key (set_local_replication_agent ss) env w
         \<lparr>ak_id = kid, ak_tenant_id = tid, ak_name = name, ak_key_hash = key_hash, ak_key_prefix = key_prefix,
          ak_path_prefixes = json_strings (json_index (rv_payload ev) ''path_prefixes''),
          ak_policies = json_strings (json_index (rv_payload ev) ''policies''),
          ak_created_by = created_by, ak_created_at = ad_now w,
          ak_expires_at = json_datetime (ae_parse_datetime env) (json_index (rv_payload ev) ''expires_at''),
          ak_last_used_at = None,
          ak_revoked_at = json_datetime (ae_parse_datetime env) (json_index (rv_payload ev) ''revoked_at''),
          ak_rate_limit_per_minute = i32_or 60 (json_index (rv_payload ev) ''rate_limit_per_minute''),
          ak_is_superuser = False, ak_mfa_required = False\<rparr> db)))))))))"

definition apply_tenant_update ::
  "session_settings \<Rightarrow> apply_env \<Rightarrow> apply_draws \<Rightarrow> replication_event \<Rightarrow> region_db \<Rightarrow> apply_error + region_db" where
  "apply_tenant_update ss env w ev db =
     and_then (field ev ''id'') (\<lambda>tenant_id.
     and_then (field ev ''slug'') (\<lambda>slug.
     and_then (field ev ''display_name'') (\<lambda>display_name.
     and_then (field ev ''tier'') (\<lambda>tier.
     and_then (field ev ''root_key_id'') (\<lambda>root_key_id.
     and_then (cast_uuid env tenant_id) (\<lambda>tid.
       let deleted_at = json_datetime (ae_parse_datetime env) (json_index (rv_payload ev) ''deleted_at'');
           clash = list_ex (\<lambda>t. tn_id t \<noteq> tid \<and> tn_slug t = slug) (rd_tenants db);
           bad_tier = tier \<notin> {''shared'', ''dedicated'', ''sovereign''};
           ss1 = set_local_replication_agent ss
       in case find (\<lambda>t. tn_id t = tid) (rd_tenants db) of
            Some t \<Rightarrow>
              if tn_updated_at t > rv_created_at ev then Inr db
              else if bad_tier then Inl (Violation ''tenants_tier_check'')
              else if clash then Inl (Violation ''tenants_slug_key'')
              else
                let written = (\<lambda>t. t\<lparr>tn_slug := slug, tn_display_name := display_name, tn_tier := tier,
                      tn_root_key_id := root_key_id, tn_updated_at := ad_now w, tn_deleted_at := deleted_at\<rparr>)
                in Inr (emit_tenant ss1 env w (written t) (db\<lparr>rd_tenants := map (\<lambda>t.
                     if tn_id t = tid then written t else t) (rd_tenants db)\<rparr>))
          | None \<Rightarrow>
              if bad_tier then Inl (Violation ''tenants_tier_check'')
              else if clash then Inl (Violation ''tenants_slug_key'')
              else
                let row = \<lparr>tn_id = tid, tn_slug = slug, tn_display_name = display_name, tn_tier = tier,
                      tn_root_key_id = root_key_id, tn_created_at = ad_now w, tn_updated_at = rv_created_at ev,
                      tn_deleted_at = deleted_at\<rparr>
                in Inr (emit_tenant ss1 env w row (db\<lparr>rd_tenants := rd_tenants db @ [row]\<rparr>))))))))"

definition set_region_status :: "datetime \<Rightarrow> string \<Rightarrow> (string \<Rightarrow> bool) \<Rightarrow> region_db \<Rightarrow> region_db" where
  "set_region_status now status P db =
     db\<lparr>rd_regions := map (\<lambda>r. if P (rg_id r) then r\<lparr>rg_status := status, rg_last_seen := now\<rparr> else r) (rd_regions db)\<rparr>"

definition apply_region_promote ::
  "apply_draws \<Rightarrow> string \<Rightarrow> replication_event \<Rightarrow> region_db \<Rightarrow> apply_error + region_db" where
  "apply_region_promote w local_region ev db =
     and_then (field ev ''target_region'') (\<lambda>target_region.
       let initiated_by = (case as_str (json_index (rv_payload ev) ''initiated_by'') of
                             Some s \<Rightarrow> s | None \<Rightarrow> rv_source_region ev);
           db1 = set_region_status (ad_now w) ''active'' (\<lambda>i. i = target_region) db;
           db2 = (if target_region = local_region \<and> initiated_by \<noteq> local_region
                  then set_region_status (ad_now w) ''degraded'' (\<lambda>i. i = initiated_by \<and> i \<noteq> local_region) db1
                  else db1)
       in Inr (db2\<lparr>rd_audit := rd_audit db2 @
            [\<lparr>au_id = ad_id w, au_tenant_id = ''00000000-0000-0000-0000-000000000000'',
              au_principal_id = ''replication-agent'', au_action = ''region_promote'', au_resource = target_region,
              au_outcome = ''success'',
              au_details = JObj [(''event'', JStr ''region_promote''), (''target_region'', JStr target_region),
                (''initiated_by'', JStr initiated_by), (''source_region'', JStr (rv_source_region ev)),
                (''local_region'', JStr local_region)],
              au_origin_region = Some local_region, au_timestamp = ad_now w\<rparr>]\<rparr>))"

definition apply_event_inner ::
  "session_settings \<Rightarrow> apply_env \<Rightarrow> apply_draws \<Rightarrow> string \<Rightarrow> string \<Rightarrow> replication_event \<Rightarrow> region_db \<Rightarrow> apply_error + region_db" where
  "apply_event_inner ss env w strategy local_region ev db =
     (let type = rv_event_type ev in
      if type = ''dek_upsert'' then apply_dek_upsert env w ev db
      else if type = ''secret_upsert'' then apply_secret_upsert env w strategy local_region ev db
      else if type = ''secret_delete'' then apply_secret_delete env w ev db
      else if type = ''secret_destroy'' then apply_secret_destroy env w ev db
      else if type = ''key_rotate'' then apply_key_rotate ev db
      else if type = ''policy_update'' then apply_policy_update ss env w ev db
      else if type = ''tenant_update'' then apply_tenant_update ss env w ev db
      else if type = ''api_key_upsert'' then apply_api_key_upsert ss env w ev db
      else if type = ''region_failover'' then Inr db
      else if type = ''region_promote'' then apply_region_promote w local_region ev db
      else Inr db)"

text \<open>The transaction: committed when the event applied, rolled back otherwise.\<close>

definition apply_event ::
  "apply_env \<Rightarrow> apply_draws \<Rightarrow> string \<Rightarrow> string \<Rightarrow> replication_event \<Rightarrow> region_db \<Rightarrow> region_db \<times> (apply_error + unit)" where
  "apply_event env w strategy local_region ev db =
     (case apply_event_inner \<lparr>ss_region_id = ae_region_id env, ss_replication_agent = False\<rparr>
             env w strategy local_region ev db of
        Inl e \<Rightarrow> (db, Inl e)
      | Inr db' \<Rightarrow> (db', Inr ()))"

section \<open>Lemmas\<close>

lemma field_Inr [result_iff]: "field ev k = Inr s \<longleftrightarrow> json_index (rv_payload ev) k = JStr s"
  by (auto simp: field_def as_str_iff result_iff)

lemma cast_uuid_Inr [result_iff]: "cast_uuid env s = Inr u \<longleftrightarrow> ae_cast_uuid env s = Some u"
  by (simp add: cast_uuid_def result_iff)

text \<open>What no event changes: the outbox and the cursors; the rows of the key table; and of
  an API key its owner, its flags, and the time of its revocation.\<close>

definition keys_kept :: "api_key_row list \<Rightarrow> api_key_row list \<Rightarrow> bool" where
  "keys_kept ks ks' \<longleftrightarrow>
     list_all (\<lambda>k. list_ex (\<lambda>k'. ak_id k' = ak_id k \<and> ak_tenant_id k' = ak_tenant_id k \<and>
       ak_is_superuser k' = ak_is_superuser k \<and> ak_mfa_required k' = ak_mfa_required k \<and>
       (ak_revoked_at k \<noteq> None \<longrightarrow> ak_revoked_at k' = ak_revoked_at k)) ks') ks"

definition event_frame :: "region_db \<Rightarrow> region_db \<Rightarrow> bool" where
  "event_frame db db' \<longleftrightarrow>
     rd_outbox db' = rd_outbox db \<and> rd_sequences db' = rd_sequences db \<and>
     take (length (rd_keys db)) (rd_keys db') = rd_keys db \<and> keys_kept (rd_api_keys db) (rd_api_keys db')"

lemma keys_kept_refl [simp, intro]: "keys_kept ks ks"
  by (auto simp: keys_kept_def list_all_iff list_ex_iff)

lemma keys_kept_trans: "keys_kept a b \<Longrightarrow> keys_kept b c \<Longrightarrow> keys_kept a c"
  unfolding keys_kept_def list_all_iff list_ex_iff by (metis (no_types, lifting))

lemma keys_kept_append [simp, intro]: "keys_kept ks (ks @ new)"
  by (auto simp: keys_kept_def list_all_iff list_ex_iff)

lemma event_frame_refl [simp, intro]: "event_frame db db"
  by (simp add: event_frame_def)

lemma event_frame_trans:
  assumes "event_frame a b" "event_frame b c"
  shows "event_frame a c"
proof -
  have "take (length (rd_keys a)) (rd_keys c) = take (length (rd_keys a)) (take (length (rd_keys b)) (rd_keys c))"
    using assms(1) by (simp add: event_frame_def min_def) (metis linorder_le_cases take_all_iff length_take min.absorb_iff2)
  with assms show ?thesis by (auto simp: event_frame_def intro: keys_kept_trans)
qed

lemma event_frame_secrets [simp, intro]: "event_frame db (db\<lparr>rd_secrets := x\<rparr>)"
  and event_frame_policies [simp, intro]: "event_frame db (db\<lparr>rd_policies := p\<rparr>)"
  and event_frame_tenants [simp, intro]: "event_frame db (db\<lparr>rd_tenants := t\<rparr>)"
  and event_frame_regions [simp, intro]: "event_frame db (db\<lparr>rd_regions := r, rd_audit := a\<rparr>)"
  and event_frame_keys [intro]: "insert_key_row ts row (rd_keys db) = Inr keys \<Longrightarrow> event_frame db (db\<lparr>rd_keys := keys\<rparr>)"
  by (auto simp: event_frame_def dest: insert_key_row_Inr(1))

lemma merge_keeps: "keys_kept ks (map (\<lambda>r. if ak_id r = ak_id new then merge_api_key r new else r) ks)"
  unfolding keys_kept_def list_all_iff list_ex_iff
proof (intro ballI)
  fix k
  let ?f = "\<lambda>r. if ak_id r = ak_id new then merge_api_key r new else r"
  assume "k \<in> set ks"
  then show "\<exists>k' \<in> set (map ?f ks). ak_id k' = ak_id k \<and> ak_tenant_id k' = ak_tenant_id k \<and>
      ak_is_superuser k' = ak_is_superuser k \<and> ak_mfa_required k' = ak_mfa_required k \<and>
      (ak_revoked_at k \<noteq> None \<longrightarrow> ak_revoked_at k' = ak_revoked_at k)"
    unfolding set_map by (intro bexI [of _ "?f k"] imageI) (auto simp: merge_api_key_def coalesce_def)
qed

text \<open>The triggers emit nothing once the agent has marked its transaction.\<close>

lemma marked_emits_nothing [simp]:
  "emit_policy (set_local_replication_agent ss) env w p db = db"
  "emit_tenant (set_local_replication_agent ss) env w t db = db"
  "emit_api_key (set_local_replication_agent ss) env w old k db = db"
  by (simp_all add: emit_policy_def emit_tenant_def emit_api_key_def set_local_replication_agent_def
      trg_emit_policy_replication_event_def trg_emit_tenant_replication_event_def
      trg_emit_api_key_replication_event_def)

lemma upsert_api_key_frame:
  "upsert_api_key (set_local_replication_agent ss) env w new db = Inr db' \<Longrightarrow> event_frame db db'"
  by (auto simp: upsert_api_key_def Let_def result_iff event_frame_def merge_keeps split: option.splits if_splits)

lemma apply_dek_frame: "apply_dek_upsert env w ev db = Inr db' \<Longrightarrow> event_frame db db'"
  by (auto simp: apply_dek_upsert_def result_iff Let_def split: if_splits sum.splits)

lemma replicate_secret_frame: "replicate_secret w ev tid path ct dek db = Inr db' \<Longrightarrow> event_frame db db'"
  by (auto simp: replicate_secret_def split: if_splits sum.splits prod.splits)

lemma apply_secret_upsert_cases:
  assumes "apply_secret_upsert env w strategy l ev db = Inr db'"
  obtains (kept) "db' = db"
    | (accepted) tid path ct dek where "replicate_secret w ev tid path ct dek db = Inr db'"
proof -
  from assms obtain tid path ct dek where
    *: "(case secret_conflict strategy l ev (hm_get (pg_secrets (rd_secrets db)) (tid, path)) of
           AcceptRemote \<Rightarrow> replicate_secret w ev tid path ct dek db
         | KeepLocal \<Rightarrow> Inr db | ManualReview \<Rightarrow> Inr db) = Inr db'"
    by (auto simp: apply_secret_upsert_def result_iff)
  then show thesis
    by (cases "secret_conflict strategy l ev (hm_get (pg_secrets (rd_secrets db)) (tid, path))")
      (auto intro: that)
qed

lemma apply_secret_frame: "apply_secret_upsert env w strategy l ev db = Inr db' \<Longrightarrow> event_frame db db'"
  by (erule apply_secret_upsert_cases) (auto intro: replicate_secret_frame)

lemma change_versions_frame: "change_versions env f ev db = Inr db' \<Longrightarrow> event_frame db db'"
  by (auto simp: change_versions_def result_iff Let_def split: if_splits option.splits)

lemma apply_policy_frame: "apply_policy_update ss env w ev db = Inr db' \<Longrightarrow> event_frame db db'"
  by (auto simp: apply_policy_update_def result_iff Let_def split: if_splits option.splits)

lemma apply_tenant_frame: "apply_tenant_update ss env w ev db = Inr db' \<Longrightarrow> event_frame db db'"
  by (auto simp: apply_tenant_update_def result_iff Let_def split: if_splits option.splits)

lemma apply_api_key_frame: "apply_api_key_upsert ss env w ev db = Inr db' \<Longrightarrow> event_frame db db'"
  by (auto simp: apply_api_key_upsert_def result_iff intro: upsert_api_key_frame)

lemma apply_promote_frame: "apply_region_promote w l ev db = Inr db' \<Longrightarrow> event_frame db db'"
  by (auto simp: apply_region_promote_def result_iff Let_def set_region_status_def event_frame_def)

lemma apply_event_frame: "apply_event env w strategy l ev db = (db', r) \<Longrightarrow> event_frame db db'"
  by (auto simp: apply_event_def apply_event_inner_def Let_def apply_secret_delete_def apply_secret_destroy_def
      apply_key_rotate_def split: sum.splits if_splits
      dest: apply_dek_frame apply_secret_frame change_versions_frame apply_policy_frame apply_tenant_frame apply_api_key_frame apply_promote_frame)

end
