(* ===== verification/Replication_Flow.thy ===== *)
theory Replication_Flow
  imports Replication_Apply
begin

text \<open>
  How events travel between regions: the peer-facing API that serves the outbox (\<^verbatim>\<open>producer.rs\<close>, \<^verbatim>\<open>auth.rs\<close> of
  \<^verbatim>\<open>services/replication-agent/src\<close>), the consumer that polls the peers and applies what
  they serve (\<^verbatim>\<open>consumer.rs\<close>), and its configuration (\<^verbatim>\<open>config.rs\<close>).

  The consumer runs forever; the model has one pass of it. A request over the network is
  a parameter that answers with the events or fails. Metrics and log lines are not
  modelled.
\<close>

section \<open>Serving it\<close>

text \<open>The bearer token of a request, checked before any replication route: 503 when none is
  configured, 401 when it is not the configured one.\<close>

definition require_peer_token :: "string option \<Rightarrow> string option \<Rightarrow> nat + unit" where
  "require_peer_token token authorization =
     (case token of
        None \<Rightarrow> Inl 503
      | Some expected \<Rightarrow>
          let presented = (case authorization of
                None \<Rightarrow> []
              | Some v \<Rightarrow> if starts_with v ''Bearer '' then drop (length ''Bearer '') v else [])
          in if length presented = length expected \<and> presented = expected then Inr () else Inl 401)"

text \<open>The query: events of other regions that are later than the one at the position
  \<open>after_seq\<close>, or than the epoch when there is none. A negative limit or offset is an error
  of the database, and an error is served as no events.\<close>

definition get_events_handler ::
  "string option \<Rightarrow> int option \<Rightarrow> int option \<Rightarrow> replication_event list \<Rightarrow> replication_event list" where
  "get_events_handler source_region after_seq limit outbox =
     (let lim = min (case limit of Some l \<Rightarrow> l | None \<Rightarrow> 100) 1000;
          seq = (case after_seq of Some n \<Rightarrow> n | None \<Rightarrow> 0);
          sorted = sort_key rv_created_at outbox
      in case source_region of
           None \<Rightarrow> []
         | Some requesting_region \<Rightarrow>
             if lim < 0 \<or> seq < 0 then []
             else
               let after = (if nat seq < length sorted then rv_created_at (sorted ! nat seq) else 0)
               in take (nat lim) (filter (\<lambda>e. rv_source_region e \<noteq> requesting_region \<and> rv_created_at e > after) sorted))"

definition ack_handler :: "string \<Rightarrow> int \<Rightarrow> region_db \<Rightarrow> region_db" where
  "ack_handler region_id last_sequence db =
     db\<lparr>rd_sequences := hm_insert region_id
       (case hm_get (rd_sequences db) region_id of
          None \<Rightarrow> last_sequence | Some n \<Rightarrow> max n last_sequence) (rd_sequences db)\<rparr>"

section \<open>Configuration\<close>

record peer_endpoint =
  pe_region_id :: string
  pe_url :: string

record agent_config =
  ac_local_region :: string
  ac_listen_addr :: string
  ac_peer_endpoints :: "peer_endpoint list"
  ac_poll_interval_ms :: nat
  ac_batch_size :: nat
  ac_conflict_strategy :: string
  ac_peer_token :: "string option"

definition parse_peer :: "string \<Rightarrow> peer_endpoint option" where
  "parse_peer pair =
     map_option (\<lambda>(r, u). \<lparr>pe_region_id = trim r, pe_url = trim u\<rparr>) (split_once CHR ''='' pair)"

definition agent_config_from_env :: "(string \<Rightarrow> string option) \<Rightarrow> agent_config" where
  "agent_config_from_env var =
     (let or_default = (\<lambda>k d. case var k of Some v \<Rightarrow> v | None \<Rightarrow> d);
          number = (\<lambda>k d. case Option.bind (var k) (parse_unsigned (2 ^ 64)) of Some n \<Rightarrow> n | None \<Rightarrow> d)
      in \<lparr>ac_local_region = or_default ''REGION_ID'' ''default'',
          ac_listen_addr = or_default ''REPLICATION_LISTEN_ADDR'' ''0.0.0.0:8091'',
          ac_peer_endpoints = List.map_filter parse_peer
            (filter (\<lambda>s. s \<noteq> []) (split_on CHR '','' (or_default ''REPLICATION_PEERS'' []))),
          ac_poll_interval_ms = number ''REPLICATION_POLL_INTERVAL_MS'' 500,
          ac_batch_size = number ''REPLICATION_BATCH_SIZE'' 100,
          ac_conflict_strategy = or_default ''REPLICATION_CONFLICT_STRATEGY'' ''last_write_wins'',
          ac_peer_token = (case var ''REPLICATION_PEER_TOKEN'' of
             Some t \<Rightarrow> if t = [] then None else Some t | None \<Rightarrow> None)\<rparr>)"

section \<open>Consuming\<close>

definition get_last_sequence :: "region_db \<Rightarrow> string \<Rightarrow> int" where
  "get_last_sequence db region_id = (case hm_get (rd_sequences db) region_id of Some n \<Rightarrow> n | None \<Rightarrow> 0)"

definition update_last_sequence :: "string \<Rightarrow> int \<Rightarrow> region_db \<Rightarrow> region_db" where
  "update_last_sequence region_id seq db = db\<lparr>rd_sequences := hm_insert region_id seq (rd_sequences db)\<rparr>"

definition events_last_seq :: "replication_event list \<Rightarrow> int \<Rightarrow> int option" where
  "events_last_seq events base = (if events = [] then None else Some (base + int (length events)))"

text \<open>Every event of the batch in turn; a failing one is only logged. The draws of its
  transaction are given per event.\<close>

fun apply_all ::
  "apply_env \<Rightarrow> (replication_event \<Rightarrow> apply_draws) \<Rightarrow> string \<Rightarrow> string \<Rightarrow> replication_event list \<Rightarrow> region_db \<Rightarrow> region_db" where
  "apply_all env ws strategy local_region [] db = db"
| "apply_all env ws strategy local_region (ev # evs) db =
     apply_all env ws strategy local_region evs (fst (apply_event env (ws ev) strategy local_region ev db))"

text \<open>What the peer answers to a request for a region, a position and a batch size, carrying
  a token; \<^term>\<open>None\<close> when the request fails or is refused.\<close>

type_synonym peer_api = "string option \<Rightarrow> string \<Rightarrow> int \<Rightarrow> nat \<Rightarrow> replication_event list option"

definition fetch_and_apply_events ::
  "apply_env \<Rightarrow> (replication_event \<Rightarrow> apply_draws) \<Rightarrow> agent_config \<Rightarrow> string \<Rightarrow> peer_api \<Rightarrow> region_db \<Rightarrow> region_db \<times> nat option" where
  "fetch_and_apply_events env ws config region_id peer db =
     (let last_seq = get_last_sequence db region_id in
      case peer (ac_peer_token config) (ac_local_region config) last_seq (ac_batch_size config) of
        None \<Rightarrow> (db, None)
      | Some events \<Rightarrow>
          let db1 = apply_all env ws (ac_conflict_strategy config) (ac_local_region config) events db;
              db2 = (case events_last_seq events last_seq of
                       Some seq \<Rightarrow> update_last_sequence region_id seq db1 | None \<Rightarrow> db1)
          in (db2, Some (length events)))"

text \<open>One pass of the loop: the leader polls every peer, in the order of the configuration.\<close>

definition consumer_pass ::
  "apply_env \<Rightarrow> (replication_event \<Rightarrow> apply_draws) \<Rightarrow> agent_config \<Rightarrow> bool \<Rightarrow> (string \<Rightarrow> peer_api) \<Rightarrow> region_db \<Rightarrow> region_db" where
  "consumer_pass env ws config is_leader peers db =
     (if is_leader
      then fold (\<lambda>p db. fst (fetch_and_apply_events env ws config (pe_region_id p) (peers (pe_url p)) db))
             (ac_peer_endpoints config) db
      else db)"

text \<open>The peer as its own agent serves it.\<close>

definition serve_peer :: "string option \<Rightarrow> replication_event list \<Rightarrow> peer_api" where
  "serve_peer token outbox presented requesting_region after_seq limit =
     (case require_peer_token token (map_option (\<lambda>t. ''Bearer '' @ t) presented) of
        Inl _ \<Rightarrow> None
      | Inr _ \<Rightarrow> Some (get_events_handler (Some requesting_region) (Some after_seq) (Some (int limit)) outbox))"

section \<open>Lemmas\<close>

lemma get_last_sequence_update [simp]:
  "get_last_sequence (update_last_sequence p n db) q = (if q = p then n else get_last_sequence db q)"
  by (auto simp: get_last_sequence_def update_last_sequence_def)

text \<open>Applying an event neither reads nor writes the cursors.\<close>

definition with_cursors :: "(string, int) hash_map \<Rightarrow> region_db \<Rightarrow> region_db" where
  "with_cursors q db = db\<lparr>rd_sequences := q\<rparr>"

lemma with_cursors_fields [simp]:
  "rd_secrets (with_cursors q db) = rd_secrets db" "rd_keys (with_cursors q db) = rd_keys db"
  "rd_policies (with_cursors q db) = rd_policies db" "rd_tenants (with_cursors q db) = rd_tenants db"
  "rd_api_keys (with_cursors q db) = rd_api_keys db" "rd_regions (with_cursors q db) = rd_regions db"
  "rd_audit (with_cursors q db) = rd_audit db" "rd_sequences (with_cursors q db) = q"
  "tenant_ids (with_cursors q db) = tenant_ids db"
  "with_cursors q (with_cursors q' db) = with_cursors q db"
  by (simp_all add: with_cursors_def tenant_ids_def)

lemma with_cursors_updates:
  "(with_cursors q db)\<lparr>rd_secrets := a\<rparr> = with_cursors q (db\<lparr>rd_secrets := a\<rparr>)"
  "(with_cursors q db)\<lparr>rd_keys := b\<rparr> = with_cursors q (db\<lparr>rd_keys := b\<rparr>)"
  "(with_cursors q db)\<lparr>rd_policies := c\<rparr> = with_cursors q (db\<lparr>rd_policies := c\<rparr>)"
  "(with_cursors q db)\<lparr>rd_tenants := d\<rparr> = with_cursors q (db\<lparr>rd_tenants := d\<rparr>)"
  "(with_cursors q db)\<lparr>rd_api_keys := e\<rparr> = with_cursors q (db\<lparr>rd_api_keys := e\<rparr>)"
  "(with_cursors q db)\<lparr>rd_regions := f\<rparr> = with_cursors q (db\<lparr>rd_regions := f\<rparr>)"
  "(with_cursors q db)\<lparr>rd_audit := g\<rparr> = with_cursors q (db\<lparr>rd_audit := g\<rparr>)"
  by (simp_all add: with_cursors_def)

definition lift_cursors :: "(string, int) hash_map \<Rightarrow> 'e + region_db \<Rightarrow> 'e + region_db" where
  "lift_cursors q r = and_then r (\<lambda>db. Inr (with_cursors q db))"

lemma lift_cursors_simps [simp]:
  "lift_cursors q (Inl e) = Inl e" "lift_cursors q (Inr db) = Inr (with_cursors q db)"
  by (simp_all add: lift_cursors_def)

lemma lift_cursors_bind [simp]: "lift_cursors q (and_then r f) = and_then r (\<lambda>x. lift_cursors q (f x))"
  by (cases r) simp_all

lemmas lift_cursors_cases =
  if_distrib [of "lift_cursors q" for q] option.case_distrib [of "lift_cursors q" for q]
  sum.case_distrib [of "lift_cursors q" for q] prod.case_distrib [of "lift_cursors q" for q]
  resolution.case_distrib [of "lift_cursors q" for q]

lemma handlers_cursors:
  "apply_dek_upsert env w ev (with_cursors q db) = lift_cursors q (apply_dek_upsert env w ev db)"
  "replicate_secret w ev tid path ct dek (with_cursors q db) = lift_cursors q (replicate_secret w ev tid path ct dek db)"
  "change_versions env f ev (with_cursors q db) = lift_cursors q (change_versions env f ev db)"
  "apply_policy_update ss env w ev (with_cursors q db) = lift_cursors q (apply_policy_update ss env w ev db)"
  "upsert_api_key (set_local_replication_agent ss) env w k (with_cursors q db) =
     lift_cursors q (upsert_api_key (set_local_replication_agent ss) env w k db)"
  "apply_tenant_update ss env w ev (with_cursors q db) = lift_cursors q (apply_tenant_update ss env w ev db)"
  by (simp_all add: apply_dek_upsert_def replicate_secret_def change_versions_def apply_policy_update_def
      upsert_api_key_def apply_tenant_update_def
      Let_def with_cursors_updates lift_cursors_cases
      cong: if_cong option.case_cong sum.case_cong prod.case_cong)

lemma apply_promote_cursors:
  "apply_region_promote w l ev (with_cursors q db) = lift_cursors q (apply_region_promote w l ev db)"
  by (cases "field ev ''target_region''")
    (simp_all add: apply_region_promote_def Let_def set_region_status_def with_cursors_def)

lemma apply_secret_cursors:
  "apply_secret_upsert env w st l ev (with_cursors q db) = lift_cursors q (apply_secret_upsert env w st l ev db)"
  by (simp add: apply_secret_upsert_def handlers_cursors lift_cursors_cases cong: resolution.case_cong)

lemma apply_api_key_cursors:
  "apply_api_key_upsert ss env w ev (with_cursors q db) = lift_cursors q (apply_api_key_upsert ss env w ev db)"
  by (simp add: apply_api_key_upsert_def handlers_cursors)

lemma apply_event_cursors:
  "fst (apply_event env w st l ev (with_cursors q db)) = with_cursors q (fst (apply_event env w st l ev db))"
proof -
  have "apply_event_inner ss env w st l ev (with_cursors q db) =
      lift_cursors q (apply_event_inner ss env w st l ev db)" for ss
    by (simp add: apply_event_inner_def Let_def apply_secret_delete_def apply_secret_destroy_def apply_key_rotate_def
        handlers_cursors apply_promote_cursors apply_secret_cursors apply_api_key_cursors)
  then show ?thesis
    by (cases "apply_event_inner \<lparr>ss_region_id = ae_region_id env, ss_replication_agent = False\<rparr> env w st l ev db")
      (simp_all add: apply_event_def)
qed

lemma apply_all_cursors:
  "apply_all env ws st l evs (with_cursors q db) = with_cursors q (apply_all env ws st l evs db)"
  by (induction evs arbitrary: db) (simp_all add: apply_event_cursors)

lemma apply_all_append: "apply_all env ws st l (xs @ ys) db = apply_all env ws st l ys (apply_all env ws st l xs db)"
  by (induction xs arbitrary: db) simp_all

lemma apply_all_frame: "event_frame db (apply_all env ws st l evs db)"
proof (induction evs arbitrary: db)
  case (Cons ev evs)
  have "event_frame db (fst (apply_event env (ws ev) st l ev db))"
    by (cases "apply_event env (ws ev) st l ev db") (simp add: apply_event_frame)
  with Cons show ?case by (auto intro: event_frame_trans)
qed simp

lemma apply_all_sequences [simp]: "rd_sequences (apply_all env ws st l evs db) = rd_sequences db"
  using apply_all_frame [of db env ws st l evs] by (simp add: event_frame_def)

text \<open>Events in the order of their times, each time once.\<close>

definition outbox_ok :: "string \<Rightarrow> replication_event list \<Rightarrow> bool" where
  "outbox_ok requesting_region outbox \<longleftrightarrow>
     sorted_wrt (<) (map rv_created_at outbox) \<and>
     list_all (\<lambda>e. rv_created_at e > 0 \<and> rv_source_region e \<noteq> requesting_region) outbox"

lemma filter_after:
  fixes f :: "'a \<Rightarrow> int"
  assumes "sorted_wrt (<) (map f xs)" "n < length xs"
  shows "filter (\<lambda>x. f x > f (xs ! n)) xs = drop (Suc n) xs"
  using assms
proof (induction xs arbitrary: n)
  case (Cons x xs)
  show ?case
  proof (cases n)
    case 0
    then show ?thesis using Cons.prems by (auto simp: filter_id_conv)
  next
    case (Suc m)
    then have "\<not> f (xs ! m) < f x" using Cons.prems by (auto simp: not_less intro: less_imp_le)
    with Suc Cons show ?thesis by simp
  qed
qed simp

lemma events_at_cursor:
  assumes "outbox_ok r outbox" "n < length outbox" "b \<le> 1000"
  shows "get_events_handler (Some r) (Some (int n)) (Some (int b)) outbox = take b (drop (Suc n) outbox)"
proof -
  have "sort_key rv_created_at outbox = outbox"
    using assms(1) by (intro sort_key_id_if_sorted) (auto simp: outbox_ok_def intro: strict_sorted_imp_sorted)
  moreover have "filter (\<lambda>e. rv_source_region e \<noteq> r \<and> rv_created_at e > rv_created_at (outbox ! n)) outbox =
      filter (\<lambda>e. rv_created_at e > rv_created_at (outbox ! n)) outbox"
    using assms(1) by (intro filter_cong) (auto simp: outbox_ok_def list_all_iff)
  ultimately show ?thesis
    using assms by (simp add: get_events_handler_def Let_def filter_after outbox_ok_def)
qed

lemma serve_peer_token [simp]:
  "serve_peer (Some t) outbox (Some t) r n b = Some (get_events_handler (Some r) (Some n) (Some (int b)) outbox)"
  by (simp add: serve_peer_def require_peer_token_def starts_with_def)

text \<open>A write through the stored function stamps the secret with the time of the transaction.\<close>

lemma vault_upsert_stamps:
  assumes "vault_upsert_secret now fresh tid path engine ct dek cas mv cr meta lp db = Inr (db', sid, v)"
  shows "\<exists>r. hm_get (pg_secrets db') (tid, path) = Some r \<and> sr_updated_at r = now"
  using assms
  by (auto simp: vault_upsert_secret_def Let_def result_iff insert_version_def update_secret_def split: if_splits)

lemma replicate_secret_stamps:
  assumes "replicate_secret w ev tid path ct dek db = Inr db'"
  shows "\<exists>r. hm_get (pg_secrets (rd_secrets db')) (tid, path) = Some r \<and> sr_updated_at r = ad_now w"
proof -
  from assms obtain secrets sid v where
    u: "vault_upsert_secret (ad_now w) (ad_id w) tid path ''kv_v2'' ct dek None 10 False [] default_lifecycle (rd_secrets db) =
        Inr (secrets, sid, v)" and db': "rd_secrets db' = secrets\<lparr>pg_secrets := hm_map_values
          (\<lambda>r. if sr_tenant_id r = tid \<and> sr_path r = path
               then r\<lparr>sr_origin_region := Some (rv_source_region ev), sr_vector_clock := rv_vector_clock ev,
                      sr_updated_at := ad_now w\<rparr> else r) (pg_secrets secrets)\<rparr>"
    by (auto simp: replicate_secret_def split: if_splits sum.splits)
  from vault_upsert_stamps [OF u] obtain r where
    "hm_get (pg_secrets secrets) (tid, path) = Some r" "sr_updated_at r = ad_now w" by blast
  then show ?thesis by (cases "sr_tenant_id r = tid \<and> sr_path r = path") (auto simp: db' simp del: map_option_eq_Some)
qed

text \<open>The event the secret-engine writes for a secret.\<close>

definition secret_event :: "string \<Rightarrow> datetime \<Rightarrow> string \<Rightarrow> string \<Rightarrow> string \<Rightarrow> string \<Rightarrow> string \<Rightarrow> replication_event" where
  "secret_event event_id t region tenant_id path ciphertext dek_id =
     outbox_row event_id t ''secret_upsert'' region
       (JObj [(''tenant_id'', JStr tenant_id), (''path'', JStr path),
              (''ciphertext'', JStr ciphertext), (''dek_id'', JStr dek_id)])"

lemma apply_secret_event:
  assumes "ae_cast_uuid env tenant_id = Some tid"
  shows "apply_event env w strategy l (secret_event i t region tenant_id path ct dek) db =
    (case secret_conflict strategy l (secret_event i t region tenant_id path ct dek)
            (hm_get (pg_secrets (rd_secrets db)) (tid, path)) of
       AcceptRemote \<Rightarrow>
         (case replicate_secret w (secret_event i t region tenant_id path ct dek) tid path ct dek db of
            Inl e \<Rightarrow> (db, Inl e) | Inr db' \<Rightarrow> (db', Inr ()))
     | KeepLocal \<Rightarrow> (db, Inr ()) | ManualReview \<Rightarrow> (db, Inr ()))"
  using assms
  by (simp add: apply_event_def apply_event_inner_def apply_secret_upsert_def secret_event_def outbox_row_def
      field_def cast_uuid_def split: resolution.split)

section \<open>A region to evaluate\<close>

definition demo_print :: json_print where
  "demo_print = \<lparr>jp_datetime = (\<lambda>d. if d < 0 then CHR ''-'' # replicate (nat (- d)) CHR ''i'' else replicate (nat d) CHR ''i''),
     jp_base64 = map (\<lambda>b. char_of (unat b))\<rparr>"

definition demo_apply_env :: apply_env where
  "demo_apply_env = \<lparr>ae_cast_uuid = Some,
     ae_parse_datetime = (\<lambda>s. Some (if s \<noteq> [] \<and> hd s = CHR ''-'' then - int (length (tl s)) else int (length s))),
     ae_b64_decode = (\<lambda>s. Some (map (\<lambda>c. of_nat (of_char c)) s)), ae_print = demo_print, ae_region_id = None\<rparr>"

definition demo_region_db :: region_db where
  "demo_region_db = \<lparr>rd_secrets = \<lparr>pg_secrets = [], pg_versions = [], pg_rotations = []\<rparr>, rd_keys = [], rd_policies = [],
     rd_tenants = [\<lparr>tn_id = ''t'', tn_slug = ''t'', tn_display_name = ''T'', tn_tier = ''shared'', tn_root_key_id = ''r'',
       tn_created_at = 0, tn_updated_at = 0, tn_deleted_at = None\<rparr>],
     rd_api_keys = [], rd_regions = [], rd_audit = [], rd_outbox = [], rd_sequences = []\<rparr>"

definition demo_outbox :: "replication_event list" where
  "demo_outbox = map (\<lambda>t. secret_event ''e'' t ''eu'' ''t'' ''p'' ''c'' ''d'') [1, 2, 3]"

definition demo_config :: agent_config where
  "demo_config = (agent_config_from_env (\<lambda>k. if k = ''REGION_ID'' then Some ''us''
     else if k = ''REPLICATION_PEER_TOKEN'' then Some ''s'' else if k = ''REPLICATION_BATCH_SIZE'' then Some ''1'' else None))"

definition demo_api_key :: api_key_row where
  "demo_api_key = \<lparr>ak_id = ''k'', ak_tenant_id = ''t'', ak_name = ''n'', ak_key_hash = [1, 2], ak_key_prefix = ''p'',
     ak_path_prefixes = [], ak_policies = [''admin''], ak_created_by = ''a'', ak_created_at = 5, ak_expires_at = None,
     ak_last_used_at = None, ak_revoked_at = None, ak_rate_limit_per_minute = 60, ak_is_superuser = True,
     ak_mfa_required = True\<rparr>"

lemma demo_inverse:
  "ae_b64_decode demo_apply_env (jp_base64 demo_print h) = Some h"
  "ae_parse_datetime demo_apply_env (jp_datetime demo_print d) = Some d"
proof -
  have "unat b < 2 ^ LENGTH(8)" for b :: u8 by (rule unsigned_less)
  then have "unat b mod 256 = unat b" for b :: u8 by simp
  then have "map ((\<lambda>c. of_nat (of_char c)) \<circ> (\<lambda>b. char_of (unat b))) h = h" for h :: "u8 list"
    by (intro map_idI) simp
  then show "ae_b64_decode demo_apply_env (jp_base64 demo_print h) = Some h"
    by (simp add: demo_apply_env_def demo_print_def)
  show "ae_parse_datetime demo_apply_env (jp_datetime demo_print d) = Some d"
    by (cases "d \<le> 0") (auto simp: demo_apply_env_def demo_print_def)
qed

lemma demo_config_fields:
  "ac_local_region demo_config = ''us''" "ac_peer_token demo_config = Some ''s''" "ac_batch_size demo_config = 1"
  by (simp_all add: demo_config_def agent_config_from_env_def Let_def parse_unsigned_def digit_val_def)

section \<open>Properties\<close>

text \<open>C25. Delivery: from a fresh cursor, polling a peer whose outbox holds the events \<open>e0, e1,
  e2, ...\<close> at increasing times applies, after \<open>k\<close> polls of batch size \<open>b\<close>, exactly the first
  \<open>k * b\<close> of \<open>e1, e2, ...\<close>, each once and in order, and leaves the cursor at their number;
  so after enough polls every event but the first has been applied and a poll returns
  nothing. The first event of an outbox is never delivered.\<close>

theorem polls_deliver_in_order:
  fixes env :: apply_env and ws :: "replication_event \<Rightarrow> apply_draws"
  assumes ok: "outbox_ok (ac_local_region config) outbox" "outbox \<noteq> []"
    and config: "ac_peer_token config = Some token" "0 < ac_batch_size config" "ac_batch_size config \<le> 1000"
    and fresh: "get_last_sequence db peer = 0"
  defines "poll \<equiv> fetch_and_apply_events env ws config peer (serve_peer (Some token) outbox)"
    and "events \<equiv> drop 1 outbox"
  shows "(\<exists>q. ((\<lambda>d. fst (poll d)) ^^ k) db =
            with_cursors q (apply_all env ws (ac_conflict_strategy config) (ac_local_region config)
              (take (k * ac_batch_size config) events) db)) \<and>
         get_last_sequence (((\<lambda>d. fst (poll d)) ^^ k) db) peer = int (length (take (k * ac_batch_size config) events)) \<and>
         (length events \<le> k * ac_batch_size config \<longrightarrow> snd (poll (((\<lambda>d. fst (poll d)) ^^ k) db)) = Some 0)"
proof -
  let ?b = "ac_batch_size config"
  let ?apply = "apply_all env ws (ac_conflict_strategy config) (ac_local_region config)"
  have step: "poll d = (let evs = take ?b (drop n events) in
      (if evs = [] then d else update_last_sequence peer (int n + int (length evs)) (?apply evs d), Some (length evs)))"
    if "get_last_sequence d peer = int n" "n \<le> length events" for d n
  proof -
    have "n < length outbox" using that(2) ok(2) by (cases outbox) (simp_all add: events_def)
    from events_at_cursor [OF ok(1) this config(3)] that(1) config(1) show ?thesis
      by (simp add: poll_def fetch_and_apply_events_def events_last_seq_def events_def Let_def drop_Suc drop_tl)
  qed
  have main: "(\<exists>q. ((\<lambda>d. fst (poll d)) ^^ k) db = with_cursors q (?apply (take (k * ?b) events) db)) \<and>
      get_last_sequence (((\<lambda>d. fst (poll d)) ^^ k) db) peer = int (length (take (k * ?b) events))"
  proof (induction k)
    case 0
    have "db = with_cursors (rd_sequences db) db" by (simp add: with_cursors_def)
    with fresh show ?case by auto
  next
    case (Suc k)
    let ?d = "((\<lambda>d. fst (poll d)) ^^ k) db" and ?n = "length (take (k * ?b) events)"
    let ?evs = "take ?b (drop ?n events)"
    from Suc obtain q where q: "?d = with_cursors q (?apply (take (k * ?b) events) db)"
      and n: "get_last_sequence ?d peer = int ?n" by blast
    have evs: "take (Suc k * ?b) events = take (k * ?b) events @ ?evs"
      using take_add [of "k * ?b" ?b events] by (auto simp: add.commute min_def)
    note st = step [OF n, unfolded Let_def]
    have "?n \<le> length events" by simp
    note st = st [OF this]
    show ?case
    proof (cases "?evs = []")
      case True
      with st evs q n show ?thesis by auto
    next
      case False
      with st have "fst (poll ?d) = update_last_sequence peer (int ?n + int (length ?evs)) (?apply ?evs ?d)" by simp
      moreover have "?apply ?evs ?d = with_cursors q (?apply (take (Suc k * ?b) events) db)"
        unfolding q evs apply_all_append apply_all_cursors ..
      ultimately show ?thesis using evs by (auto simp: update_last_sequence_def with_cursors_def get_last_sequence_def)
    qed
  qed
  moreover have "snd (poll (((\<lambda>d. fst (poll d)) ^^ k) db)) = Some 0" if "length events \<le> k * ?b"
    using step [of "((\<lambda>d. fst (poll d)) ^^ k) db" "length events"] main that by simp
  ultimately show ?thesis by blast
qed

theorem polls_deliver_in_order_witness:
  "get_last_sequence (((\<lambda>d. fst (fetch_and_apply_events demo_apply_env (\<lambda>e. \<lparr>ad_now = 9, ad_id = ''s'', ad_event_id = ''o''\<rparr>) demo_config ''eu''
      (serve_peer (Some ''s'') demo_outbox) d)) ^^ 2) demo_region_db) ''eu'' = 2"
proof -
  have "outbox_ok (ac_local_region demo_config) demo_outbox"
    by (simp add: outbox_ok_def demo_outbox_def secret_event_def outbox_row_def demo_config_fields)
  from polls_deliver_in_order [OF this, where token = "''s''" and db = demo_region_db and peer = "''eu''"
      and env = demo_apply_env and ws = "\<lambda>e. \<lparr>ad_now = 9, ad_id = ''s'', ad_event_id = ''o''\<rparr>" and k = 2]
  show ?thesis
    by (simp add: demo_config_fields demo_outbox_def get_last_sequence_def demo_region_db_def)
qed

text \<open>C26. The last write is not the one that wins: when a region has accepted a peer's write of a
  secret at some instant, every further write of that secret that the peer had made before
  that instant is discarded, although it is later than the accepted one. Two writes of one
  secret within a polling interval leave the regions with different values.\<close>

theorem second_write_discarded:
  assumes uuid: "ae_cast_uuid env tenant_id = Some tid"
    and lww: "strategy = ''last_write_wins''"
    and first: "secret_conflict strategy l (secret_event i1 t1 region tenant_id path ct1 dek1)
        (hm_get (pg_secrets (rd_secrets db)) (tid, path)) = AcceptRemote"
      "apply_event env w1 strategy l (secret_event i1 t1 region tenant_id path ct1 dek1) db = (db1, Inr ())"
    and times: "t1 < t2" "t2 < ad_now w1"
  shows "apply_event env w2 strategy l (secret_event i2 t2 region tenant_id path ct2 dek2) db1 = (db1, Inr ())"
proof -
  from first uuid obtain r where
    r: "hm_get (pg_secrets (rd_secrets db1)) (tid, path) = Some r" "sr_updated_at r = ad_now w1"
    using replicate_secret_stamps [of w1 _ tid path ct1 dek1 db db1]
    by (auto simp: apply_secret_event split: sum.splits)
  have "secret_conflict strategy l (secret_event i2 t2 region tenant_id path ct2 dek2) (Some r) = KeepLocal"
    using lww times(2) r(2) by (simp add: secret_conflict_def resolve_def resolve_lww_def secret_event_def outbox_row_def)
  then show ?thesis by (simp add: apply_secret_event [OF uuid] r(1))
qed

theorem second_write_discarded_witness:
  "\<exists>db1. apply_event demo_apply_env \<lparr>ad_now = 9, ad_id = ''s'', ad_event_id = ''o''\<rparr> ''last_write_wins'' ''us''
       (secret_event ''1'' 1 ''eu'' ''t'' ''p'' ''old'' ''d'') demo_region_db = (db1, Inr ()) \<and>
     apply_event demo_apply_env \<lparr>ad_now = 9, ad_id = ''s2'', ad_event_id = ''o''\<rparr> ''last_write_wins'' ''us''
       (secret_event ''2'' 2 ''eu'' ''t'' ''p'' ''new'' ''d'') db1 = (db1, Inr ())"
proof -
  let ?r = "apply_event demo_apply_env \<lparr>ad_now = 9, ad_id = ''s'', ad_event_id = ''o''\<rparr> ''last_write_wins'' ''us''
       (secret_event ''1'' 1 ''eu'' ''t'' ''p'' ''old'' ''d'') demo_region_db"
  have "snd ?r = Inr ()" by code_simp
  then obtain db1 where r: "?r = (db1, Inr ())" by (cases ?r) simp
  have "ae_cast_uuid demo_apply_env ''t'' = Some ''t''" by (simp add: demo_apply_env_def)
  from second_write_discarded [OF this refl _ r, of 2 "\<lparr>ad_now = 9, ad_id = ''s2'', ad_event_id = ''o''\<rparr>" "''2''" "''new''" "''d''"]
  have "apply_event demo_apply_env \<lparr>ad_now = 9, ad_id = ''s2'', ad_event_id = ''o''\<rparr> ''last_write_wins'' ''us''
       (secret_event ''2'' 2 ''eu'' ''t'' ''p'' ''new'' ''d'') db1 = (db1, Inr ())"
    by (simp add: demo_region_db_def secret_conflict_def)
  with r show ?thesis by blast
qed

text \<open>C27. A second factor does not travel: demanding one for a key emits no event, and a key
  that a peer announced is installed with its id, owner, name, hash, prefix, path
  prefixes, policies, creator, expiry, revocation and rate limit. The demand for a second
  factor and the superuser flag are left out and false in the copy, its time of creation
  is that of the copy, and it counts as never used.\<close>

theorem replicated_key_needs_no_mfa:
  assumes inverse: "ae_b64_decode env (jp_base64 pr (ak_key_hash k)) = Some (ak_key_hash k)"
      "\<And>d. ae_parse_datetime env (jp_datetime pr d) = Some d"
    and ids: "ae_cast_uuid env (ak_id k) = Some (ak_id k)" "ae_cast_uuid env (ak_tenant_id k) = Some (ak_tenant_id k)"
    and rate: "- (2 ^ 31) \<le> ak_rate_limit_per_minute k" "ak_rate_limit_per_minute k < 2 ^ 31"
    and event: "trg_emit_api_key_replication_event pr False t event_id region None k = [ev]"
    and new: "find (\<lambda>r. ak_id r = ak_id k) (rd_api_keys db) = None"
    and applied: "apply_event env w strategy l ev db = (db', Inr ())"
  shows "trg_emit_api_key_replication_event pr False t2 event_id2 region (Some k) (k\<lparr>ak_mfa_required := True\<rparr>) = [] \<and>
         rd_api_keys db' = rd_api_keys db @
           [k\<lparr>ak_created_at := ad_now w, ak_last_used_at := None, ak_is_superuser := False, ak_mfa_required := False\<rparr>]"
proof -
  have num: "i32_or 60 (JInt (ak_rate_limit_per_minute k)) = ak_rate_limit_per_minute k"
    using rate by (simp add: i32_or_def signed_of_int take_bit_int_def signed_take_bit_int_eq_self)
  have opt: "json_datetime (ae_parse_datetime env) (json_opt_datetime pr x) = x" for x
    by (cases x) (simp_all add: json_datetime_def json_opt_datetime_def inverse(2))
  have row: "k\<lparr>ak_created_at := ad_now w, ak_last_used_at := None, ak_is_superuser := False, ak_mfa_required := False\<rparr> =
      \<lparr>ak_id = ak_id k, ak_tenant_id = ak_tenant_id k, ak_name = ak_name k, ak_key_hash = ak_key_hash k,
       ak_key_prefix = ak_key_prefix k, ak_path_prefixes = ak_path_prefixes k, ak_policies = ak_policies k,
       ak_created_by = ak_created_by k, ak_created_at = ad_now w, ak_expires_at = ak_expires_at k, ak_last_used_at = None,
       ak_revoked_at = ak_revoked_at k, ak_rate_limit_per_minute = ak_rate_limit_per_minute k,
       ak_is_superuser = False, ak_mfa_required = False\<rparr>"
    by (cases k) simp
  have "upsert_api_key (set_local_replication_agent \<lparr>ss_region_id = ae_region_id env, ss_replication_agent = False\<rparr>) env w
      (k\<lparr>ak_created_at := ad_now w, ak_last_used_at := None, ak_is_superuser := False,
      ak_mfa_required := False\<rparr>) db = Inr db'"
    unfolding row using event applied num opt inverse(1) ids
    by (auto simp: trg_emit_api_key_replication_event_def outbox_row_def apply_event_def apply_event_inner_def
        apply_api_key_upsert_def field_def cast_uuid_def split: sum.splits)
  with new show ?thesis
    by (auto simp: trg_emit_api_key_replication_event_def upsert_api_key_def Let_def emit_api_key_def result_iff split: if_splits)
qed

theorem replicated_key_needs_no_mfa_witness:
  "\<exists>ev db'. trg_emit_api_key_replication_event demo_print False 6 ''e'' ''eu'' None demo_api_key = [ev] \<and>
     ak_mfa_required demo_api_key \<and>
     apply_event demo_apply_env \<lparr>ad_now = 9, ad_id = ''s'', ad_event_id = ''o''\<rparr> ''last_write_wins'' ''us'' ev demo_region_db = (db', Inr ()) \<and>
     map ak_mfa_required (rd_api_keys db') = [False]"
proof -
  define ev where "ev = hd (trg_emit_api_key_replication_event demo_print False 6 ''e'' ''eu'' None demo_api_key)"
  let ?r = "apply_event demo_apply_env \<lparr>ad_now = 9, ad_id = ''s'', ad_event_id = ''o''\<rparr> ''last_write_wins'' ''us'' ev demo_region_db"
  have ev: "trg_emit_api_key_replication_event demo_print False 6 ''e'' ''eu'' None demo_api_key = [ev]"
    by (simp add: ev_def trg_emit_api_key_replication_event_def)
  have "snd ?r = Inr ()" unfolding ev_def by code_simp
  then obtain db' where r: "?r = (db', Inr ())" by (cases ?r) simp
  have "ak_mfa_required demo_api_key" by (simp add: demo_api_key_def)
  moreover from replicated_key_needs_no_mfa [OF demo_inverse _ _ _ _ ev _ r]
  have "rd_api_keys db' = rd_api_keys demo_region_db @ [demo_api_key\<lparr>ak_created_at := 9, ak_last_used_at := None,
      ak_is_superuser := False, ak_mfa_required := False\<rparr>]"
    by (simp add: demo_apply_env_def demo_api_key_def demo_region_db_def)
  then have "map ak_mfa_required (rd_api_keys db') = [False]" by (simp add: demo_region_db_def)
  ultimately show ?thesis using ev r by (intro exI [of _ ev] exI [of _ db']) simp
qed

text \<open>C28. Replication is passive: whatever events a region applies, in whatever order, with
  whatever failures, its own triggers, which run on every policy, tenant and API key the
  events write, put nothing into its outbox; no cursor moves, no row of its key table
  changes or disappears, and no API key loses its owner, its flags or a revocation.\<close>

theorem events_never_bounce: "event_frame db (apply_all env ws strategy local_region events db)"
  by (rule apply_all_frame)

text \<open>Last write wins agrees across regions: two regions that each hold one of two
  conflicting versions, with the times of their writes, keep the same one when they
  exchange them.\<close>

theorem lww_regions_agree:
  assumes "region_a \<noteq> region_b"
  shows "resolve_lww \<lparr>cc_local_updated_at = Some t_a, cc_remote_updated_at = t_b, cc_local_vector_clock = va,
           cc_remote_vector_clock = vb, cc_local_region = region_a, cc_remote_region = region_b\<rparr> = AcceptRemote \<longleftrightarrow>
         resolve_lww \<lparr>cc_local_updated_at = Some t_b, cc_remote_updated_at = t_a, cc_local_vector_clock = vb,
           cc_remote_vector_clock = va, cc_local_region = region_b, cc_remote_region = region_a\<rparr> = KeepLocal"
  using assms by (auto simp: resolve_lww_def)

theorem lww_regions_agree_witness:
  "resolve_lww \<lparr>cc_local_updated_at = Some 1, cc_remote_updated_at = 2, cc_local_vector_clock = [],
       cc_remote_vector_clock = [], cc_local_region = ''eu'', cc_remote_region = ''us''\<rparr> = AcceptRemote \<longleftrightarrow>
     resolve_lww \<lparr>cc_local_updated_at = Some 2, cc_remote_updated_at = 1, cc_local_vector_clock = [],
       cc_remote_vector_clock = [], cc_local_region = ''us'', cc_remote_region = ''eu''\<rparr> = KeepLocal"
  by (rule lww_regions_agree) simp

end
