(* ===== verification/Region_Mesh.thy ===== *)
theory Region_Mesh
  imports Key_Durability Replication_Flow
begin

text \<open>
  Two regions together: the crypto-service of one region mints a data key and announces it
  in its outbox, the replication agent of another applies the announcement, and the
  crypto-service there decrypts what the first one encrypted. The regions share the root
  key and nothing else; each has its own key for the tenant.
\<close>

section \<open>Vocabulary\<close>

text \<open>The database of a region as its crypto-service sees it.\<close>

definition crypto_view :: "region_db \<Rightarrow> key_db" where
  "crypto_view db = \<lparr>kb_table = rd_keys db, kb_outbox = rd_outbox db, kb_tenants = tenant_ids db\<rparr>"

section \<open>Announcing\<close>

lemma persist_keeps_outbox: "persist_descriptor env now what desc wrapped db = Inr db' \<Longrightarrow> kb_outbox db' = kb_outbox db"
  by (auto simp: persist_descriptor_def split: sum.splits)

lemma tenant_kek_keeps_outbox: "get_or_create_tenant_kek env w t st db = (st', db', r) \<Longrightarrow> kb_outbox db' = kb_outbox db"
  by (auto simp: get_or_create_tenant_kek_def Let_def split: option.splits sum.splits if_splits dest: persist_keeps_outbox)

lemma generate_announces:
  assumes g: "generate_and_store_dek env w t st db = (st1, db1, Inr key_id)"
    and lib: "crypto_ok (ke_lib env)" and st: "ks_db_pool st" "root_key (ks_seal st) = Inr root"
    and w: "kw_transport_nonce w = Some tn" "kw_event_id w = Some event_id"
      "encrypt_with_dek (ke_lib env) (Some tn) root raw (dek_transport_aad key_id) = Inr envl" "kw_dek w = Some raw"
  shows "kb_outbox db1 = kb_outbox db @
    [emit_dek_upsert_event (kw_now w) event_id (ke_region_id env) t key_id 1 (env_ciphertext_b64 envl)]"
proof -
  obtain st0 db0 r0 where k: "get_or_create_tenant_kek env w t st db = (st0, db0, r0)"
    by (cases "get_or_create_tenant_kek env w t st db")
  with g obtain kek where r0: "r0 = Inr kek" by (cases r0) (simp_all add: generate_and_store_dek_def)
  note keeps = tenant_kek_keeps [OF k] and out = tenant_kek_keeps_outbox [OF k]
  note gen = g [unfolded generate_and_store_dek_def k r0 generate_random_32_bytes_def Let_def]
  from gen w(4) obtain wrapped where
    e: "encrypt_with_dek (ke_lib env) (kw_dek_nonce w) kek raw (dek_reload_aad (kw_dek_id w)) = Inr wrapped"
    by (cases "encrypt_with_dek (ke_lib env) (kw_dek_nonce w) kek raw (dek_reload_aad (kw_dek_id w))") simp_all
  from gen w(4) e keeps st have uuid: "ke_parse_uuid env t \<noteq> None" by (auto split: if_splits)
  from gen w(4) e keeps st uuid obtain u where u: "ke_parse_uuid env (kw_dek_id w) = Some u"
    by (cases "ke_parse_uuid env (kw_dek_id w)") auto
  let ?p = "persist_descriptor env (kw_now w) ''DEK'' (new_descriptor u 1 DataEncryption t (kw_now w))
        (env_ciphertext_b64 wrapped) db0"
  from gen w(4) e keeps st uuid u obtain db' where p: "?p = Inr db'" by (cases ?p) auto
  let ?st = "st0\<lparr>ks_deks := hm_insert (kw_dek_id w) \<lparr>de_raw_dek = raw, de_superseded = [],
     de_wrapped_dek_b64 = env_ciphertext_b64 wrapped, de_tenant_id = t, de_version = 1, de_key_id = kw_dek_id w\<rparr> (ks_deks st0)\<rparr>"
  from gen w(4) e keeps st uuid u p have res: "key_id = kw_dek_id w" "db1 = announce_dek env w ?st t (kw_dek_id w) raw db'"
    by auto
  have "transport_wrap_dek env (Some tn) ?st raw (kw_dek_id w) = Inr (env_ciphertext_b64 envl)"
    using w(3) st(2) keeps(3) res(1) by (simp add: transport_wrap_dek_def)
  then show ?thesis
    using res w(1,2) out persist_keeps_outbox [OF p] by (simp add: announce_dek_def)
qed

section \<open>Installing\<close>

text \<open>A first announcement of a key installs one row, which holds the key as announced.\<close>

lemma apply_announcement:
  assumes ev: "ev = emit_dek_upsert_event t0 event_id region t key_id 1 wrapped"
    and ids: "ae_cast_uuid aenv t = Some t" "ae_cast_uuid aenv key_id = Some key_id"
    and new: "\<not> list_ex (\<lambda>r. kr_id r = key_id) (rd_keys db)"
    and applied: "apply_event aenv w strategy l ev db = (db', Inr ())"
  obtains row where "rd_keys db' = rd_keys db @ [row]" "kr_id row = key_id" "kr_purpose row = ''data_encryption''"
    "kr_state row = ''active''" "kr_tenant_id row = Some t" "kr_wrapped_key row = wrapped"
    "key_table_ok (rd_keys db) \<longrightarrow> key_table_ok (rd_keys db')"
proof -
  from applied ids new obtain row where ins: "insert_key_row (tenant_ids db) row (rd_keys db) = Inr (rd_keys db')"
    and f: "kr_id row = key_id" "kr_purpose row = ''data_encryption''" "kr_state row = ''active''"
      "kr_tenant_id row = Some t" "kr_wrapped_key row = wrapped"
    by (auto simp: ev emit_dek_upsert_event_def outbox_row_def apply_event_def apply_event_inner_def apply_dek_upsert_def
        field_def cast_uuid_def Let_def split: sum.splits)
  show thesis by (rule that [OF insert_key_row_Inr(1) [OF ins] f]) (use insert_key_row_ok [OF ins] in simp)
qed

section \<open>Two regions to evaluate\<close>

definition demo_announced :: encrypted_envelope where
  "demo_announced = \<lparr>env_ciphertext_b64 = demo_b64_encode (replicate 12 4 @ replicate 32 7 @ replicate 32 9 @
     replicate 12 4 @ dek_transport_aad ''k''), env_nonce = replicate 12 4\<rparr>"

definition demo_peer :: kek_store where
  "demo_peer = (with_seal demo_key_seal)\<lparr>
     ks_tenant_keks := [(''t'', \<lparr>tk_raw_kek = replicate 32 6, tk_wrapped_kek_b64 = [], tk_version = 1\<rparr>)]\<rparr>"

lemma demo_outbox_announces:
  "demo_encrypted = (st, db, r) \<Longrightarrow>
   kb_outbox db = [emit_dek_upsert_event 7 ''e'' ''eu'' ''t'' ''k'' 1 (env_ciphertext_b64 demo_announced)]"
  by (auto simp: demo_encrypted_def keyring_eval Let_def trim_demo demo_announced_def)

lemma demo_applied:
  "\<exists>rdb1. apply_event demo_apply_env \<lparr>ad_now = 9, ad_id = ''s'', ad_event_id = ''o''\<rparr> ''last_write_wins'' ''us''
     (emit_dek_upsert_event 7 ''e'' ''eu'' ''t'' ''k'' 1 wrapped) demo_region_db = (rdb1, Inr ())"
  by (simp add: emit_dek_upsert_event_def outbox_row_def apply_event_def apply_event_inner_def apply_dek_upsert_def
      field_def cast_uuid_def Let_def demo_apply_env_def demo_region_db_def insert_key_row_def collides_def
      kek_key_def name_key_def tenant_ids_def)

text \<open>The two kinds of associated data end differently, so the blob is not one of the other kind.\<close>

lemma demo_reload_fails:
  "\<exists>err. decrypt_with_dek demo_lib k (env_ciphertext_b64 demo_announced) (dek_reload_aad ''k'') = Inl err"
proof (cases "decrypt_with_dek demo_lib k (env_ciphertext_b64 demo_announced) (dek_reload_aad ''k'')")
  case (Inr p)
  with demo_lib_ok obtain n c where "replicate 12 4 @ replicate 32 7 @ replicate 32 9 @ replicate 12 4 @ dek_transport_aad ''k'' = n @ c"
      "gcm_encrypt demo_lib k n (dek_reload_aad ''k'') p = Some c"
    by (auto simp: crypto_ok_def decrypt_with_dek_Inr base64_ok_simps demo_announced_def)
  then have "replicate 12 4 @ replicate 32 7 @ replicate 32 9 @ replicate 12 4 @ dek_transport_aad ''k'' =
      n @ p @ k @ n @ dek_reload_aad ''k''" by simp
  then have "take 8 (rev (replicate 12 4 @ replicate 32 7 @ replicate 32 9 @ replicate 12 4 @ dek_transport_aad ''k'')) =
      take 8 (rev (n @ p @ k @ n @ dek_reload_aad ''k''))" by simp
  then show ?thesis by (simp add: dek_transport_aad_def dek_reload_aad_def str_bytes_def)
qed simp

section \<open>Properties\<close>

text \<open>C24. A secret encrypted in one region is readable in another: the encryption that starts a
  data key announces the key, wrapped under the root key, as the one new event of its
  region's outbox; once a peer region with the same root key has applied that event, its
  crypto-service decrypts the ciphertext for the same tenant, with whatever tenant key it
  has of its own (or creates on the way).\<close>

theorem replicated_key_decrypts:
  assumes lib: "crypto_ok (ke_lib env)" "ke_lib env' = ke_lib env"
    and st: "ks_db_pool st" "root_key (ks_seal st) = Inr root" "current_with_budget t st = None"
    and w: "kw_transport_nonce w = Some tn" "length tn = 12" "kw_event_id w = Some event_id"
      "\<forall>k. kw_dek w = Some k \<longrightarrow> length k = 32" "kw_data_nonce w = Some nonce" "length nonce = 12"
    and enc: "encrypt_rpc env w t m a st db = (st1, db1, Inr (ct, key_id))"
      "kw_dek w = Some raw" "encrypt_with_dek (ke_lib env) (Some tn) root raw (dek_transport_aad key_id) = Inr announced"
    and id: "CHR '':'' \<notin> set key_id" "trim key_id \<noteq> []"
    and ids: "ae_cast_uuid aenv t = Some t" "ae_cast_uuid aenv key_id = Some key_id" "ke_parse_uuid env' key_id = Some key_id"
    and peer: "key_table_ok (rd_keys rdb)" "\<not> list_ex (\<lambda>r. kr_id r = key_id) (rd_keys rdb)"
      "apply_event aenv aw strategy local_region (last (kb_outbox db1)) rdb = (rdb1, Inr ())"
    and st': "ks_db_pool st'" "root_key (ks_seal st') = Inr root" "hm_get (ks_deks st') key_id = None"
    and kek: "get_or_create_tenant_kek env' w' t st' (crypto_view rdb1) = (st2, db2, Inr kek)"
      "decrypt_with_dek (ke_lib env) kek (env_ciphertext_b64 announced) (dek_reload_aad key_id) = Inl err"
  shows "length (kb_outbox db1) = length (kb_outbox db) + 1 \<and>
         (\<exists>st3. decrypt_rpc env' w' t (key_id @ '':'' @ ct) a st' (crypto_view rdb1) = (st3, db2, Inr m))"
proof -
  from encrypt_generates [OF enc(1) st(3)] enc(2) obtain st0 envl where
    g: "generate_and_store_dek env w t st db = (st0, db1, Inr key_id)" "trim t \<noteq> []"
    and envl: "encrypt_with_dek (ke_lib env) (Some nonce) raw m a = Inr envl" "ct = env_ciphertext_b64 envl"
    unfolding w(5) by auto
  have out: "kb_outbox db1 = kb_outbox db @
      [emit_dek_upsert_event (kw_now w) event_id (ke_region_id env) t key_id 1 (env_ciphertext_b64 announced)]"
    by (rule generate_announces [OF g(1) lib(1) st(1,2) w(1,3) enc(3,2)])
  then have "last (kb_outbox db1) =
      emit_dek_upsert_event (kw_now w) event_id (ke_region_id env) t key_id 1 (env_ciphertext_b64 announced)" by simp
  from this ids(1,2) peer(2,3) obtain row where row: "rd_keys rdb1 = rd_keys rdb @ [row]" "kr_id row = key_id"
      "kr_state row = ''active''" "kr_tenant_id row = Some t" "kr_wrapped_key row = env_ciphertext_b64 announced"
      "key_table_ok (rd_keys rdb1)"
    by (rule apply_announcement) (use peer(1) in simp)
  have rows: "get_key_versions_with_wrapped_key (kb_table (crypto_view rdb1)) key_id = [persisted_of row]"
    using versions_of_unique [OF row(6), of row] row(1-3) by (simp add: crypto_view_def loadable_def)
  have seal: "ks_seal st2 = ks_seal st'" "ks_deks st2 = ks_deks st'" using tenant_kek_keeps [OF kek(1)] by simp_all
  have raw: "decrypt_with_dek (ke_lib env) root (env_ciphertext_b64 announced) (dek_transport_aad key_id) = Inr raw"
    by (rule encrypt_decrypt [OF lib(1) w(2) enc(3)])
  have un: "unwrap_dek_row env' st2 kek (persisted_of row) = Some raw"
    using kek(2) raw row(2,5) seal(1) st'(2) w(4) enc(2) lib(2)
    by (simp add: unwrap_dek_row_def transport_unwrap_dek_def persisted_of_def)
  obtain st3 where "get_dek_chain env' w' key_id t st' (crypto_view rdb1) = (st3, db2, Inr [raw])"
    using st'(1,3) ids(3) rows kek(1) un row(4)
    by (simp add: get_dek_chain_def hydrate_missing_def hydrate_dek_def map_filter_simps Let_def owned_dek_def dek_chain_def)
      (simp add: persisted_of_def)
  moreover have "decrypt_with_dek (ke_lib env) raw ct a = Inr m"
    using encrypt_decrypt [OF lib(1) w(6) envl(1)] envl(2) by simp
  moreover have "decrypt_request t (key_id @ '':'' @ ct) = Inr (key_id, ct)"
    using decrypt_request_ok [OF g(2) id(2) _ id(1)] ciphertext_not_blank [OF lib(1) w(6) envl(1)] envl(2) by simp
  ultimately show ?thesis using out lib(2) by (simp add: decrypt_rpc_def)
qed

theorem replicated_key_decrypts_witness:
  "\<exists>st db ct rdb1 st3 db2. demo_encrypted = (st, db, Inr (ct, ''k'')) \<and>
     apply_event demo_apply_env \<lparr>ad_now = 9, ad_id = ''s'', ad_event_id = ''o''\<rparr> ''last_write_wins'' ''us'' (last (kb_outbox db)) demo_region_db =
       (rdb1, Inr ()) \<and>
     decrypt_rpc demo_key_env (demo_key_draws 9 ''k3'') ''t'' (''k'' @ '':'' @ ct) [] demo_peer (crypto_view rdb1) =
       (st3, db2, Inr [104, 105])"
proof -
  obtain st db ct where d: "demo_encrypted = (st, db, Inr (ct, ''k''))" using demo_encrypted_eq by blast
  obtain rdb1 where ap: "apply_event demo_apply_env \<lparr>ad_now = 9, ad_id = ''s'', ad_event_id = ''o''\<rparr> ''last_write_wins'' ''us''
      (last (kb_outbox db)) demo_region_db = (rdb1, Inr ())"
    using demo_applied demo_outbox_announces [OF d] by auto
  obtain err where err: "decrypt_with_dek (ke_lib demo_key_env) (replicate 32 6) (env_ciphertext_b64 demo_announced)
      (dek_reload_aad ''k'') = Inl err"
    using demo_reload_fails by (auto simp: demo_key_env_def)
  have kek: "get_or_create_tenant_kek demo_key_env (demo_key_draws 9 ''k3'') ''t'' demo_peer (crypto_view rdb1) =
      (demo_peer, crypto_view rdb1, Inr (replicate 32 6))"
    by (simp add: get_or_create_tenant_kek_def demo_peer_def)
  have "\<exists>st3. decrypt_rpc demo_key_env (demo_key_draws 9 ''k3'') ''t'' (''k'' @ '':'' @ ct) [] demo_peer (crypto_view rdb1) =
      (st3, crypto_view rdb1, Inr [104, 105])"
    by (rule conjunct2, rule replicated_key_decrypts [where env = demo_key_env and st = "with_seal demo_key_seal" and db = demo_key_db and w = "demo_key_draws 7 ''k''"
          and root = "replicate 32 9" and tn = "replicate 12 4" and nonce = "replicate 12 5" and raw = "replicate 32 7",
          OF _ _ _ _ _ _ _ _ _ _ _ _ _ _ _ _ _ _ _ _ _ ap _ _ _ kek err])
      (use d in \<open>simp_all add: demo_encrypted_def with_seal_def demo_key_seal_def demo_key_env_def demo_lib_ok
         unseal_with_root_key_def seal_new_def root_key_def current_with_budget_def demo_key_draws_def demo_peer_def
         key_table_ok_def demo_region_db_def demo_apply_env_def demo_announced_def demo_encrypt\<close>)
  with d ap show ?thesis by blast
qed

end
