(* ===== verification/Audit_Log.thy ===== *)
theory Audit_Log
  imports Envelope Replication_Outbox
begin

text \<open>
  The audit log: signing and verification (\<^verbatim>\<open>services/audit-service/src/integrity.rs\<close>), the
  in-memory backend (\<^verbatim>\<open>store.rs\<close>), the PostgreSQL backend (\<^verbatim>\<open>pg_store.rs\<close> over
  \<^verbatim>\<open>crates/wslvault-storage/src/audit_store.rs\<close> and \<^verbatim>\<open>022_audit_hash_chain.sql\<close>), the remote
  procedures (\<^verbatim>\<open>grpc.rs\<close>) and the HTTP query (\<^verbatim>\<open>http.rs\<close>).

  HMAC, hex, the printing and parsing of timestamps, JSON texts and UUIDs, and what the
  columns of type \<^verbatim>\<open>timestamptz\<close>, \<^verbatim>\<open>inet\<close> and \<^verbatim>\<open>jsonb\<close> keep of a value are the fields of
  the parameter \<open>audit_lib\<close>. A transaction holds the tenant's advisory lock, so appending
  is one operation. A \<^verbatim>\<open>Uuid\<close> is its canonical text. Sequence numbers are unbounded.
  The messages of database errors are the server's, without the prefix of the driver.
\<close>

record audit_lib =
  al_crypto :: crypto_lib
  al_hmac :: "bytes \<Rightarrow> bytes \<Rightarrow> bytes"
  al_hex_decode :: "string \<Rightarrow> bytes option"
  al_rfc3339 :: "datetime \<Rightarrow> string"
  al_parse_rfc3339 :: "string \<Rightarrow> string + datetime"
  al_json_text :: "json \<Rightarrow> string"
  al_json_parse :: "string \<Rightarrow> string + json"
  al_parse_uuid :: "string \<Rightarrow> string + string"
  al_timestamptz :: "datetime \<Rightarrow> datetime"
  al_inet :: "string \<Rightarrow> string option"
  al_jsonb :: "json \<Rightarrow> json option"

section \<open>Records\<close>

record audit_record =
  rec_id :: string
  rec_tenant_id :: string
  rec_principal_id :: string
  rec_action :: string
  rec_resource :: string
  rec_outcome :: string
  rec_outcome_detail :: string
  rec_details :: json
  rec_client_ip :: string
  rec_signature :: string
  rec_timestamp :: datetime
  rec_seq :: int
  rec_prev_hash :: string
  rec_verified :: "bool option"

section \<open>Integrity\<close>

type_synonym audit_signer = bytes

definition signer_from_env :: "(string \<Rightarrow> string option) \<Rightarrow> string + audit_signer" where
  "signer_from_env var =
     (case var ''AUDIT_SIGNING_KEY'' of
        None \<Rightarrow> Inl ''AUDIT_SIGNING_KEY is required: audit records cannot be signed without it''
      | Some key \<Rightarrow>
          if length key < 32
          then Inl (''AUDIT_SIGNING_KEY must be at least 32 bytes, got '' @ show_nat (length key))
          else Inr (str_bytes key))"

definition key_for :: "audit_lib \<Rightarrow> audit_signer \<Rightarrow> string \<Rightarrow> bytes" where
  "key_for lib signer tenant_id =
     (case derive_key (al_crypto lib) signer None (str_bytes (''wslvault:audit:v1:'' @ tenant_id)) of
        Inr k \<Rightarrow> k | Inl _ \<Rightarrow> undefined)"

definition canonical_fields :: "audit_lib \<Rightarrow> audit_record \<Rightarrow> int \<Rightarrow> string \<Rightarrow> string list" where
  "canonical_fields lib r seq prev_hash =
     [rec_id r, rec_tenant_id r, rec_principal_id r, rec_action r, rec_resource r, rec_outcome r,
      rec_outcome_detail r, rec_client_ip r, al_rfc3339 lib (rec_timestamp r),
      al_json_text lib (rec_details r), show_int seq, prev_hash]"

definition build_canonical_message_chained :: "audit_lib \<Rightarrow> audit_record \<Rightarrow> int \<Rightarrow> string \<Rightarrow> string" where
  "build_canonical_message_chained lib r seq prev_hash = join_with CHR 0x00 (canonical_fields lib r seq prev_hash)"

definition sign_event_chained :: "audit_lib \<Rightarrow> audit_record \<Rightarrow> bytes \<Rightarrow> int \<Rightarrow> string \<Rightarrow> string" where
  "sign_event_chained lib r key seq prev_hash =
     hex_encode (al_crypto lib) (al_hmac lib key (str_bytes (build_canonical_message_chained lib r seq prev_hash)))"

definition sign_event :: "audit_lib \<Rightarrow> audit_record \<Rightarrow> bytes \<Rightarrow> string" where
  "sign_event lib r key = sign_event_chained lib r key (rec_seq r) (rec_prev_hash r)"

definition verify_signature :: "audit_lib \<Rightarrow> audit_record \<Rightarrow> bytes \<Rightarrow> string \<Rightarrow> bool" where
  "verify_signature lib r key signature =
     (case al_hex_decode lib signature of
        None \<Rightarrow> False
      | Some sig_bytes \<Rightarrow>
          sig_bytes = al_hmac lib key (str_bytes (build_canonical_message_chained lib r (rec_seq r) (rec_prev_hash r))))"

section \<open>The in-memory backend\<close>

definition mem_insert_record :: "audit_record \<Rightarrow> audit_record list \<Rightarrow> string + audit_record list" where
  "mem_insert_record r log =
     Inr (log @ [r\<lparr>rec_seq := int (length log) + 1,
                  rec_prev_hash := (if log = [] then [] else rec_signature (last log))\<rparr>])"

definition within :: "datetime option \<Rightarrow> datetime option \<Rightarrow> datetime \<Rightarrow> bool" where
  "within start_time end_time t \<longleftrightarrow>
     (case start_time of None \<Rightarrow> True | Some a \<Rightarrow> a \<le> t) \<and> (case end_time of None \<Rightarrow> True | Some b \<Rightarrow> t \<le> b)"

definition mem_matches ::
  "string \<Rightarrow> datetime option \<Rightarrow> datetime option \<Rightarrow> string option \<Rightarrow> string option \<Rightarrow> audit_record \<Rightarrow> bool" where
  "mem_matches tenant_id start_time end_time action_filter principal_filter r \<longleftrightarrow>
     rec_tenant_id r = tenant_id \<and> within start_time end_time (rec_timestamp r) \<and>
     (case action_filter of None \<Rightarrow> True | Some f \<Rightarrow> f = [] \<or> rec_action r = f) \<and>
     (case principal_filter of None \<Rightarrow> True | Some f \<Rightarrow> f = [] \<or> rec_principal_id r = f)"

definition mem_query_events ::
  "string \<Rightarrow> datetime option \<Rightarrow> datetime option \<Rightarrow> string option \<Rightarrow> string option \<Rightarrow> nat \<Rightarrow> nat \<Rightarrow>
   audit_record list \<Rightarrow> string + audit_record list \<times> nat" where
  "mem_query_events tenant_id start_time end_time action_filter principal_filter limit offset log =
     (let matching = filter (mem_matches tenant_id start_time end_time action_filter principal_filter) log;
          rest = drop offset matching
      in Inr (if limit = 0 then rest else take limit rest, length matching))"

section \<open>The table\<close>

record stored_audit_event =
  sae_id :: string
  sae_tenant_id :: string
  sae_principal_id :: string
  sae_action :: string
  sae_resource :: string
  sae_outcome :: string
  sae_outcome_detail :: string
  sae_details :: json
  sae_client_ip :: string
  sae_signature :: string
  sae_timestamp :: datetime
  sae_seq :: int
  sae_prev_hash :: string

record event_row =
  ev_id :: string
  ev_tenant_id :: string
  ev_principal_id :: string
  ev_action :: string
  ev_resource :: string
  ev_outcome :: string
  ev_outcome_detail :: "string option"
  ev_details :: json
  ev_client_ip :: "string option"
  ev_signature :: "string option"
  ev_timestamp :: datetime
  ev_seq :: "int option"
  ev_prev_hash :: "string option"

text \<open>A column of type \<^verbatim>\<open>text\<close> takes no NUL character.\<close>

definition text_ok :: "string \<Rightarrow> bool" where
  "text_ok s \<longleftrightarrow> CHR 0x00 \<notin> set s"

definition client_ip_or_null :: "string \<Rightarrow> string option" where
  "client_ip_or_null ip = (let trimmed = trim ip in if trimmed = [] then None else Some trimmed)"

definition inet_column :: "audit_lib \<Rightarrow> string option \<Rightarrow> vault_error + string option" where
  "inet_column lib ip =
     (case ip of
        None \<Rightarrow> Inr None
      | Some s \<Rightarrow> (case al_inet lib s of
                    None \<Rightarrow> Inl (Database (''invalid input syntax for type inet: '' @ s))
                  | Some shown \<Rightarrow> Inr (Some shown)))"

definition chain_rows :: "string \<Rightarrow> event_row list \<Rightarrow> event_row list" where
  "chain_rows tenant table =
     sort_key (\<lambda>r. the (ev_seq r)) (filter (\<lambda>r. ev_tenant_id r = tenant \<and> ev_seq r \<noteq> None) table)"

definition audit_chain_tip :: "string \<Rightarrow> event_row list \<Rightarrow> (int \<times> string) option" where
  "audit_chain_tip tenant table =
     (case rev (chain_rows tenant table) of
        [] \<Rightarrow> None
      | r # _ \<Rightarrow> Some (the (ev_seq r), case ev_signature r of Some s \<Rightarrow> s | None \<Rightarrow> []))"

text \<open>Whether a row is reported, given the row before it in the order of the sequence.\<close>

definition link_break :: "event_row \<Rightarrow> event_row \<Rightarrow> (int \<times> string) option" where
  "link_break prior r =
     (if the (ev_seq r) \<noteq> the (ev_seq prior) + 1
      then Some (the (ev_seq r), ''sequence gap: records are missing'')
      else if ev_signature prior \<noteq> None \<and> ev_prev_hash r \<noteq> ev_signature prior
      then Some (the (ev_seq r), ''prev_hash does not match the preceding record'')
      else None)"

fun link_breaks :: "event_row list \<Rightarrow> (int \<times> string) list" where
  "link_breaks (prior # r # rows) =
     (case link_break prior r of None \<Rightarrow> [] | Some b \<Rightarrow> [b]) @ link_breaks (r # rows)"
| "link_breaks _ = []"

definition chain_breaks_sql :: "string \<Rightarrow> event_row list \<Rightarrow> (int \<times> string) list" where
  "chain_breaks_sql tenant table = link_breaks (chain_rows tenant table)"

section \<open>Storage operations\<close>

definition invalid_uuid :: "string \<Rightarrow> vault_error" where
  "invalid_uuid e = ValidationError ''tenant_id'' (''invalid UUID: '' @ e)"

definition parse_tenant :: "audit_lib \<Rightarrow> string \<Rightarrow> vault_error + string" where
  "parse_tenant lib tenant_id =
     (case al_parse_uuid lib tenant_id of Inl e \<Rightarrow> Inl (invalid_uuid e) | Inr t \<Rightarrow> Inr t)"

definition insert_row :: "audit_lib \<Rightarrow> stored_audit_event \<Rightarrow> string \<Rightarrow> string \<Rightarrow> (int \<times> string) option \<Rightarrow>
    event_row list \<Rightarrow> vault_error + event_row list" where
  "insert_row lib e tenant signature link table =
     and_then (if list_all text_ok [sae_principal_id e, sae_action e, sae_resource e, sae_outcome e,
                  sae_outcome_detail e, signature, case link of None \<Rightarrow> [] | Some (_, h) \<Rightarrow> h]
               then Inr () else Inl (Database ''invalid byte sequence for encoding \"UTF8\": 0x00'')) (\<lambda>_.
     and_then (ok_or (Database ''unsupported Unicode escape sequence'') (al_jsonb lib (sae_details e))) (\<lambda>details.
     and_then (inet_column lib (client_ip_or_null (sae_client_ip e))) (\<lambda>ip.
     Inr (table @ [\<lparr>ev_id = sae_id e, ev_tenant_id = tenant, ev_principal_id = sae_principal_id e,
        ev_action = sae_action e, ev_resource = sae_resource e, ev_outcome = sae_outcome e,
        ev_outcome_detail = Some (sae_outcome_detail e), ev_details = details, ev_client_ip = ip,
        ev_signature = Some signature, ev_timestamp = al_timestamptz lib (sae_timestamp e),
        ev_seq = map_option fst link, ev_prev_hash = map_option snd link\<rparr>]))))"

definition insert_event_chained :: "audit_lib \<Rightarrow> (int \<Rightarrow> string \<Rightarrow> string) \<Rightarrow> stored_audit_event \<Rightarrow>
    event_row list \<Rightarrow> vault_error + event_row list \<times> int \<times> string" where
  "insert_event_chained lib sign e table =
     and_then (parse_tenant lib (sae_tenant_id e)) (\<lambda>tenant.
       let (prev_seq, prev_hash) = (case audit_chain_tip tenant table of Some tip \<Rightarrow> tip | None \<Rightarrow> (0, []));
           seq = prev_seq + 1;
           signature = sign seq prev_hash
       in and_then (insert_row lib e tenant signature (Some (seq, prev_hash)) table) (\<lambda>table'.
          Inr (table', seq, prev_hash)))"

definition insert_event :: "audit_lib \<Rightarrow> stored_audit_event \<Rightarrow> event_row list \<Rightarrow> vault_error + event_row list" where
  "insert_event lib e table =
     and_then (parse_tenant lib (sae_tenant_id e)) (\<lambda>tenant.
     insert_row lib e tenant (sae_signature e) None table)"

definition audit_chain_breaks :: "audit_lib \<Rightarrow> string \<Rightarrow> event_row list \<Rightarrow> vault_error + (int \<times> string) list" where
  "audit_chain_breaks lib tenant_id table =
     and_then (parse_tenant lib tenant_id) (\<lambda>tenant. Inr (chain_breaks_sql tenant table))"

definition row_matches ::
  "string option \<Rightarrow> datetime option \<Rightarrow> datetime option \<Rightarrow> string option \<Rightarrow> string option \<Rightarrow> event_row \<Rightarrow> bool" where
  "row_matches tenant start_time end_time action_filter principal_filter r \<longleftrightarrow>
     (case tenant of None \<Rightarrow> True | Some t \<Rightarrow> ev_tenant_id r = t) \<and> within start_time end_time (ev_timestamp r) \<and>
     (case action_filter of None \<Rightarrow> True | Some f \<Rightarrow> ev_action r = f) \<and>
     (case principal_filter of None \<Rightarrow> True | Some f \<Rightarrow> ev_principal_id r = f)"

definition event_of_row :: "event_row \<Rightarrow> stored_audit_event" where
  "event_of_row r =
     \<lparr>sae_id = ev_id r, sae_tenant_id = ev_tenant_id r, sae_principal_id = ev_principal_id r,
      sae_action = ev_action r, sae_resource = ev_resource r, sae_outcome = ev_outcome r,
      sae_outcome_detail = (case ev_outcome_detail r of Some s \<Rightarrow> s | None \<Rightarrow> []), sae_details = ev_details r,
      sae_client_ip = (case ev_client_ip r of Some s \<Rightarrow> s | None \<Rightarrow> []),
      sae_signature = (case ev_signature r of Some s \<Rightarrow> s | None \<Rightarrow> []), sae_timestamp = ev_timestamp r,
      sae_seq = (case ev_seq r of Some n \<Rightarrow> n | None \<Rightarrow> 0),
      sae_prev_hash = (case ev_prev_hash r of Some s \<Rightarrow> s | None \<Rightarrow> [])\<rparr>"

definition query_events :: "audit_lib \<Rightarrow> string option \<Rightarrow> datetime option \<Rightarrow> datetime option \<Rightarrow> string option \<Rightarrow>
    string option \<Rightarrow> nat \<Rightarrow> nat \<Rightarrow> event_row list \<Rightarrow> vault_error + stored_audit_event list \<times> nat" where
  "query_events lib tenant_id start_time end_time action_filter principal_filter limit offset table =
     and_then (case tenant_id of None \<Rightarrow> Inr None | Some s \<Rightarrow> and_then (parse_tenant lib s) (\<lambda>t. Inr (Some t))) (\<lambda>tenant.
       let matching = filter (row_matches tenant start_time end_time action_filter principal_filter) table;
           page = take limit (drop offset (sort_key (\<lambda>r. - ev_timestamp r) matching))
       in Inr (map event_of_row page, length matching))"

section \<open>The PostgreSQL backend\<close>

definition record_to_stored :: "audit_record \<Rightarrow> stored_audit_event" where
  "record_to_stored r =
     \<lparr>sae_id = rec_id r, sae_tenant_id = rec_tenant_id r, sae_principal_id = rec_principal_id r,
      sae_action = rec_action r, sae_resource = rec_resource r, sae_outcome = rec_outcome r,
      sae_outcome_detail = rec_outcome_detail r, sae_details = rec_details r, sae_client_ip = rec_client_ip r,
      sae_signature = rec_signature r, sae_timestamp = rec_timestamp r, sae_seq = rec_seq r,
      sae_prev_hash = rec_prev_hash r\<rparr>"

definition stored_to_record :: "stored_audit_event \<Rightarrow> audit_record" where
  "stored_to_record e =
     \<lparr>rec_id = sae_id e, rec_tenant_id = sae_tenant_id e, rec_principal_id = sae_principal_id e,
      rec_action = sae_action e, rec_resource = sae_resource e, rec_outcome = sae_outcome e,
      rec_outcome_detail = sae_outcome_detail e, rec_details = sae_details e, rec_client_ip = sae_client_ip e,
      rec_signature = sae_signature e, rec_timestamp = sae_timestamp e, rec_seq = sae_seq e,
      rec_prev_hash = sae_prev_hash e, rec_verified = None\<rparr>"

text \<open>\<^verbatim>\<open>VaultError::to_string\<close> for the two errors storage returns.\<close>

definition pg_insert_record :: "audit_lib \<Rightarrow> audit_signer \<Rightarrow> audit_record \<Rightarrow> event_row list \<Rightarrow> string + event_row list" where
  "pg_insert_record lib signer r table =
     (let signing_key = key_for lib signer (rec_tenant_id r)
      in case insert_event_chained lib (sign_event_chained lib r signing_key) (record_to_stored r) table of
           Inr (table', _) \<Rightarrow> Inr table' | Inl err \<Rightarrow> Inl (error_to_string err))"

definition pg_chain_breaks :: "audit_lib \<Rightarrow> string \<Rightarrow> event_row list \<Rightarrow> string + (int \<times> string) list" where
  "pg_chain_breaks lib tenant_id table =
     (case audit_chain_breaks lib tenant_id table of Inr b \<Rightarrow> Inr b | Inl e \<Rightarrow> Inl (error_to_string e))"

text \<open>A record as it comes back from a query, with the outcome of checking its signature.\<close>

definition checked_record :: "audit_lib \<Rightarrow> bytes \<Rightarrow> stored_audit_event \<Rightarrow> audit_record" where
  "checked_record lib key e =
     (let r = stored_to_record e in r\<lparr>rec_verified := Some (verify_signature lib r key (rec_signature r))\<rparr>)"

definition pg_query_events :: "audit_lib \<Rightarrow> audit_signer \<Rightarrow> string \<Rightarrow> datetime option \<Rightarrow> datetime option \<Rightarrow>
    string option \<Rightarrow> string option \<Rightarrow> nat \<Rightarrow> nat \<Rightarrow> event_row list \<Rightarrow> string + audit_record list \<times> nat" where
  "pg_query_events lib signer tenant_id start_time end_time action_filter principal_filter limit offset table =
     (case query_events lib (Some tenant_id) start_time end_time action_filter principal_filter
             (min limit (2 ^ 31 - 1)) (min offset (2 ^ 31 - 1)) table of
        Inr (events, n) \<Rightarrow> Inr (map (checked_record lib (key_for lib signer tenant_id)) events, n)
      | Inl err \<Rightarrow> Inl (error_to_string err))"

section \<open>What the libraries promise\<close>

text \<open>
  Hex decodes what it encodes; the texts of timestamps, JSON values and hex strings hold
  no NUL character, nor do those of UUIDs and of internet addresses the server takes.
\<close>

definition audit_lib_ok :: "audit_lib \<Rightarrow> bool" where
  "audit_lib_ok lib \<longleftrightarrow>
     (\<forall>b. al_hex_decode lib (hex_encode (al_crypto lib) b) = Some b \<and> text_ok (hex_encode (al_crypto lib) b)) \<and>
     (\<forall>t. text_ok (al_rfc3339 lib t)) \<and> (\<forall>v. text_ok (al_json_text lib v)) \<and>
     (\<forall>s u. al_parse_uuid lib s = Inr u \<longrightarrow> text_ok u) \<and>
     (\<forall>s shown. al_inet lib s = Some shown \<longrightarrow> text_ok s \<and> text_ok shown)"

section \<open>Lemmas\<close>

lemma str_bytes_inj [simp]: "str_bytes s = str_bytes s' \<longleftrightarrow> s = s'"
proof -
  have inj: "inj (\<lambda>c. of_nat (of_char c) :: u8)"
  proof (rule injI)
    fix c d :: char
    assume "(of_nat (of_char c) :: u8) = of_nat (of_char d)"
    then have "(of_char c :: nat) mod 256 = of_char d mod 256" by (simp add: word_of_nat_eq_iff take_bit_eq_mod)
    then show "c = d" by simp
  qed
  then show ?thesis unfolding str_bytes_def by (metis inj_map_eq_map)
qed

lemma join_inject:
  assumes "\<forall>p \<in> set ps. c \<notin> set p" "\<forall>p \<in> set qs. c \<notin> set p" "ps \<noteq> []" "qs \<noteq> []"
  shows "join_with c ps = join_with c qs \<longleftrightarrow> ps = qs"
  using split_join assms by metis

lemma text_ok_show_int [simp]: "text_ok (show_int i)"
  using show_nat_avoids [of "CHR 0x00"] by (simp add: show_int_def text_ok_def)

lemma show_int_inject [simp]: "show_int i = show_int j \<longleftrightarrow> i = j"
proof -
  have "CHR ''-'' # x \<noteq> show_nat n" for x n using show_nat_avoids [of "CHR ''-''" n] by (metis insertCI list.set_intros(1))
  then show ?thesis by (auto simp: show_int_def show_nat_inj dest: sym)
qed

text \<open>Fields without NUL are recovered from the message.\<close>

lemma canonical_message_inject:
  assumes "list_all text_ok fs" "list_all text_ok gs" "fs \<noteq> []" "gs \<noteq> []"
  shows "join_with CHR 0x00 fs = join_with CHR 0x00 gs \<longleftrightarrow> fs = gs"
  using assms join_inject [of fs "CHR 0x00" gs] by (auto simp: list_all_iff text_ok_def)

text \<open>What an append writes.\<close>

definition tip_or_start :: "string \<Rightarrow> event_row list \<Rightarrow> int \<times> string" where
  "tip_or_start tenant table = (case audit_chain_tip tenant table of Some tip \<Rightarrow> tip | None \<Rightarrow> (0, []))"

definition new_row :: "audit_lib \<Rightarrow> audit_signer \<Rightarrow> audit_record \<Rightarrow> string \<Rightarrow> int \<times> string \<Rightarrow> json \<Rightarrow> string option \<Rightarrow> event_row" where
  "new_row lib signer r tenant tip details ip =
     \<lparr>ev_id = rec_id r, ev_tenant_id = tenant, ev_principal_id = rec_principal_id r, ev_action = rec_action r,
      ev_resource = rec_resource r, ev_outcome = rec_outcome r, ev_outcome_detail = Some (rec_outcome_detail r),
      ev_details = details, ev_client_ip = ip,
      ev_signature = Some (sign_event_chained lib r (key_for lib signer (rec_tenant_id r)) (fst tip + 1) (snd tip)),
      ev_timestamp = al_timestamptz lib (rec_timestamp r), ev_seq = Some (fst tip + 1), ev_prev_hash = Some (snd tip)\<rparr>"

definition appended :: "audit_lib \<Rightarrow> audit_signer \<Rightarrow> audit_record \<Rightarrow> string \<Rightarrow> int \<times> string \<Rightarrow> event_row \<Rightarrow> bool" where
  "appended lib signer r tenant tip row \<longleftrightarrow>
     (\<exists>details ip. al_jsonb lib (rec_details r) = Some details \<and>
        inet_column lib (client_ip_or_null (rec_client_ip r)) = Inr ip \<and>
        list_all text_ok [rec_principal_id r, rec_action r, rec_resource r, rec_outcome r, rec_outcome_detail r] \<and>
        row = new_row lib signer r tenant tip details ip)"

lemma appended_fields:
  assumes "appended lib signer r tenant tip row"
  shows "ev_id row = rec_id r" "ev_tenant_id row = tenant" "ev_seq row = Some (fst tip + 1)" "ev_prev_hash row = Some (snd tip)"
    "ev_signature row = Some (sign_event_chained lib r (key_for lib signer (rec_tenant_id r)) (fst tip + 1) (snd tip))"
  using assms by (auto simp: appended_def new_row_def)

lemma pg_insert_record_appends:
  assumes "pg_insert_record lib signer r table = Inr table'"
  obtains tenant row where "al_parse_uuid lib (rec_tenant_id r) = Inr tenant" "table' = table @ [row]"
    "appended lib signer r tenant (tip_or_start tenant table) row"
proof -
  obtain tenant where t: "al_parse_uuid lib (rec_tenant_id r) = Inr tenant"
    using assms by (cases "al_parse_uuid lib (rec_tenant_id r)")
      (auto simp: pg_insert_record_def insert_event_chained_def parse_tenant_def record_to_stored_def)
  obtain n p where tip: "tip_or_start tenant table = (n, p)" by (cases "tip_or_start tenant table")
  let ?sig = "sign_event_chained lib r (key_for lib signer (rec_tenant_id r)) (n + 1) p"
  have ins: "insert_row lib (record_to_stored r) tenant ?sig (Some (n + 1, p)) table = Inr table'"
    using assms t tip by (auto simp: pg_insert_record_def insert_event_chained_def parse_tenant_def record_to_stored_def
        tip_or_start_def Let_def and_then_def split: sum.splits)
  obtain d where d: "al_jsonb lib (rec_details r) = Some d"
    using ins by (cases "al_jsonb lib (rec_details r)")
      (auto simp: insert_row_def and_then_def ok_or_def record_to_stored_def split: if_splits)
  obtain ip where ip: "inet_column lib (client_ip_or_null (rec_client_ip r)) = Inr ip"
    using ins d by (cases "inet_column lib (client_ip_or_null (rec_client_ip r))")
      (auto simp: insert_row_def and_then_def ok_or_def record_to_stored_def split: if_splits)
  have ok: "list_all text_ok [rec_principal_id r, rec_action r, rec_resource r, rec_outcome r, rec_outcome_detail r]"
    using ins by (auto simp: insert_row_def record_to_stored_def and_then_def split: if_splits)
  show thesis
  proof (rule that [OF t])
    show "table' = table @ [last table']" "appended lib signer r tenant (tip_or_start tenant table) (last table')"
      using ins d ip ok tip
      by (auto simp: insert_row_def and_then_def ok_or_def record_to_stored_def appended_def new_row_def split: if_splits)
  qed
qed

text \<open>The messages signed for a tenant's records, one after the other, from a position and the
  signature before it; and where the chain ends.\<close>

fun signed_chain :: "audit_lib \<Rightarrow> bytes \<Rightarrow> int \<times> string \<Rightarrow> audit_record list \<Rightarrow> string list list" where
  "signed_chain lib key tip [] = []"
| "signed_chain lib key tip (r # rs) =
     canonical_fields lib r (fst tip + 1) (snd tip) #
     signed_chain lib key (fst tip + 1, sign_event_chained lib r key (fst tip + 1) (snd tip)) rs"

fun chain_end :: "audit_lib \<Rightarrow> bytes \<Rightarrow> int \<times> string \<Rightarrow> audit_record list \<Rightarrow> int \<times> string" where
  "chain_end lib key tip [] = tip"
| "chain_end lib key tip (r # rs) =
     chain_end lib key (fst tip + 1, sign_event_chained lib r key (fst tip + 1) (snd tip)) rs"

lemma signed_chain_snoc:
  "signed_chain lib key tip (rs @ [r]) =
     signed_chain lib key tip rs @ [canonical_fields lib r (fst (chain_end lib key tip rs) + 1) (snd (chain_end lib key tip rs))]"
  by (induction rs arbitrary: tip) simp_all

lemma chain_end_snoc:
  "chain_end lib key tip (rs @ [r]) =
     (fst (chain_end lib key tip rs) + 1,
      sign_event_chained lib r key (fst (chain_end lib key tip rs) + 1) (snd (chain_end lib key tip rs)))"
  by (induction rs arbitrary: tip) simp_all

lemma chain_end_seq: "fst (chain_end lib key tip rs) = fst tip + int (length rs)"
  by (induction rs arbitrary: tip) simp_all

lemma signed_chain_seq: "i < length rs \<Longrightarrow> signed_chain lib key tip rs ! i ! 10 = show_int (fst tip + 1 + int i)"
proof (induction rs arbitrary: tip i)
  case (Cons r rs)
  then show ?case by (cases i) (simp_all add: canonical_fields_def add.commute add.left_commute)
qed simp

lemma length_signed_chain [simp]: "length (signed_chain lib key tip rs) = length rs"
  by (induction rs arbitrary: tip) simp_all

text \<open>Rows that follow each other without a break.\<close>

lemma link_breaks_snoc:
  "link_breaks (rows @ [prior, r]) = link_breaks (rows @ [prior]) @ (case link_break prior r of None \<Rightarrow> [] | Some b \<Rightarrow> [b])"
proof (induction rows)
  case (Cons x rows)
  then show ?case by (cases rows) simp_all
qed simp

lemma link_breaks_append: "link_breaks (xs @ ys) = [] \<Longrightarrow> link_breaks xs = [] \<and> link_breaks ys = []"
proof (induction xs)
  case (Cons x xs)
  then show ?case by (cases xs; cases ys) auto
qed simp

lemma link_breaks_seqs:
  assumes "link_breaks rows = []" "i < length rows"
  shows "the (ev_seq (rows ! i)) = the (ev_seq (rows ! 0)) + int i"
  using assms
proof (induction rows arbitrary: i rule: link_breaks.induct)
  case (1 prior r rows)
  then show ?case by (cases i) (auto simp: link_break_def split: if_splits option.splits)
qed (simp_all add: less_Suc_eq)

definition tenant_rows :: "string \<Rightarrow> event_row list \<Rightarrow> event_row list" where
  "tenant_rows tenant table = filter (\<lambda>r. ev_tenant_id r = tenant \<and> ev_seq r \<noteq> None) table"

text \<open>A table in which the rows of a tenant stand in the order of an unbroken chain.\<close>

definition orderly :: "string \<Rightarrow> event_row list \<Rightarrow> bool" where
  "orderly tenant table \<longleftrightarrow>
     link_breaks (tenant_rows tenant table) = [] \<and> list_all (\<lambda>r. ev_signature r \<noteq> None) (tenant_rows tenant table)"

lemma chain_rows_orderly: "link_breaks (tenant_rows tenant table) = [] \<Longrightarrow> chain_rows tenant table = tenant_rows tenant table"
  unfolding chain_rows_def tenant_rows_def [symmetric]
  by (rule sort_key_id_if_sorted) (auto simp: sorted_iff_nth_mono link_breaks_seqs)

lemma orderly_breaks: "orderly tenant table \<Longrightarrow> chain_breaks_sql tenant table = []"
  by (simp add: orderly_def chain_breaks_sql_def chain_rows_orderly)

lemma tip_orderly:
  assumes "orderly tenant table"
  shows "tip_or_start tenant table =
    (if tenant_rows tenant table = [] then (0, [])
     else (the (ev_seq (last (tenant_rows tenant table))), the (ev_signature (last (tenant_rows tenant table)))))"
proof (cases "tenant_rows tenant table" rule: rev_cases)
  case (snoc rows r)
  moreover from this assms have "ev_signature r \<noteq> None" by (simp add: orderly_def)
  ultimately show ?thesis using assms
    by (auto simp: tip_or_start_def audit_chain_tip_def chain_rows_orderly orderly_def)
qed (use assms in \<open>simp add: tip_or_start_def audit_chain_tip_def chain_rows_orderly orderly_def\<close>)

lemma orderly_append:
  assumes "orderly tenant table" "appended lib signer r t (tip_or_start t table) row"
  shows "orderly tenant (table @ [row])"
proof (cases "t = tenant")
  case True
  note f = appended_fields [OF assms(2) [unfolded True]]
  show ?thesis
  proof (cases "tenant_rows tenant table" rule: rev_cases)
    case Nil
    then show ?thesis using f by (simp add: orderly_def tenant_rows_def)
  next
    case (snoc rows w)
    have "link_break w row = None"
      using f assms(1) tip_orderly [OF assms(1)] snoc by (simp add: link_break_def orderly_def)
    moreover have "tenant_rows tenant (table @ [row]) = rows @ [w, row]"
      using f snoc by (simp add: tenant_rows_def)
    ultimately show ?thesis
      using f assms(1) snoc by (simp add: orderly_def link_breaks_snoc)
  qed
next
  case False
  then have "tenant_rows tenant (table @ [row]) = tenant_rows tenant table"
    using appended_fields [OF assms(2)] by (simp add: tenant_rows_def)
  then show ?thesis using assms(1) by (simp add: orderly_def)
qed

text \<open>Cutting off the ends of a chain leaves an unbroken chain.\<close>

definition cut :: "string \<Rightarrow> int \<Rightarrow> int \<Rightarrow> event_row list \<Rightarrow> event_row list" where
  "cut tenant m k table =
     filter (\<lambda>r. ev_tenant_id r = tenant \<longrightarrow> (case ev_seq r of Some n \<Rightarrow> m < n \<and> n \<le> k | None \<Rightarrow> False)) table"

lemma link_breaks_above:
  assumes "link_breaks (x # rows) = []" "r \<in> set rows"
  shows "the (ev_seq x) < the (ev_seq r)"
proof -
  obtain i where "i < length rows" "r = rows ! i" using assms(2) by (metis in_set_conv_nth)
  then show ?thesis using link_breaks_seqs [OF assms(1), of "Suc i"] by simp
qed

lemma link_breaks_interval:
  "link_breaks rows = [] \<Longrightarrow> link_breaks (filter (\<lambda>r. m < the (ev_seq r) \<and> the (ev_seq r) \<le> k) rows) = []"
proof (induction rows rule: link_breaks.induct)
  case (1 prior r rows)
  let ?P = "\<lambda>r. m < the (ev_seq r) \<and> the (ev_seq r) \<le> k"
  have tail: "link_breaks (r # rows) = []" and link: "link_break prior r = None"
    using 1(2) by (auto split: option.splits)
  show ?case
  proof (cases "?P prior")
    case in_range: True
    show ?thesis
    proof (cases "?P r")
      case True
      then show ?thesis using 1(1) [OF tail] in_range link by simp
    next
      case False
      have next_seq: "the (ev_seq r) = the (ev_seq prior) + 1" using link by (simp add: link_break_def split: if_splits)
      with False in_range have "k < the (ev_seq r)" by auto
      then have "filter ?P (r # rows) = []"
        using link_breaks_above [OF tail] by (fastforce simp: filter_empty_conv)
      then show ?thesis using in_range by simp
    qed
  next
    case False
    then have "filter ?P (prior # r # rows) = filter ?P (r # rows)" by auto
    with 1(1) [OF tail] show ?thesis by (simp only:)
  qed
qed simp_all

lemma orderly_cut:
  assumes "orderly tenant table"
  shows "orderly tenant (cut tenant m k table)"
proof -
  have "tenant_rows tenant (cut tenant m k table) =
      filter (\<lambda>r. m < the (ev_seq r) \<and> the (ev_seq r) \<le> k) (tenant_rows tenant table)"
    by (auto simp: tenant_rows_def cut_def intro!: filter_cong split: option.splits)
  then show ?thesis using assms link_breaks_interval
    by (auto simp: orderly_def list_all_iff)
qed

end
