(* ===== verification/Audit_Service.thy ===== *)
theory Audit_Service
  imports Audit_Log "HOL-Library.Multiset"
begin

text \<open>
  The procedures of the audit-service over either backend (\<^verbatim>\<open>services/audit-service/src/grpc.rs\<close>,
  \<^verbatim>\<open>http.rs\<close>), what a history of emitted events leaves in the table, and what the checks of
  signatures and of the chain show about a table that someone else has had access to.

  The caller's identity is an argument of the HTTP query. Breaks of the chain, which the
  service only logs, are returned beside the response.
\<close>

section \<open>Remote procedures\<close>

record emit_event_request =
  ee_tenant_id :: string
  ee_principal_id :: string
  ee_action :: string
  ee_resource :: string
  ee_outcome :: string
  ee_outcome_detail :: string
  ee_details_json :: string
  ee_client_ip :: string

definition record_of_request :: "audit_lib \<Rightarrow> string \<Rightarrow> datetime \<Rightarrow> emit_event_request \<Rightarrow> grpc_status + audit_record" where
  "record_of_request lib eid now req =
     (if ee_tenant_id req = [] then Inl (InvalidArgument ''tenant_id is required'')
      else if ee_action req = [] then Inl (InvalidArgument ''action is required'')
      else and_then (if ee_details_json req = [] then Inr JNull
                     else case al_json_parse lib (ee_details_json req) of
                            Inl e \<Rightarrow> Inl (InvalidArgument (''invalid details_json: '' @ e)) | Inr v \<Rightarrow> Inr v) (\<lambda>details.
        Inr \<lparr>rec_id = eid, rec_tenant_id = ee_tenant_id req, rec_principal_id = ee_principal_id req,
          rec_action = ee_action req, rec_resource = ee_resource req, rec_outcome = ee_outcome req,
          rec_outcome_detail = ee_outcome_detail req, rec_details = details, rec_client_ip = ee_client_ip req,
          rec_signature = [], rec_timestamp = now, rec_seq = 0, rec_prev_hash = [], rec_verified = None\<rparr>))"

definition emit_event :: "audit_lib \<Rightarrow> audit_signer \<Rightarrow> (audit_record \<Rightarrow> 's \<Rightarrow> string + 's) \<Rightarrow> string \<Rightarrow> datetime \<Rightarrow>
    emit_event_request \<Rightarrow> 's \<Rightarrow> grpc_status + 's \<times> string" where
  "emit_event lib signer insert_record eid now req s =
     and_then (record_of_request lib eid now req) (\<lambda>record.
       let record = record\<lparr>rec_signature := sign_event lib record (key_for lib signer (rec_tenant_id record))\<rparr>
       in case insert_record record s of
            Inl e \<Rightarrow> Inl (InternalStatus (''audit record was not persisted: '' @ e))
          | Inr s' \<Rightarrow> Inr (s', rec_id record))"

record query_events_request =
  qe_tenant_id :: string
  qe_start_time :: string
  qe_end_time :: string
  qe_action_filter :: string
  qe_principal_filter :: string
  qe_limit :: int
  qe_offset :: int

record audit_event_info =
  ai_event_id :: string
  ai_tenant_id :: string
  ai_principal_id :: string
  ai_action :: string
  ai_resource :: string
  ai_outcome :: string
  ai_timestamp :: string
  ai_client_ip :: string

definition parse_optional_timestamp :: "audit_lib \<Rightarrow> string \<Rightarrow> grpc_status + datetime option" where
  "parse_optional_timestamp lib s =
     (if s = [] then Inr None
      else case al_parse_rfc3339 lib s of
             Inr t \<Rightarrow> Inr (Some t)
           | Inl e \<Rightarrow> Inl (InvalidArgument (''invalid timestamp '' @ [CHR 0x27] @ s @ [CHR 0x27] @ '': '' @ e)))"

definition info_of :: "audit_lib \<Rightarrow> audit_record \<Rightarrow> audit_event_info" where
  "info_of lib r =
     \<lparr>ai_event_id = rec_id r, ai_tenant_id = rec_tenant_id r, ai_principal_id = rec_principal_id r,
      ai_action = rec_action r, ai_resource = rec_resource r, ai_outcome = rec_outcome r,
      ai_timestamp = al_rfc3339 lib (rec_timestamp r), ai_client_ip = rec_client_ip r\<rparr>"

definition query_events_rpc :: "audit_lib \<Rightarrow>
    (string \<Rightarrow> datetime option \<Rightarrow> datetime option \<Rightarrow> string option \<Rightarrow> string option \<Rightarrow> nat \<Rightarrow> nat \<Rightarrow> 's \<Rightarrow>
       string + audit_record list \<times> nat) \<Rightarrow>
    (string \<Rightarrow> 's \<Rightarrow> string + (int \<times> string) list) \<Rightarrow> query_events_request \<Rightarrow> 's \<Rightarrow>
    grpc_status + (audit_event_info list \<times> nat) \<times> (int \<times> string) list" where
  "query_events_rpc lib query breaks req s =
     (if qe_tenant_id req = [] then Inl (InvalidArgument ''tenant_id is required'')
      else and_then (parse_optional_timestamp lib (qe_start_time req)) (\<lambda>start_time.
        and_then (parse_optional_timestamp lib (qe_end_time req)) (\<lambda>end_time.
        let optional = (\<lambda>f. if f = [] then None else Some f)
        in case query (qe_tenant_id req) start_time end_time (optional (qe_action_filter req))
                  (optional (qe_principal_filter req)) (nat (max (qe_limit req) 0)) (nat (max (qe_offset req) 0)) s of
             Inl e \<Rightarrow> Inl (InternalStatus (''audit query failed: '' @ e))
           | Inr (records, n) \<Rightarrow>
               Inr ((map (info_of lib) records, n),
                    case breaks (qe_tenant_id req) s of Inr b \<Rightarrow> b | Inl _ \<Rightarrow> []))))"

section \<open>The HTTP query\<close>

definition DEFAULT_LIMIT :: nat where
  "DEFAULT_LIMIT = 100"

definition MAX_LIMIT :: nat where
  "MAX_LIMIT = 1000"

record events_query =
  eq_limit :: "nat option"
  eq_offset :: "nat option"
  eq_action :: "string option"
  eq_principal :: "string option"
  eq_from :: "string option"
  eq_to :: "string option"

record audit_event_view =
  av_event_id :: string
  av_action :: string
  av_resource :: string
  av_principal :: string
  av_outcome :: string
  av_timestamp :: datetime
  av_outcome_detail :: "string option"
  av_ip_address :: "string option"
  av_metadata :: "json option"
  av_verified :: "bool option"

definition view_of :: "audit_record \<Rightarrow> audit_event_view" where
  "view_of r =
     (let non_empty = (\<lambda>s. if s = [] then None else Some s)
      in \<lparr>av_event_id = rec_id r, av_action = rec_action r, av_resource = rec_resource r,
          av_principal = rec_principal_id r, av_outcome = rec_outcome r, av_timestamp = rec_timestamp r,
          av_outcome_detail = non_empty (rec_outcome_detail r), av_ip_address = non_empty (rec_client_ip r),
          av_metadata = (if rec_details r = JNull then None else Some (rec_details r)),
          av_verified = rec_verified r\<rparr>)"

definition parse_bound :: "audit_lib \<Rightarrow> string option \<Rightarrow> string \<Rightarrow> (nat \<times> string) + datetime option" where
  "parse_bound lib raw field =
     (case raw of
        None \<Rightarrow> Inr None
      | Some s \<Rightarrow>
          if trim s = [] then Inr None
          else case al_parse_rfc3339 lib s of
                 Inr t \<Rightarrow> Inr (Some t)
               | Inl e \<Rightarrow> Inl (400, ''`'' @ field @ ''` must be an RFC 3339 timestamp: '' @ e))"

text \<open>Either a status and a message, or the events and their number.\<close>

definition list_events :: "audit_lib \<Rightarrow>
    (string \<Rightarrow> datetime option \<Rightarrow> datetime option \<Rightarrow> string option \<Rightarrow> string option \<Rightarrow> nat \<Rightarrow> nat \<Rightarrow> 's \<Rightarrow>
       string + audit_record list \<times> nat) \<Rightarrow>
    string + string \<Rightarrow> events_query \<Rightarrow> 's \<Rightarrow> (nat \<times> string) + audit_event_view list \<times> nat" where
  "list_events lib query identity q s =
     (case identity of
        Inl reason \<Rightarrow> Inl (401, reason)
      | Inr tenant_id \<Rightarrow>
          and_then (parse_bound lib (eq_from q) ''from'') (\<lambda>start_time.
          and_then (parse_bound lib (eq_to q) ''to'') (\<lambda>end_time.
          let limit = max 1 (min MAX_LIMIT (case eq_limit q of Some n \<Rightarrow> n | None \<Rightarrow> DEFAULT_LIMIT));
              empty_to_none = (\<lambda>f. case f of None \<Rightarrow> None | Some v \<Rightarrow> if trim v = [] then None else Some v)
          in case query tenant_id start_time end_time (empty_to_none (eq_action q)) (empty_to_none (eq_principal q))
                    limit (case eq_offset q of Some n \<Rightarrow> n | None \<Rightarrow> 0) s of
               Inl e \<Rightarrow> Inl (500, ''audit query failed'')
             | Inr (records, n) \<Rightarrow> Inr (map view_of records, n))))"

section \<open>Histories\<close>

type_synonym emission = "string \<times> datetime \<times> emit_event_request"

text \<open>An event that is refused leaves the store as it was.\<close>

definition emit :: "audit_lib \<Rightarrow> audit_signer \<Rightarrow> (audit_record \<Rightarrow> 's \<Rightarrow> string + 's) \<Rightarrow> emission \<Rightarrow> 's \<Rightarrow> 's" where
  "emit lib signer insert_record e s =
     (case e of (eid, now, req) \<Rightarrow>
        case emit_event lib signer insert_record eid now req s of Inr (s', _) \<Rightarrow> s' | Inl _ \<Rightarrow> s)"

abbreviation emit_all where
  "emit_all lib signer insert_record es s \<equiv> fold (emit lib signer insert_record) es s"

section \<open>The contract of a backend\<close>

lemma emit_event_iff:
  "emit_event lib signer insert_record eid now req s = Inr (s', event_id) \<longleftrightarrow>
     (\<exists>r. record_of_request lib eid now req = Inr r \<and> event_id = rec_id r \<and>
        insert_record (r\<lparr>rec_signature := sign_event lib r (key_for lib signer (rec_tenant_id r))\<rparr>) s = Inr s')"
  by (cases "record_of_request lib eid now req")
    (auto simp: emit_event_def and_then_def Let_def split: sum.splits)

lemma record_of_request_fields:
  assumes "record_of_request lib eid now req = Inr r"
  shows "rec_id r = eid" "rec_timestamp r = now" "rec_tenant_id r = ee_tenant_id req" "rec_client_ip r = ee_client_ip req"
  using assms by (auto simp: record_of_request_def and_then_def split: if_splits sum.splits)

text \<open>Appending adds the record to its tenant's log and leaves the others alone.\<close>

locale audit_backend =
  fixes insert_record :: "audit_record \<Rightarrow> 's \<Rightarrow> string + 's"
    and owner :: "audit_record \<Rightarrow> string"
    and event_ids :: "'s \<Rightarrow> string \<Rightarrow> string list"
  assumes insert_appends: "insert_record r s = Inr s' \<Longrightarrow>
      event_ids s' t = event_ids s t @ (if owner r = t then [rec_id r] else [])"
begin

lemma emit_event_appends:
  assumes "emit_event lib signer insert_record eid now req s = Inr (s', event_id)"
  shows "event_id = eid \<and> (event_ids s' t = event_ids s t \<or> event_ids s' t = event_ids s t @ [eid]) \<and>
    (\<exists>t. eid \<in> set (event_ids s' t))"
proof -
  obtain r where r: "record_of_request lib eid now req = Inr r" "event_id = rec_id r"
      "insert_record (r\<lparr>rec_signature := sign_event lib r (key_for lib signer (rec_tenant_id r))\<rparr>) s = Inr s'"
    using assms by (auto simp: emit_event_iff)
  then show ?thesis using insert_appends [OF r(3)] record_of_request_fields(1) [OF r(1)] by auto
qed

lemma emitted_kept: "\<exists>rest. event_ids (emit_all lib signer insert_record es s) t = event_ids s t @ rest"
proof (induction es arbitrary: s)
  case (Cons e es)
  obtain eid now req where e: "e = (eid, now, req)" by (cases e)
  have "\<exists>rest. event_ids (emit lib signer insert_record e s) t = event_ids s t @ rest"
  proof (cases "emit_event lib signer insert_record eid now req s")
    case (Inr x)
    then show ?thesis using emit_event_appends [of lib signer eid now req s "fst x" "snd x" t]
      by (cases x) (auto simp: emit_def e)
  qed (simp add: emit_def e)
  with Cons [of "emit lib signer insert_record e s"] show ?case by auto
qed simp

end

interpretation mem_audit: audit_backend mem_insert_record rec_tenant_id
  "\<lambda>log t. map rec_id (filter (\<lambda>r. rec_tenant_id r = t) log)"
  by unfold_locales (auto simp: mem_insert_record_def)

interpretation pg_audit: audit_backend "pg_insert_record lib signer"
  "\<lambda>r. case al_parse_uuid lib (rec_tenant_id r) of Inr t \<Rightarrow> t | Inl _ \<Rightarrow> []"
  "\<lambda>table t. map ev_id (filter (\<lambda>r. ev_tenant_id r = t) table)" for lib signer
proof
  fix r table table' t
  assume "pg_insert_record lib signer r table = Inr table'"
  then obtain u row where "al_parse_uuid lib (rec_tenant_id r) = Inr u" "table' = table @ [row]"
      "appended lib signer r u (tip_or_start u table) row"
    by (rule pg_insert_record_appends)
  then show "map ev_id (filter (\<lambda>r. ev_tenant_id r = t) table') = map ev_id (filter (\<lambda>r. ev_tenant_id r = t) table) @
      (if (case al_parse_uuid lib (rec_tenant_id r) of Inr t \<Rightarrow> t | Inl _ \<Rightarrow> []) = t then [rec_id r] else [])"
    by (simp add: appended_fields)
qed

section \<open>The table after a history\<close>

abbreviation pg_emit_all where
  "pg_emit_all lib signer es table \<equiv> emit_all lib signer (pg_insert_record lib signer) es table"

text \<open>The records of a tenant that were accepted, in order.\<close>

fun accepted :: "audit_lib \<Rightarrow> audit_signer \<Rightarrow> string \<Rightarrow> emission list \<Rightarrow> event_row list \<Rightarrow> audit_record list" where
  "accepted lib signer t [] table = []"
| "accepted lib signer t ((eid, now, req) # es) table =
     (case emit_event lib signer (pg_insert_record lib signer) eid now req table of
        Inl _ \<Rightarrow> accepted lib signer t es table
      | Inr (table', _) \<Rightarrow>
          (case record_of_request lib eid now req of
             Inr r \<Rightarrow> if al_parse_uuid lib (rec_tenant_id r) = Inr t then [r] else []
           | Inl _ \<Rightarrow> []) @ accepted lib signer t es table')"

lemma sign_ignores_signature [simp]:
  "sign_event_chained lib (r\<lparr>rec_signature := x\<rparr>) key n p = sign_event_chained lib r key n p"
  by (simp add: sign_event_chained_def build_canonical_message_chained_def canonical_fields_def)

lemma appended_ignores_signature [simp]:
  "appended lib signer (r\<lparr>rec_signature := x\<rparr>) t tip row = appended lib signer r t tip row"
  by (simp add: appended_def new_row_def)

lemma pg_emit_event_appends:
  assumes "emit_event lib signer (pg_insert_record lib signer) eid now req table = Inr (table', x)"
  obtains r t row where "record_of_request lib eid now req = Inr r" "x = eid" "al_parse_uuid lib (rec_tenant_id r) = Inr t"
    "table' = table @ [row]" "appended lib signer r t (tip_or_start t table) row"
proof -
  from assms obtain r where r: "record_of_request lib eid now req = Inr r" "x = rec_id r"
      "pg_insert_record lib signer (r\<lparr>rec_signature := sign_event lib r (key_for lib signer (rec_tenant_id r))\<rparr>) table = Inr table'"
    by (auto simp: emit_event_iff)
  from pg_insert_record_appends [OF r(3)] r that record_of_request_fields(1) [OF r(1)] show thesis
    by (metis appended_ignores_signature audit_record.select_convs(2) audit_record.surjective audit_record.update_convs(10))
qed

lemma orderly_emit_all: "orderly t table \<Longrightarrow> orderly t (pg_emit_all lib signer es table)"
proof (induction es arbitrary: table)
  case (Cons e es)
  obtain eid now req where e: "e = (eid, now, req)" by (cases e)
  have "orderly t (emit lib signer (pg_insert_record lib signer) e table)"
  proof (cases "emit_event lib signer (pg_insert_record lib signer) eid now req table")
    case (Inr x)
    obtain table' y where x: "x = (table', y)" by (cases x)
    from pg_emit_event_appends [OF Inr [unfolded x]] Cons.prems have "orderly t table'" by (metis orderly_append)
    then show ?thesis by (simp add: emit_def e Inr x)
  qed (use Cons.prems in \<open>simp add: emit_def e\<close>)
  then show ?case using Cons.IH by simp
qed simp

lemma orderly_Nil [simp]: "orderly t []"
  by (simp add: orderly_def tenant_rows_def)

section \<open>Reading the log back\<close>

text \<open>Every event a query for the whole log returns passes its signature check, and no
  break of the chain is reported.\<close>

definition log_passes :: "audit_lib \<Rightarrow> audit_signer \<Rightarrow> string \<Rightarrow> event_row list \<Rightarrow> bool" where
  "log_passes lib signer t table \<longleftrightarrow>
     pg_chain_breaks lib t table = Inr [] \<and>
     (case pg_query_events lib signer t None None None None (length table) 0 table of
        Inr (records, _) \<Rightarrow> list_all (\<lambda>r. rec_verified r = Some True) records | Inl _ \<Rightarrow> False)"

definition row_verifies :: "audit_lib \<Rightarrow> bytes \<Rightarrow> event_row \<Rightarrow> bool" where
  "row_verifies lib key row \<longleftrightarrow> rec_verified (checked_record lib key (event_of_row row)) = Some True"

definition row_fields :: "audit_lib \<Rightarrow> event_row \<Rightarrow> string list" where
  "row_fields lib row =
     (let r = stored_to_record (event_of_row row) in canonical_fields lib r (rec_seq r) (rec_prev_hash r))"

lemma row_matches_tenant [simp]: "row_matches (Some t) None None None None = (\<lambda>r. ev_tenant_id r = t)"
  by (simp add: row_matches_def within_def fun_eq_iff)

lemma log_passes_iff:
  assumes "al_parse_uuid lib t = Inr t" "length table < 2 ^ 31"
  shows "log_passes lib signer t table \<longleftrightarrow>
    chain_breaks_sql t table = [] \<and> (\<forall>row \<in> set table. ev_tenant_id row = t \<longrightarrow> row_verifies lib (key_for lib signer t) row)"
proof -
  let ?mine = "filter (\<lambda>r. ev_tenant_id r = t) table"
  have "length (sort_key (\<lambda>r. - ev_timestamp r) ?mine) \<le> min (length table) (2 ^ 31 - 1)"
    using assms(2) by (simp add: min_def)
  then have "take (min (length table) (2 ^ 31 - 1)) (sort_key (\<lambda>r. - ev_timestamp r) ?mine) =
      sort_key (\<lambda>r. - ev_timestamp r) ?mine" by (rule take_all)
  then have "pg_query_events lib signer t None None None None (length table) 0 table =
      Inr (map (checked_record lib (key_for lib signer t)) (map event_of_row (sort_key (\<lambda>r. - ev_timestamp r) ?mine)), length ?mine)"
    using assms(1) by (simp add: pg_query_events_def query_events_def parse_tenant_def and_then_def Let_def)
  then show ?thesis using assms(1)
    by (auto simp: log_passes_def pg_chain_breaks_def audit_chain_breaks_def parse_tenant_def and_then_def
        list_all_iff row_verifies_def)
qed

text \<open>An event whose columns give back what is signed: its tenant in the canonical text, a
  timestamp in microseconds, a client address and details that the server prints as they
  were sent.\<close>

fun reads_back :: "audit_lib \<Rightarrow> emission \<Rightarrow> bool" where
  "reads_back lib (eid, now, req) \<longleftrightarrow>
     (case record_of_request lib eid now req of
        Inl _ \<Rightarrow> True
      | Inr r \<Rightarrow>
          (case al_parse_uuid lib (rec_tenant_id r) of Inr t \<Rightarrow> rec_tenant_id r = t | Inl _ \<Rightarrow> True) \<and>
          al_timestamptz lib now = now \<and>
          (if trim (rec_client_ip r) = [] then rec_client_ip r = []
           else al_inet lib (trim (rec_client_ip r)) = Some (rec_client_ip r)) \<and>
          map_option (al_json_text lib) (al_jsonb lib (rec_details r)) = Some (al_json_text lib (rec_details r)))"

lemma appended_verifies:
  assumes "audit_lib_ok lib" "record_of_request lib eid now req = Inr r" "al_parse_uuid lib (rec_tenant_id r) = Inr t"
    and "appended lib signer r t tip row" "reads_back lib (eid, now, req)"
  shows "row_verifies lib (key_for lib signer t) row"
proof -
  from assms(4) obtain details ip where row: "al_jsonb lib (rec_details r) = Some details"
      "inet_column lib (client_ip_or_null (rec_client_ip r)) = Inr ip" "row = new_row lib signer r t tip details ip"
    by (auto simp: appended_def)
  have same: "rec_tenant_id r = t" "al_timestamptz lib (rec_timestamp r) = rec_timestamp r"
      "al_json_text lib details = al_json_text lib (rec_details r)"
    using assms(2,3,5) row(1) record_of_request_fields(2) [OF assms(2)] by simp_all
  have "(case ip of Some s \<Rightarrow> s | None \<Rightarrow> []) = rec_client_ip r"
    using assms(2,5) row(2)
    by (auto simp: inet_column_def client_ip_or_null_def Let_def split: option.splits if_splits)
  with same have "canonical_fields lib (stored_to_record (event_of_row row)) (fst tip + 1) (snd tip) =
      canonical_fields lib r (fst tip + 1) (snd tip)"
    by (simp add: row(3) stored_to_record_def event_of_row_def new_row_def canonical_fields_def)
  then show ?thesis
    using assms(1) same(1) row(3)
    by (simp add: row_verifies_def checked_record_def verify_signature_def Let_def audit_lib_ok_def
        sign_event_chained_def build_canonical_message_chained_def stored_to_record_def event_of_row_def new_row_def)
qed

lemma emitted_verifies:
  assumes "audit_lib_ok lib" "list_all (reads_back lib) es"
    and "row \<in> set (pg_emit_all lib signer es table)" "ev_tenant_id row = t"
  shows "row \<in> set table \<or> row_verifies lib (key_for lib signer t) row"
  using assms(2,3)
proof (induction es arbitrary: table)
  case (Cons e es)
  obtain eid now req where e: "e = (eid, now, req)" by (cases e)
  from Cons.IH [of "emit lib signer (pg_insert_record lib signer) e table"] Cons.prems
  have "row \<in> set (emit lib signer (pg_insert_record lib signer) e table) \<or> row_verifies lib (key_for lib signer t) row"
    by simp
  moreover have "row \<in> set table \<or> row_verifies lib (key_for lib signer t) row"
    if "emit_event lib signer (pg_insert_record lib signer) eid now req table = Inr (table', x)" "row \<in> set table'" for table' x
    using that(1)
  proof (rule pg_emit_event_appends)
    fix r u new
    assume r: "record_of_request lib eid now req = Inr r" "al_parse_uuid lib (rec_tenant_id r) = Inr u"
      "table' = table @ [new]" "appended lib signer r u (tip_or_start u table) new"
    then show ?thesis
      using appended_verifies [OF assms(1) r(1,2,4)] appended_fields(2) [OF r(4)] that(2) Cons.prems(1) assms(4) e by auto
  qed
  ultimately show ?case
    by (cases "emit_event lib signer (pg_insert_record lib signer) eid now req table") (auto simp: emit_def e)
qed simp

section \<open>What was signed\<close>

text \<open>Requests that name a tenant by the canonical text of its id, and ids that are texts.\<close>

definition well_spelled :: "audit_lib \<Rightarrow> emission list \<Rightarrow> bool" where
  "well_spelled lib es \<longleftrightarrow>
     list_all (\<lambda>(eid, now, req). text_ok eid \<and>
       (\<forall>t. al_parse_uuid lib (ee_tenant_id req) = Inr t \<longrightarrow> ee_tenant_id req = t)) es"

lemma in_set_dropWhile: "\<not> p c \<Longrightarrow> c \<in> set (dropWhile p s) \<longleftrightarrow> c \<in> set s"
  by (induction s) auto

lemma text_ok_trim: "text_ok (trim s) \<longleftrightarrow> text_ok s"
proof -
  have "\<not> is_whitespace CHR 0x00" by (simp add: is_whitespace_def)
  then show ?thesis by (simp add: text_ok_def trim_def trim_where_def in_set_dropWhile)
qed

lemma inet_text_ok:
  assumes "audit_lib_ok lib" "inet_column lib (client_ip_or_null s) = Inr ip"
  shows "text_ok s"
proof (cases "trim s = []")
  case True
  then show ?thesis using text_ok_trim [of s] by (simp add: text_ok_def)
next
  case False
  then obtain shown where "al_inet lib (trim s) = Some shown"
    using assms(2) by (auto simp: inet_column_def client_ip_or_null_def Let_def split: option.splits)
  then show ?thesis using assms(1) text_ok_trim [of s] by (simp add: audit_lib_ok_def)
qed

lemma signed_text_ok: "audit_lib_ok lib \<Longrightarrow> text_ok (sign_event_chained lib r key n p)"
  by (simp add: audit_lib_ok_def sign_event_chained_def)

text \<open>The fields of a record that was accepted hold no NUL character.\<close>

lemma accepted_text_ok:
  assumes "audit_lib_ok lib" "appended lib signer r t tip row" "text_ok (rec_id r)" "text_ok (rec_tenant_id r)" "text_ok p"
  shows "list_all text_ok (canonical_fields lib r n p)"
  using assms inet_text_ok [OF assms(1)] by (auto simp: appended_def canonical_fields_def audit_lib_ok_def)

lemma accepted_records:
  assumes "audit_lib_ok lib" "well_spelled lib es" "r \<in> set (accepted lib signer t es table)"
  shows "rec_tenant_id r = t \<and> text_ok (rec_id r) \<and> text_ok t \<and> (\<exists>tip row. appended lib signer r t tip row)"
  using assms
proof (induction lib signer t es table rule: accepted.induct)
  case (2 lib signer t eid now req es table)
  show ?case
  proof (cases "emit_event lib signer (pg_insert_record lib signer) eid now req table")
    case (Inl e)
    then show ?thesis using 2(1) [OF Inl] 2(3-5) by (simp add: well_spelled_def)
  next
    case (Inr x)
    obtain table' y where x: "x = (table', y)" by (cases x)
    from Inr x obtain r' u row where r': "record_of_request lib eid now req = Inr r'" "al_parse_uuid lib (rec_tenant_id r') = Inr u"
        "appended lib signer r' u (tip_or_start u table) row"
      using pg_emit_event_appends by metis
    have tail: "r \<in> set (accepted lib signer t es table') \<Longrightarrow> ?thesis"
      using 2(2) [OF Inr x [symmetric]] 2(3,4) by (simp add: well_spelled_def)
    show ?thesis
    proof (cases "r \<in> set (accepted lib signer t es table')")
      case False
      then have "r = r'" "u = t" using 2(5) Inr x r' by (auto split: if_splits)
      moreover have "text_ok eid" "rec_tenant_id r' = t"
        using 2(4) r' \<open>u = t\<close> record_of_request_fields(3) [OF r'(1)] by (auto simp: well_spelled_def)
      moreover have "text_ok t" using r'(2) \<open>u = t\<close> 2(3) by (auto simp: audit_lib_ok_def)
      ultimately show ?thesis using r'(3) record_of_request_fields(1) [OF r'(1)] by metis
    qed (rule tail)
  qed
qed simp

lemma signed_chain_text_ok:
  assumes "audit_lib_ok lib" "\<forall>r \<in> set rs. rec_tenant_id r = t \<and> text_ok (rec_id r) \<and> text_ok t \<and> (\<exists>tip row. appended lib signer r t tip row)"
    and "text_ok (snd tip)" "fs \<in> set (signed_chain lib key tip rs)"
  shows "list_all text_ok fs"
  using assms(2-4)
proof (induction rs arbitrary: tip)
  case (Cons r rs)
  obtain tip' row where r: "appended lib signer r t tip' row" "text_ok (rec_id r)" "text_ok (rec_tenant_id r)"
    using Cons.prems(1) by auto
  show ?case
  proof (cases "fs = canonical_fields lib r (fst tip + 1) (snd tip)")
    case True
    then show ?thesis using accepted_text_ok [OF assms(1) r Cons.prems(2)] by simp
  next
    case False
    then have "fs \<in> set (signed_chain lib key (fst tip + 1, sign_event_chained lib r key (fst tip + 1) (snd tip)) rs)"
      using Cons.prems(3) by simp
    then show ?thesis using Cons.IH Cons.prems(1) signed_text_ok [OF assms(1)] by (metis list.set_intros(2) snd_conv)
  qed
qed simp

section \<open>Tampering\<close>

text \<open>Rows whose text columns hold texts.\<close>

definition rows_ok :: "event_row list \<Rightarrow> bool" where
  "rows_ok table \<longleftrightarrow>
     list_all (\<lambda>r. list_all text_ok [ev_id r, ev_tenant_id r, ev_principal_id r, ev_action r, ev_resource r, ev_outcome r,
       case ev_outcome_detail r of Some s \<Rightarrow> s | None \<Rightarrow> [], case ev_client_ip r of Some s \<Rightarrow> s | None \<Rightarrow> [],
       case ev_prev_hash r of Some s \<Rightarrow> s | None \<Rightarrow> []]) table"

text \<open>Nobody without the key makes a tag for a message that was not signed: a row of the
  tenant verifies only when its message is one of those signed.\<close>

definition unforged :: "audit_lib \<Rightarrow> bytes \<Rightarrow> string list list \<Rightarrow> string \<Rightarrow> event_row list \<Rightarrow> bool" where
  "unforged lib key messages t table \<longleftrightarrow>
     (\<forall>row \<in> set table. ev_tenant_id row = t \<longrightarrow> row_verifies lib key row \<longrightarrow>
        join_with CHR 0x00 (row_fields lib row) \<in> join_with CHR 0x00 ` set messages)"

lemma row_fields_text_ok:
  assumes "audit_lib_ok lib" "rows_ok table" "row \<in> set table"
  shows "list_all text_ok (row_fields lib row)"
  using assms by (simp add: row_fields_def stored_to_record_def event_of_row_def canonical_fields_def rows_ok_def
      list_all_iff Let_def audit_lib_ok_def)

lemma row_fields_seq: "row_fields lib row ! 10 = show_int (case ev_seq row of Some n \<Rightarrow> n | None \<Rightarrow> 0)"
  by (simp add: row_fields_def stored_to_record_def event_of_row_def canonical_fields_def Let_def)

lemma row_fields_not_Nil [simp]: "row_fields lib row \<noteq> []" "canonical_fields lib r n p \<noteq> []"
  by (simp_all add: row_fields_def canonical_fields_def Let_def)

lemma signed_chain_not_Nil: "fs \<in> set (signed_chain lib key tip rs) \<Longrightarrow> fs \<noteq> []"
  by (induction rs arbitrary: tip) (auto simp: canonical_fields_def)

lemma verified_row_signed:
  assumes ok: "audit_lib_ok lib" "rows_ok table" "unforged lib key (signed_chain lib key (0, []) rs) t table"
    and rs: "\<forall>r \<in> set rs. rec_tenant_id r = t \<and> text_ok (rec_id r) \<and> text_ok t \<and> (\<exists>tip row. appended lib signer r t tip row)"
    and row: "row \<in> set table" "ev_tenant_id row = t" "row_verifies lib key row"
  obtains i where "i < length rs" "row_fields lib row = signed_chain lib key (0, []) rs ! i" "ev_seq row = Some (int i + 1)"
proof -
  from ok(3) row obtain fs where fs: "fs \<in> set (signed_chain lib key (0, []) rs)"
      "join_with CHR 0x00 (row_fields lib row) = join_with CHR 0x00 fs" by (auto simp: unforged_def)
  have "list_all text_ok fs" using signed_chain_text_ok [OF ok(1) rs _ fs(1)] by (simp add: text_ok_def)
  then have "row_fields lib row = fs"
    using fs row_fields_text_ok [OF ok(1,2) row(1)] canonical_message_inject signed_chain_not_Nil by (metis row_fields_not_Nil(1))
  moreover obtain i where i: "i < length rs" "fs = signed_chain lib key (0, []) rs ! i"
    using fs(1) by (metis in_set_conv_nth length_signed_chain)
  ultimately have "show_int (case ev_seq row of Some n \<Rightarrow> n | None \<Rightarrow> 0) = show_int (int i + 1)"
    using row_fields_seq [of lib row] signed_chain_seq [OF i(1), of lib key "(0, [])"] by (simp add: add.commute)
  then have "ev_seq row = Some (int i + 1)" by (auto split: option.splits)
  then show thesis using that i \<open>row_fields lib row = fs\<close> by blast
qed

text \<open>Rows of an unbroken chain, each standing for the message of its number, stand for a
  stretch of the messages.\<close>

lemma chain_is_stretch:
  assumes "link_breaks rows = []" "rows \<noteq> []"
    and "\<forall>row \<in> set rows. \<exists>i < length ms. f row = ms ! i \<and> ev_seq row = Some (int i + 1)"
  shows "\<exists>m. map f rows = take (length rows) (drop m ms)"
proof -
  have "hd rows \<in> set rows" "hd rows = rows ! 0" using assms(2) by (simp_all add: hd_conv_nth)
  with assms(3) obtain m where m: "ev_seq (rows ! 0) = Some (int m + 1)" by metis
  have at: "m + j < length ms \<and> f (rows ! j) = ms ! (m + j)" if j: "j < length rows" for j
  proof -
    obtain i where i: "i < length ms" "f (rows ! j) = ms ! i" "ev_seq (rows ! j) = Some (int i + 1)"
      using assms(3) j nth_mem by metis
    from link_breaks_seqs [OF assms(1) j] m i(3) have "i = m + j" by simp
    with i show ?thesis by simp
  qed
  have "length rows - 1 < length rows" using assms(2) by (cases rows) simp_all
  from at [OF this] assms(2) have "length rows \<le> length (drop m ms)" by (cases rows) auto
  then have "map f rows = take (length rows) (drop m ms)"
    by (intro nth_equalityI) (use at in auto)
  then show ?thesis ..
qed

text \<open>The signatures in the table are those of the messages signed for the tenant.\<close>

lemma table_signatures:
  assumes "well_spelled lib es" "orderly t table" "tip_or_start t table = chain_end lib (key_for lib signer t) tip rs"
    and "map ev_signature (tenant_rows t table) = map (\<lambda>fs. Some (hex_encode (al_crypto lib)
           (al_hmac lib (key_for lib signer t) (str_bytes (join_with CHR 0x00 fs))))) (signed_chain lib (key_for lib signer t) tip rs)"
  shows "map ev_signature (tenant_rows t (pg_emit_all lib signer es table)) = map (\<lambda>fs. Some (hex_encode (al_crypto lib)
     (al_hmac lib (key_for lib signer t) (str_bytes (join_with CHR 0x00 fs)))))
     (signed_chain lib (key_for lib signer t) tip (rs @ accepted lib signer t es table))"
  using assms
proof (induction es arbitrary: table rs)
  case (Cons e es)
  obtain eid now req where e: "e = (eid, now, req)" by (cases e)
  show ?case
  proof (cases "emit_event lib signer (pg_insert_record lib signer) eid now req table")
    case (Inl x)
    then show ?thesis using Cons by (simp add: e emit_def well_spelled_def)
  next
    case (Inr x)
    obtain table' y where x: "x = (table', y)" by (cases x)
    from Inr x obtain r u row where r: "record_of_request lib eid now req = Inr r" "al_parse_uuid lib (rec_tenant_id r) = Inr u"
        "table' = table @ [row]" "appended lib signer r u (tip_or_start u table) row"
      using pg_emit_event_appends by metis
    have ord: "orderly t table'" using orderly_append [OF Cons.prems(2) r(4)] r(3) by simp
    have spelled: "well_spelled lib es" and tenant: "rec_tenant_id r = u"
      using Cons.prems(1) r record_of_request_fields(3) [OF r(1)] by (auto simp: well_spelled_def e)
    note f = appended_fields [OF r(4)]
    show ?thesis
    proof (cases "u = t")
      case True
      have rows: "tenant_rows t table' = tenant_rows t table @ [row]" using f r(3) True by (simp add: tenant_rows_def)
      then have "tip_or_start t table' = chain_end lib (key_for lib signer t) tip (rs @ [r])"
        using tip_orderly [OF ord] f True tenant Cons.prems(3) by (simp add: chain_end_snoc)
      from Cons.IH [OF spelled ord this] rows f True tenant Cons.prems(3,4) show ?thesis
        using Inr x r by (simp add: e emit_def signed_chain_snoc sign_event_chained_def build_canonical_message_chained_def)
    next
      case False
      have rows: "tenant_rows t table' = tenant_rows t table" using f r(3) False by (simp add: tenant_rows_def)
      then have "tip_or_start t table' = chain_end lib (key_for lib signer t) tip rs"
        using tip_orderly [OF ord] tip_orderly [OF Cons.prems(2)] Cons.prems(3) by simp
      from Cons.IH [OF spelled ord this] rows Cons.prems(4) False show ?thesis using Inr x r by (simp add: e emit_def)
    qed
  qed
qed simp

section \<open>A library to evaluate\<close>

text \<open>The stand-in keeps microseconds and prints addresses with their netmask, as the server
  does; how it authenticates is left open.\<close>

definition demo_audit :: "(bytes \<Rightarrow> bytes \<Rightarrow> bytes) \<Rightarrow> audit_lib" where
  "demo_audit mac = \<lparr>al_crypto = demo_lib, al_hmac = mac,
     al_hex_decode = (\<lambda>s. case demo_b64_decode s of Inr b \<Rightarrow> Some b | Inl _ \<Rightarrow> None),
     al_rfc3339 = show_int, al_parse_rfc3339 = Inl, al_json_text = (\<lambda>_. ''null''), al_json_parse = Inl,
     al_parse_uuid = (\<lambda>s. if text_ok s then Inr s else Inl s), al_timestamptz = (\<lambda>t. t - t mod 1000),
     al_inet = (\<lambda>s. if text_ok s then Some (s @ ''/32'') else None), al_jsonb = Some\<rparr>"

definition demo_emission :: "string \<Rightarrow> datetime \<Rightarrow> string \<Rightarrow> emission" where
  "demo_emission eid now ip =
     (eid, now, \<lparr>ee_tenant_id = ''t'', ee_principal_id = ''p'', ee_action = ''read'', ee_resource = ''r'',
        ee_outcome = ''ok'', ee_outcome_detail = [], ee_details_json = [], ee_client_ip = ip\<rparr>)"

definition demo_emissions :: "emission list" where
  "demo_emissions = [demo_emission ''a'' 0 [], demo_emission ''b'' 0 []]"

abbreviation demo_mac :: audit_lib where
  "demo_mac \<equiv> demo_audit (\<lambda>_ _. [])"

definition demo_event_row :: "string \<Rightarrow> int \<Rightarrow> event_row" where
  "demo_event_row eid n =
     \<lparr>ev_id = eid, ev_tenant_id = ''t'', ev_principal_id = ''p'', ev_action = ''read'', ev_resource = ''r'',
      ev_outcome = ''ok'', ev_outcome_detail = Some [], ev_details = JNull, ev_client_ip = None, ev_signature = Some [],
      ev_timestamp = 0, ev_seq = Some n, ev_prev_hash = Some []\<rparr>"

definition demo_record :: "string \<Rightarrow> datetime \<Rightarrow> string \<Rightarrow> audit_record" where
  "demo_record eid now ip =
     \<lparr>rec_id = eid, rec_tenant_id = ''t'', rec_principal_id = ''p'', rec_action = ''read'', rec_resource = ''r'',
      rec_outcome = ''ok'', rec_outcome_detail = [], rec_details = JNull, rec_client_ip = ip, rec_signature = [],
      rec_timestamp = now, rec_seq = 0, rec_prev_hash = [], rec_verified = None\<rparr>"

lemma text_ok_demo_encode [simp]: "text_ok (demo_b64_encode b)"
proof (induction b)
  case (Cons w b)
  have "nibble_char d \<noteq> CHR 0x00" if "d < 16" for d
  proof
    assume "nibble_char d = CHR 0x00"
    then have "(of_char (nibble_char d) :: nat) = of_char CHR 0x00" by simp
    with that show False by (simp add: nibble_char_def)
  qed
  moreover have "unat w div 16 < 16" "unat w mod 16 < 16" using unsigned_less [of w, where ?'a = nat] by simp_all
  ultimately show ?case using Cons by (auto simp: text_ok_def dest: sym)
qed (simp add: text_ok_def)

lemma demo_audit_ok: "audit_lib_ok (demo_audit mac)"
proof -
  have "demo_b64_decode (demo_b64_encode b) = Inr b" for b
    using demo_lib_ok by (simp add: crypto_ok_def base64_ok_def)
  moreover have "text_ok (s @ ''/32'') = text_ok s" "text_ok ''null''" for s
    by (simp_all add: text_ok_def)
  ultimately show ?thesis by (simp add: audit_lib_ok_def demo_audit_def)
qed

lemma demo_audit_simps [simp]:
  "al_parse_uuid (demo_audit mac) ''t'' = Inr ''t''" "al_rfc3339 (demo_audit mac) = show_int"
  "al_json_text (demo_audit mac) v = ''null''" "al_jsonb (demo_audit mac) = Some"
  "al_timestamptz (demo_audit mac) i = i - i mod 1000" "al_hmac (demo_audit mac) = mac"
  by (simp_all add: demo_audit_def text_ok_def)

lemma demo_sign [simp]: "sign_event_chained demo_mac r key n p = []"
  by (simp add: sign_event_chained_def demo_audit_def)

lemma demo_emit:
  assumes "tip_or_start ''t'' table = (n, [])" "text_ok eid"
  shows "emit_event demo_mac [] (pg_insert_record demo_mac []) eid 0 (snd (snd (demo_emission eid 0 []))) table =
    Inr (table @ [demo_event_row eid (n + 1)], eid)"
  using assms
  by (simp add: emit_event_def record_of_request_def demo_emission_def and_then_def Let_def pg_insert_record_def
      insert_event_chained_def parse_tenant_def record_to_stored_def tip_or_start_def insert_row_def inet_column_def
      client_ip_or_null_def trim_def trim_where_def ok_or_def text_ok_def demo_event_row_def sign_event_def
      split: option.splits)

lemma demo_tips [simp]: "tip_or_start ''t'' [] = (0, [])" "tip_or_start ''t'' [demo_event_row eid 1] = (1, [])"
  by (simp_all add: tip_or_start_def audit_chain_tip_def chain_rows_def demo_event_row_def)

lemma demo_table: "pg_emit_all demo_mac [] demo_emissions [] = [demo_event_row ''a'' 1, demo_event_row ''b'' 2]"
  using demo_emit [of "[]" 0 "''a''"] demo_emit [of "[demo_event_row ''a'' 1]" 1 "''b''"]
  by (simp add: demo_emissions_def emit_def demo_emission_def text_ok_def)

lemma demo_request:
  "record_of_request (demo_audit mac) eid now (snd (snd (demo_emission eid i ip))) = Inr (demo_record eid now ip)"
  by (simp add: record_of_request_def demo_emission_def demo_record_def and_then_def)

lemma demo_accepted: "accepted demo_mac [] ''t'' demo_emissions [] = [demo_record ''a'' 0 [], demo_record ''b'' 0 []]"
  using demo_emit [of "[]" 0 "''a''"] demo_emit [of "[demo_event_row ''a'' 1]" 1 "''b''"]
  by (simp add: demo_emissions_def demo_emission_def text_ok_def record_of_request_def and_then_def demo_record_def)

section \<open>Properties\<close>

text \<open>C31. The audit log shows every change but the loss of its ends: if a tenant's log, as
  someone with access to the table but not to the key has left it, passes the signature
  checks and the check of the chain, then what it holds is an uninterrupted stretch of
  what the service signed for that tenant, nothing edited, added, reordered or missing
  in between.\<close>

theorem tampering_detected:
  assumes "audit_lib_ok lib" "well_spelled lib es" "al_parse_uuid lib t = Inr t"
    and "rows_ok table" "length table < 2 ^ 31"
    and "unforged lib (key_for lib signer t)
           (signed_chain lib (key_for lib signer t) (0, []) (accepted lib signer t es [])) t table"
    and passes: "log_passes lib signer t table"
  shows "\<exists>m k. mset (map (row_fields lib) (filter (\<lambda>r. ev_tenant_id r = t) table)) =
    mset (take k (drop m (signed_chain lib (key_for lib signer t) (0, []) (accepted lib signer t es []))))"
proof -
  let ?rs = "accepted lib signer t es []" let ?key = "key_for lib signer t"
  let ?ms = "signed_chain lib ?key (0, []) ?rs" let ?rows = "chain_rows t table"
  have rs: "\<forall>r \<in> set ?rs. rec_tenant_id r = t \<and> text_ok (rec_id r) \<and> text_ok t \<and> (\<exists>tip row. appended lib signer r t tip row)"
    using accepted_records [OF assms(1,2)] by blast
  have breaks: "link_breaks ?rows = []" and verified: "\<And>row. row \<in> set table \<Longrightarrow> ev_tenant_id row = t \<Longrightarrow> row_verifies lib ?key row"
    using log_passes_iff [OF assms(3,5)] passes by (auto simp: chain_breaks_sql_def)
  have stands: "\<exists>i < length ?ms. row_fields lib row = ?ms ! i \<and> ev_seq row = Some (int i + 1)"
    if "row \<in> set table" "ev_tenant_id row = t" for row
    using verified_row_signed [OF assms(1,4,6) rs that verified [OF that]] by (metis length_signed_chain)
  have "filter (\<lambda>r. ev_tenant_id r = t) table = filter (\<lambda>r. ev_tenant_id r = t \<and> ev_seq r \<noteq> None) table"
    using stands by (intro filter_cong) auto
  then have "mset (filter (\<lambda>r. ev_tenant_id r = t) table) = mset ?rows" by (simp add: chain_rows_def)
  then have eq: "mset (map (row_fields lib) (filter (\<lambda>r. ev_tenant_id r = t) table)) = mset (map (row_fields lib) ?rows)"
    by (metis mset_map)
  show ?thesis
  proof (cases "?rows = []")
    case True
    then show ?thesis using eq by (intro exI [of _ 0]) simp
  next
    case False
    have "\<forall>row \<in> set ?rows. \<exists>i < length ?ms. row_fields lib row = ?ms ! i \<and> ev_seq row = Some (int i + 1)"
      using stands by (auto simp: chain_rows_def)
    from chain_is_stretch [OF breaks False this] eq show ?thesis by metis
  qed
qed

theorem tampering_detected_witness:
  "\<exists>m k. mset (map (row_fields demo_mac) (filter (\<lambda>r. ev_tenant_id r = ''t'') [demo_event_row ''b'' 2])) =
    mset (take k (drop m (signed_chain demo_mac (key_for demo_mac [] ''t'') (0, [])
      (accepted demo_mac [] ''t'' demo_emissions []))))"
proof (rule tampering_detected [OF demo_audit_ok])
  let ?row = "demo_event_row ''b'' 2" let ?key = "key_for demo_mac [] ''t''"
  show "well_spelled demo_mac demo_emissions"
    by (auto simp: well_spelled_def demo_emissions_def demo_emission_def text_ok_def)
  show t: "al_parse_uuid demo_mac ''t'' = Inr ''t''" by simp
  show "rows_ok [?row]" by (simp add: rows_ok_def demo_event_row_def text_ok_def)
  show len: "length [?row] < 2 ^ 31" by simp
  have "row_fields demo_mac ?row = canonical_fields demo_mac (demo_record ''b'' 0 []) 2 []"
    by (simp add: row_fields_def demo_event_row_def event_of_row_def stored_to_record_def canonical_fields_def demo_record_def)
  then show "unforged demo_mac ?key (signed_chain demo_mac ?key (0, []) (accepted demo_mac [] ''t'' demo_emissions [])) ''t'' [?row]"
    by (simp add: unforged_def demo_accepted)
  have "row_verifies demo_mac ?key ?row"
    by (simp add: row_verifies_def checked_record_def verify_signature_def stored_to_record_def event_of_row_def
        demo_event_row_def demo_audit_def)
  then show "log_passes demo_mac [] ''t'' [?row]"
    using log_passes_iff [OF t len] by (simp add: chain_breaks_sql_def chain_rows_def)
qed

text \<open>C32. The loss of the ends of the log goes unnoticed: if a tenant's log, whatever was logged
  before, passes the signature checks and the check of the chain, then it still passes
  all of them after the tenant's oldest and newest records have been removed and any
  further events have been emitted whose own columns give back what was signed; and
  whatever the further events are, the check of the chain reports no break.\<close>

theorem truncation_unnoticed:
  assumes "audit_lib_ok lib" "al_parse_uuid lib t = Inr t"
    and "length (pg_emit_all lib signer es []) < 2 ^ 31" "log_passes lib signer t (pg_emit_all lib signer es [])"
    and "length (pg_emit_all lib signer later (cut t m k (pg_emit_all lib signer es []))) < 2 ^ 31"
    and "list_all (reads_back lib) later"
  shows "log_passes lib signer t (pg_emit_all lib signer later (cut t m k (pg_emit_all lib signer es []))) \<and>
    pg_chain_breaks lib t (pg_emit_all lib signer any (cut t m k (pg_emit_all lib signer es []))) = Inr []"
proof
  let ?table = "pg_emit_all lib signer es []"
  have orderly: "orderly t (pg_emit_all lib signer later (cut t m k ?table))" for later
    by (intro orderly_emit_all orderly_cut) simp
  have old: "\<forall>row \<in> set (cut t m k ?table). ev_tenant_id row = t \<longrightarrow> row_verifies lib (key_for lib signer t) row"
    using assms(4) unfolding log_passes_iff [OF assms(2,3)] by (auto simp: cut_def)
  show "log_passes lib signer t (pg_emit_all lib signer later (cut t m k ?table))"
    unfolding log_passes_iff [OF assms(2,5)]
    using orderly_breaks [OF orderly] old emitted_verifies [OF assms(1,6)] by blast
  show "pg_chain_breaks lib t (pg_emit_all lib signer any (cut t m k ?table)) = Inr []"
    using orderly_breaks [OF orderly] assms(2)
    by (simp add: pg_chain_breaks_def audit_chain_breaks_def parse_tenant_def and_then_def)
qed

theorem truncation_unnoticed_witness:
  "pg_emit_all demo_mac [] demo_emissions [] = [demo_event_row ''a'' 1, demo_event_row ''b'' 2] \<and>
   log_passes demo_mac [] ''t'' (pg_emit_all demo_mac [] [demo_emission ''b'' 0 []]
     (cut ''t'' 0 1 (pg_emit_all demo_mac [] demo_emissions [])))"
proof -
  let ?later = "[demo_emission ''b'' 0 []]"
  have "row_verifies demo_mac (key_for demo_mac [] ''t'') (demo_event_row eid n)" for eid n
    by (simp add: row_verifies_def checked_record_def verify_signature_def stored_to_record_def event_of_row_def
        demo_event_row_def demo_audit_def)
  then have passes: "log_passes demo_mac [] ''t'' (pg_emit_all demo_mac [] demo_emissions [])"
    unfolding demo_table
    by (subst log_passes_iff)
      (auto simp: chain_breaks_sql_def chain_rows_def demo_event_row_def link_break_def)
  have len: "length (pg_emit_all demo_mac [] demo_emissions []) < 2 ^ 31"
    by (simp add: demo_table)
  have same: "list_all (reads_back demo_mac) ?later"
    by (simp add: demo_emission_def record_of_request_def and_then_def trim_def trim_where_def)
  have later: "length (pg_emit_all demo_mac [] ?later (cut ''t'' 0 1 (pg_emit_all demo_mac [] demo_emissions []))) < 2 ^ 31"
  proof -
    have "cut ''t'' 0 1 (pg_emit_all demo_mac [] demo_emissions []) = [demo_event_row ''a'' 1]"
      unfolding demo_table by (simp add: cut_def demo_event_row_def)
    with demo_emit [of "[demo_event_row ''a'' 1]" 1 "''b''"] show ?thesis
      by (simp add: emit_def demo_emission_def text_ok_def)
  qed
  show ?thesis
    using truncation_unnoticed [OF demo_audit_ok _ len passes later same] demo_table by simp
qed

text \<open>C33. When a stored event verifies: an event that was accepted for a tenant is found intact
  when it is read back exactly if the columns gave back the very timestamp, client
  address and details that were signed. A timestamp with a part below the microsecond,
  or a client address that the server prints with its netmask, makes an event nobody
  has touched count as modified.\<close>

theorem stored_event_verifies_iff:
  assumes "audit_lib_ok lib" "inj (al_rfc3339 lib)" "al_parse_uuid lib t = Inr t" "text_ok eid"
    and "ee_tenant_id req = t" "text_ok (snd (tip_or_start t table))"
    and "emit_event lib signer (pg_insert_record lib signer) eid now req table = Inr (table', x)"
    and "record_of_request lib eid now req = Inr r"
    and "al_hmac lib (key_for lib signer t) (str_bytes (join_with CHR 0x00 (row_fields lib (last table')))) =
         al_hmac lib (key_for lib signer t) (str_bytes (build_canonical_message_chained lib r
           (fst (tip_or_start t table) + 1) (snd (tip_or_start t table)))) \<longrightarrow>
         join_with CHR 0x00 (row_fields lib (last table')) =
         build_canonical_message_chained lib r (fst (tip_or_start t table) + 1) (snd (tip_or_start t table))"
  shows "row_verifies lib (key_for lib signer t) (last table') \<longleftrightarrow>
    al_timestamptz lib now = now \<and>
    (if trim (ee_client_ip req) = [] then ee_client_ip req = []
     else al_inet lib (trim (ee_client_ip req)) = Some (ee_client_ip req)) \<and>
    map_option (al_json_text lib) (al_jsonb lib (rec_details r)) = Some (al_json_text lib (rec_details r))"
proof -
  let ?tip = "tip_or_start t table" let ?key = "key_for lib signer t"
  note rf = record_of_request_fields [OF assms(8)]
  from assms(7,8) rf assms(3,5) obtain row where row: "table' = table @ [row]" "appended lib signer r t ?tip row"
    using pg_emit_event_appends by (metis sum.inject(2))
  then obtain details ip where new: "al_jsonb lib (rec_details r) = Some details"
      "inet_column lib (client_ip_or_null (rec_client_ip r)) = Inr ip" "row = new_row lib signer r t ?tip details ip"
    by (auto simp: appended_def)
  let ?signed = "canonical_fields lib r (fst ?tip + 1) (snd ?tip)"
  have tenant: "text_ok t" using assms(1,3) by (auto simp: audit_lib_ok_def)
  have signed_ok: "list_all text_ok ?signed"
    using accepted_text_ok [OF assms(1) row(2)] rf assms(4,5,6) tenant by simp
  have ip_ok: "text_ok (case ip of Some s \<Rightarrow> s | None \<Rightarrow> [])"
    using new(2) assms(1) by (auto simp: inet_column_def audit_lib_ok_def text_ok_def split: option.splits)
  have read: "row_fields lib row = ?signed[7 := (case ip of Some s \<Rightarrow> s | None \<Rightarrow> []),
      8 := al_rfc3339 lib (al_timestamptz lib now), 9 := al_json_text lib details]"
    using new(3) rf assms(5) by (simp add: row_fields_def stored_to_record_def event_of_row_def new_row_def canonical_fields_def Let_def)
  have "list_all text_ok (row_fields lib row)"
    using signed_ok ip_ok assms(1) unfolding read by (simp add: canonical_fields_def audit_lib_ok_def)
  then have "join_with CHR 0x00 (row_fields lib row) = join_with CHR 0x00 ?signed \<longleftrightarrow> row_fields lib row = ?signed"
    using canonical_message_inject signed_ok row_fields_not_Nil by metis
  moreover have "row_verifies lib ?key row \<longleftrightarrow>
      join_with CHR 0x00 (row_fields lib row) = join_with CHR 0x00 ?signed"
    using assms(1,9) row(1) new(3) rf(3) assms(5)
    by (auto simp: row_verifies_def checked_record_def verify_signature_def row_fields_def stored_to_record_def event_of_row_def
        new_row_def sign_event_chained_def build_canonical_message_chained_def Let_def audit_lib_ok_def)
  moreover have "row_fields lib row = ?signed \<longleftrightarrow> (case ip of Some s \<Rightarrow> s | None \<Rightarrow> []) = rec_client_ip r \<and>
      al_timestamptz lib now = now \<and> al_json_text lib details = al_json_text lib (rec_details r)"
    using rf(2) inj_eq [OF assms(2)] unfolding read by (auto simp: canonical_fields_def)
  moreover have "(case ip of Some s \<Rightarrow> s | None \<Rightarrow> []) = rec_client_ip r \<longleftrightarrow>
      (if trim (ee_client_ip req) = [] then ee_client_ip req = []
       else al_inet lib (trim (ee_client_ip req)) = Some (ee_client_ip req))"
    using new(2) rf(4) by (auto simp: inet_column_def client_ip_or_null_def Let_def split: option.splits if_splits)
  ultimately show ?thesis using row(1) new(1) by auto
qed

theorem stored_event_verifies_iff_witness:
  "\<exists>table x. emit_event (demo_audit (\<lambda>k m. m)) [] (pg_insert_record (demo_audit (\<lambda>k m. m)) []) ''a'' 5
       (snd (snd (demo_emission ''a'' 5 []))) [] = Inr (table, x) \<and>
     \<not> row_verifies (demo_audit (\<lambda>k m. m)) (key_for (demo_audit (\<lambda>k m. m)) [] ''t'') (last table)"
proof -
  let ?lib = "demo_audit (\<lambda>k m. m)" let ?req = "snd (snd (demo_emission ''a'' 5 []))"
  have "\<not> isl (emit_event ?lib [] (pg_insert_record ?lib []) ''a'' 5 ?req [])"
    using demo_tips(1) signed_text_ok [OF demo_audit_ok]
    by (simp add: emit_event_def demo_request and_then_def Let_def pg_insert_record_def demo_record_def
        insert_event_chained_def parse_tenant_def record_to_stored_def tip_or_start_def insert_row_def inet_column_def
        client_ip_or_null_def trim_def trim_where_def ok_or_def text_ok_def split: option.splits)
  then obtain table x where e: "emit_event ?lib [] (pg_insert_record ?lib []) ''a'' 5 ?req [] = Inr (table, x)"
    by (cases "emit_event ?lib [] (pg_insert_record ?lib []) ''a'' 5 ?req []") auto
  have lib: "inj (al_rfc3339 ?lib)" "ee_tenant_id ?req = ''t''" "al_timestamptz ?lib 5 \<noteq> 5"
    by (auto simp: demo_emission_def intro: injI)
  have "\<not> row_verifies ?lib (key_for ?lib [] ''t'') (last table)"
    using stored_event_verifies_iff [OF demo_audit_ok lib(1) _ _ lib(2) _ e demo_request] lib(3)
    by (simp add: text_ok_def)
  with e show ?thesis by blast
qed

end
