(* ===== verification/Token_Auth.thy ===== *)
theory Token_Auth
  imports Envelope
begin

text \<open>
  Who is calling: \<^verbatim>\<open>crates/wslvault-core/src/auth.rs\<close>, by which every service resolves the
  identity behind a request, and the list of revoked tokens
  (\<^verbatim>\<open>crates/wslvault-storage/src/revocation_store.rs\<close>, \<^verbatim>\<open>020_token_revocation.sql\<close>).

  The library for JSON web tokens, SHA-256, hex and base64 are parameters, as are the
  environment variables, the clock, and what the endpoint that publishes keys answers. A
  header map has lower-case names; of several values the first counts. The key cache is
  the state. Messages that quote a key id omit the escapes of Rust's debug format.
\<close>

section \<open>Tokens\<close>

datatype jwt_alg = EdDSA | HS256 | OtherAlg string

record jwt_header =
  jh_alg :: jwt_alg
  jh_kid :: "string option"

record token_claims =
  tc_sub :: string
  tc_tenant_id :: string
  tc_policies :: "string list"
  tc_superuser :: bool
  tc_exp :: int

text \<open>Decoding checks the signature under a key and the expiry at a time in seconds.\<close>

record jwt_lib =
  jw_decode_header :: "string \<Rightarrow> string + jwt_header"
  jw_decode :: "jwt_alg \<Rightarrow> bytes \<Rightarrow> int \<Rightarrow> string \<Rightarrow> string + token_claims"

record identity =
  id_tenant_id :: string
  id_principal_id :: string
  id_policies :: "string list"
  id_expires_at :: "int option"
  id_superuser :: bool

section \<open>Headers\<close>

type_synonym header_map = "(string \<times> string) list"

definition visible_ascii :: "char \<Rightarrow> bool" where
  "visible_ascii ch \<longleftrightarrow> (let n = (of_char ch :: nat) in (32 \<le> n \<and> n < 127) \<or> n = 9)"

definition header_value :: "header_map \<Rightarrow> string \<Rightarrow> string option" where
  "header_value headers name =
     (case map_of headers name of
        None \<Rightarrow> None
      | Some v \<Rightarrow> if list_all visible_ascii v \<and> v \<noteq> [] then Some v else None)"

definition gateway_headers_trusted :: "(string \<Rightarrow> string option) \<Rightarrow> bool" where
  "gateway_headers_trusted var \<longleftrightarrow>
     map to_lower_char (trim (case var ''VAULT_TRUST_GATEWAY_HEADERS'' of Some s \<Rightarrow> s | None \<Rightarrow> [])) \<in>
       {''true'', ''1'', ''yes''}"

definition split_csv :: "string option \<Rightarrow> string list" where
  "split_csv raw = (case raw of None \<Rightarrow> [] | Some s \<Rightarrow> filter (\<lambda>p. p \<noteq> []) (map trim (split_on CHR '','' s)))"

definition extract_token :: "header_map \<Rightarrow> string option" where
  "extract_token headers =
     (case header_value headers ''x-vault-token'' of
        Some t \<Rightarrow> Some t
      | None \<Rightarrow>
          (case header_value headers ''authorization'' of
             None \<Rightarrow> None
           | Some a \<Rightarrow>
               (case (case strip_prefix ''Bearer '' a of Some t \<Rightarrow> Some t | None \<Rightarrow> strip_prefix ''bearer '' a) of
                  None \<Rightarrow> None
                | Some t \<Rightarrow> let t = trim t in if t = [] then None else Some t)))"

section \<open>Published keys\<close>

record jwks_cache =
  jc_keys :: "(string, bytes) hash_map"
  jc_last_fetch :: "datetime option"

record auth_env =
  ax_var :: "string \<Rightarrow> string option"
  ax_now :: datetime
  ax_jwt :: jwt_lib
  ax_b64url :: "string \<Rightarrow> bytes option"
  ax_fetch :: "string \<Rightarrow> string + (string \<times> string) list"
  ax_revocation :: "(string \<Rightarrow> string + bool) option"

definition now_secs :: "auth_env \<Rightarrow> int" where
  "now_secs env = ax_now env div 1000000000"

definition JWKS_MIN_REFETCH :: int where
  "JWKS_MIN_REFETCH = 10 * 1000000000"

text \<open>An entry that is not 32 bytes of base64 is skipped.\<close>

definition insert_jwk :: "auth_env \<Rightarrow> string \<times> string \<Rightarrow> (string, bytes) hash_map \<Rightarrow> (string, bytes) hash_map" where
  "insert_jwk env entry keys =
     (case ax_b64url env (snd entry) of
        Some raw \<Rightarrow> if length raw = 32 then hm_insert (fst entry) raw keys else keys
      | None \<Rightarrow> keys)"

definition refresh :: "auth_env \<Rightarrow> jwks_cache \<Rightarrow> jwks_cache \<times> (string + unit)" where
  "refresh env cache =
     (case ax_var env ''VAULT_JWKS_URL'' of
        None \<Rightarrow> (cache, Inl ''VAULT_JWKS_URL is not configured; per-tenant token verification is unavailable'')
      | Some url \<Rightarrow>
          if (case jc_last_fetch cache of Some t \<Rightarrow> ax_now env - t < JWKS_MIN_REFETCH | None \<Rightarrow> False)
          then (cache, Inr ())
          else let cache = cache\<lparr>jc_last_fetch := Some (ax_now env)\<rparr>
               in case ax_fetch env url of
                    Inl e \<Rightarrow> (cache, Inl e)
                  | Inr entries \<Rightarrow> (cache\<lparr>jc_keys := fold (insert_jwk env) entries (jc_keys cache)\<rparr>, Inr ()))"

definition public_key_for :: "auth_env \<Rightarrow> jwks_cache \<Rightarrow> string \<Rightarrow> jwks_cache \<times> (string + bytes)" where
  "public_key_for env cache kid =
     (case hm_get (jc_keys cache) kid of
        Some k \<Rightarrow> (cache, Inr k)
      | None \<Rightarrow>
          (case refresh env cache of
             (cache, Inl e) \<Rightarrow> (cache, Inl e)
           | (cache, Inr _) \<Rightarrow>
               (cache, ok_or (''token signed by an unknown key '' @ [CHR 0x22] @ kid @ [CHR 0x22]) (hm_get (jc_keys cache) kid))))"

section \<open>Verification\<close>

text \<open>The errors of the token library enter with the prefix the code gives them.\<close>

definition decode_with :: "auth_env \<Rightarrow> jwt_alg \<Rightarrow> bytes \<Rightarrow> string \<Rightarrow> string + token_claims" where
  "decode_with env alg key token =
     (case jw_decode (ax_jwt env) alg key (now_secs env) token of
        Inr claims \<Rightarrow> Inr claims | Inl e \<Rightarrow> Inl (''invalid token: '' @ e))"

definition verify_token :: "auth_env \<Rightarrow> string \<Rightarrow> string + token_claims" where
  "verify_token env token =
     (case ax_var env ''VAULT_JWT_SECRET'' of
        None \<Rightarrow> Inl ''VAULT_JWT_SECRET is not configured; token authentication is unavailable''
      | Some secret \<Rightarrow>
          if secret = [] then Inl ''VAULT_JWT_SECRET is empty; token authentication is unavailable''
          else decode_with env HS256 (str_bytes secret) token)"

definition verify_token_async :: "auth_env \<Rightarrow> jwks_cache \<Rightarrow> string \<Rightarrow> jwks_cache \<times> (string + token_claims)" where
  "verify_token_async env cache token =
     (case jw_decode_header (ax_jwt env) token of
        Inl e \<Rightarrow> (cache, Inl (''malformed token header: '' @ e))
      | Inr header \<Rightarrow>
          (case jh_alg header of
             EdDSA \<Rightarrow>
               (case jh_kid header of
                  None \<Rightarrow> (cache, Inl ''EdDSA token carries no kid'')
                | Some kid \<Rightarrow>
                    (case public_key_for env cache kid of
                       (cache, Inl e) \<Rightarrow> (cache, Inl e)
                     | (cache, Inr public_key) \<Rightarrow> (cache, decode_with env EdDSA public_key token)))
           | HS256 \<Rightarrow> (cache, verify_token env token)
           | OtherAlg other \<Rightarrow> (cache, Inl (''unsupported token algorithm '' @ other))))"

definition is_token_revoked :: "auth_env \<Rightarrow> string \<Rightarrow> string + bool" where
  "is_token_revoked env token = (case ax_revocation env of Some checker \<Rightarrow> checker token | None \<Rightarrow> Inr False)"

definition header_identity :: "header_map \<Rightarrow> string \<Rightarrow> string \<Rightarrow> string \<Rightarrow> identity" where
  "header_identity headers tenant principal_header policies_header =
     \<lparr>id_tenant_id = tenant,
      id_principal_id = (case header_value headers principal_header of Some p \<Rightarrow> p | None \<Rightarrow> ''anonymous''),
      id_policies = split_csv (header_value headers policies_header), id_expires_at = None, id_superuser = False\<rparr>"

definition claims_identity :: "token_claims \<Rightarrow> identity" where
  "claims_identity claims =
     \<lparr>id_tenant_id = tc_tenant_id claims, id_principal_id = tc_sub claims, id_policies = tc_policies claims,
      id_expires_at = Some (tc_exp claims), id_superuser = tc_superuser claims\<rparr>"

definition resolve_identity :: "auth_env \<Rightarrow> jwks_cache \<Rightarrow> header_map \<Rightarrow> jwks_cache \<times> (string + identity)" where
  "resolve_identity env cache headers =
     (let trust_headers = gateway_headers_trusted (ax_var env)
      in case (if trust_headers then header_value headers ''x-tenant-id'' else None) of
           Some tenant \<Rightarrow> (cache, Inr (header_identity headers tenant ''x-principal-id'' ''x-policies''))
         | None \<Rightarrow>
      case (if trust_headers then header_value headers ''x-vault-tenant-id'' else None) of
           Some tenant \<Rightarrow> (cache, Inr (header_identity headers tenant ''x-vault-principal-id'' ''x-vault-policies''))
         | None \<Rightarrow>
      case extract_token headers of
           None \<Rightarrow> (cache, Inl ''missing authentication: supply X-Vault-Token, or X-Tenant-Id when behind the gateway'')
         | Some token \<Rightarrow>
             (case verify_token_async env cache token of
                (cache, Inl e) \<Rightarrow> (cache, Inl e)
              | (cache, Inr claims) \<Rightarrow>
                  (case ax_revocation env of
                     None \<Rightarrow> (cache, Inr (claims_identity claims))
                   | Some checker \<Rightarrow>
                       (case checker token of
                          Inr True \<Rightarrow> (cache, Inl ''token has been revoked'')
                        | Inr False \<Rightarrow> (cache, Inr (claims_identity claims))
                        | Inl e \<Rightarrow> (cache, Inl e)))))"

section \<open>Acting across tenants\<close>

definition act_as_tenant :: "identity \<Rightarrow> header_map \<Rightarrow> string \<times> bool" where
  "act_as_tenant identity headers =
     (if \<not> id_superuser identity then (id_tenant_id identity, False)
      else case header_value headers ''x-vault-act-tenant'' of
             Some t \<Rightarrow> if t \<noteq> id_tenant_id identity then (t, True) else (id_tenant_id identity, False)
           | None \<Rightarrow> (id_tenant_id identity, False))"

definition admin_policy_name :: "(string \<Rightarrow> string option) \<Rightarrow> string" where
  "admin_policy_name var =
     (case var ''VAULT_ADMIN_POLICY'' of
        Some s \<Rightarrow> if s = [] then ''wslvault:platform-admin'' else s
      | None \<Rightarrow> ''wslvault:platform-admin'')"

definition is_platform_admin :: "(string \<Rightarrow> string option) \<Rightarrow> identity \<Rightarrow> bool" where
  "is_platform_admin var identity \<longleftrightarrow>
     id_superuser identity \<or> admin_policy_name var \<in> set (id_policies identity)"

section \<open>Revoked tokens\<close>

record revoked_token =
  rt_token_hash :: string
  rt_tenant_id :: string
  rt_principal_id :: string
  rt_expires_at :: datetime
  rt_revoked_at :: datetime

record hash_lib =
  hl_sha256_hex :: "bytes \<Rightarrow> string"
  hl_from_timestamp :: "int \<Rightarrow> datetime option"

definition token_hash :: "hash_lib \<Rightarrow> string \<Rightarrow> string" where
  "token_hash lib token = hl_sha256_hex lib (str_bytes token)"

definition is_ascii_hexdigit :: "char \<Rightarrow> bool" where
  "is_ascii_hexdigit ch \<longleftrightarrow>
     (let n = (of_char ch :: nat) in (48 \<le> n \<and> n \<le> 57) \<or> (65 \<le> n \<and> n \<le> 70) \<or> (97 \<le> n \<and> n \<le> 102))"

text \<open>\<^verbatim>\<open>INSERT ... ON CONFLICT (token_hash) DO NOTHING\<close>.\<close>

definition insert_revocation :: "revoked_token \<Rightarrow> revoked_token list \<Rightarrow> revoked_token list" where
  "insert_revocation row table =
     (if list_ex (\<lambda>r. rt_token_hash r = rt_token_hash row) table then table else table @ [row])"

definition revoke_by_hash_unchecked ::
  "hash_lib \<Rightarrow> datetime \<Rightarrow> string \<Rightarrow> string \<Rightarrow> string \<Rightarrow> int \<Rightarrow> revoked_token list \<Rightarrow> vault_error + revoked_token list" where
  "revoke_by_hash_unchecked lib now hash tenant_id principal_id expires_at_unix table =
     (case hl_from_timestamp lib expires_at_unix of
        None \<Rightarrow> Inl (ValidationError ''expires_at''
                  (''token exp '' @ show_int expires_at_unix @ '' is not a representable timestamp''))
      | Some expires_at \<Rightarrow>
          Inr (insert_revocation \<lparr>rt_token_hash = hash, rt_tenant_id = tenant_id, rt_principal_id = principal_id,
                 rt_expires_at = expires_at, rt_revoked_at = now\<rparr> table))"

definition revoke ::
  "hash_lib \<Rightarrow> datetime \<Rightarrow> string \<Rightarrow> string \<Rightarrow> string \<Rightarrow> int \<Rightarrow> revoked_token list \<Rightarrow> vault_error + revoked_token list" where
  "revoke lib now token tenant_id principal_id expires_at_unix table =
     revoke_by_hash_unchecked lib now (token_hash lib token) tenant_id principal_id expires_at_unix table"

definition revoke_by_hash ::
  "hash_lib \<Rightarrow> datetime \<Rightarrow> string \<Rightarrow> string \<Rightarrow> string \<Rightarrow> int \<Rightarrow> revoked_token list \<Rightarrow> vault_error + revoked_token list" where
  "revoke_by_hash lib now hash tenant_id principal_id expires_at_unix table =
     (if length hash \<noteq> 64 \<or> \<not> list_all is_ascii_hexdigit hash
      then Inl (ValidationError ''token_hash'' ''token_hash must be 64 hex characters (SHA-256)'')
      else revoke_by_hash_unchecked lib now hash tenant_id principal_id expires_at_unix table)"

definition is_revoked :: "hash_lib \<Rightarrow> datetime \<Rightarrow> string \<Rightarrow> revoked_token list \<Rightarrow> bool" where
  "is_revoked lib now token table \<longleftrightarrow>
     list_ex (\<lambda>r. rt_token_hash r = token_hash lib token \<and> rt_expires_at r > now) table"

definition reap_expired :: "datetime \<Rightarrow> revoked_token list \<Rightarrow> revoked_token list \<times> nat" where
  "reap_expired now table =
     (filter (\<lambda>r. \<not> rt_expires_at r < now) table, length (filter (\<lambda>r. rt_expires_at r < now) table))"

text \<open>The checker that a service with a database installs; without a table the query fails.\<close>

definition revocation_checker :: "hash_lib \<Rightarrow> datetime \<Rightarrow> revoked_token list option \<Rightarrow> string \<Rightarrow> string + bool" where
  "revocation_checker lib now db token =
     (case db of Some table \<Rightarrow> Inr (is_revoked lib now token table) | None \<Rightarrow> Inl ''token revocation list is unavailable'')"

section \<open>Lemmas\<close>

lemma resolve_by_token:
  assumes "\<not> gateway_headers_trusted (ax_var env)"
  shows "resolve_identity env cache headers =
    (case extract_token headers of
       None \<Rightarrow> (cache, Inl ''missing authentication: supply X-Vault-Token, or X-Tenant-Id when behind the gateway'')
     | Some token \<Rightarrow>
         (case verify_token_async env cache token of
            (cache, Inl e) \<Rightarrow> (cache, Inl e)
          | (cache, Inr claims) \<Rightarrow>
              (cache, case is_token_revoked env token of
                        Inr True \<Rightarrow> Inl ''token has been revoked''
                      | Inr False \<Rightarrow> Inr (claims_identity claims) | Inl e \<Rightarrow> Inl e)))"
  using assms
  by (auto simp: resolve_identity_def is_token_revoked_def Let_def split: option.splits sum.splits prod.splits bool.splits)

lemma insert_jwk_other: "fst e \<noteq> kid \<Longrightarrow> hm_get (insert_jwk env e keys) kid = hm_get keys kid"
  by (auto simp: insert_jwk_def split: option.splits)

lemma fold_insert_jwk_absent:
  "kid \<notin> fst ` set entries \<Longrightarrow> hm_get (fold (insert_jwk env) entries keys) kid = hm_get keys kid"
  by (induction entries arbitrary: keys) (auto simp: insert_jwk_other)

lemma fold_insert_jwk:
  assumes "distinct (map fst entries)" "(kid, x) \<in> set entries" "ax_b64url env x = Some raw" "length raw = 32"
  shows "hm_get (fold (insert_jwk env) entries keys) kid = Some raw"
  using assms(1,2)
proof (induction entries arbitrary: keys)
  case (Cons e entries)
  show ?case
  proof (cases "e = (kid, x)")
    case True
    then have "hm_get (fold (insert_jwk env) entries (insert_jwk env e keys)) kid = hm_get (insert_jwk env e keys) kid"
      using Cons.prems(1) by (intro fold_insert_jwk_absent) auto
    with True assms(3,4) show ?thesis by (simp add: insert_jwk_def [of env "(kid, x)" keys])
  next
    case False
    then show ?thesis using Cons by simp
  qed
qed simp

text \<open>A service that has not fetched yet learns every published key it is asked for.\<close>

lemma public_key_fetched:
  assumes "ax_var env ''VAULT_JWKS_URL'' = Some url" "ax_fetch env url = Inr entries" "distinct (map fst entries)"
    and "(kid, x) \<in> set entries" "ax_b64url env x = Some raw" "length raw = 32"
  shows "\<exists>cache. public_key_for env \<lparr>jc_keys = [], jc_last_fetch = None\<rparr> kid = (cache, Inr raw)"
  using fold_insert_jwk [OF assms(3-6)] assms(1,2) by (simp add: public_key_for_def refresh_def Let_def)

lemma revoked_insert:
  assumes "\<forall>r \<in> set table. rt_token_hash r \<noteq> rt_token_hash row"
  shows "insert_revocation row table = table @ [row]"
  using assms by (auto simp: insert_revocation_def list_ex_iff)

text \<open>Further revocations and the reaper keep a revocation that has not run out.\<close>

lemma kept_by_insert: "row \<in> set table \<Longrightarrow> row \<in> set (insert_revocation row' table)"
  by (simp add: insert_revocation_def)

lemma kept_by_reaper: "row \<in> set table \<Longrightarrow> now \<le> rt_expires_at row \<Longrightarrow> row \<in> set (fst (reap_expired now table))"
  by (simp add: reap_expired_def)

end
