(* ===== verification/Token_Signing.thy ===== *)
theory Token_Signing
  imports Token_Auth
begin

text \<open>
  How the identity-service issues, verifies and revokes tokens:
  \<^verbatim>\<open>services/identity-service/src/token.rs\<close>, \<^verbatim>\<open>signing_keys.rs\<close> over
  \<^verbatim>\<open>crates/wslvault-storage/src/signing_key_store.rs\<close> and \<^verbatim>\<open>024_tenant_signing_keys.sql\<close>, and
  the procedures \<^verbatim>\<open>RevokeToken\<close> and \<^verbatim>\<open>RevokeTokenByHash\<close> of \<^verbatim>\<open>grpc.rs\<close>; and what that means for
  the services that resolve identities with \<open>Token_Auth\<close>.

  Encoding and signing of tokens and key pairs are parameters; wrapping and unwrapping a
  private key are answers of the crypto-service and enter as arguments.
\<close>

section \<open>Issuing and validating\<close>

record issued_claims = token_claims +
  ic_iss :: string
  ic_aud :: string
  ic_iat :: int

record token_lib =
  tk_jwt :: jwt_lib
  tk_encode :: "jwt_header \<Rightarrow> issued_claims \<Rightarrow> bytes \<Rightarrow> string + string"
  tk_validate :: "string \<Rightarrow> string \<Rightarrow> bytes \<Rightarrow> int \<Rightarrow> string \<Rightarrow> string + issued_claims"
  tk_public_of :: "bytes \<Rightarrow> bytes option"
  tk_b64url_encode :: "bytes \<Rightarrow> string"
  tk_b64url_decode :: "string \<Rightarrow> string + bytes"
  tk_hash :: hash_lib

record token_manager =
  tm_secret :: bytes
  tm_issuer :: string
  tm_audience :: string

text \<open>The times are in seconds.\<close>

definition issue_token_with_key ::
  "token_lib \<Rightarrow> token_manager \<Rightarrow> int \<Rightarrow> string \<Rightarrow> string \<Rightarrow> string list \<Rightarrow> int \<Rightarrow> bytes \<Rightarrow> jwt_header \<Rightarrow> bool \<Rightarrow>
   vault_error + string \<times> datetime" where
  "issue_token_with_key lib tm now principal_id tenant_id policies ttl_seconds signer header superuser =
     (let exp = now + ttl_seconds
      in and_then (ok_or (Internal ''overflow computing token expiry timestamp'') (hl_from_timestamp (tk_hash lib) exp))
           (\<lambda>expires_at.
              case tk_encode lib header
                     \<lparr>tc_sub = principal_id, tc_tenant_id = tenant_id, tc_policies = policies, tc_superuser = superuser,
                      tc_exp = exp, ic_iss = tm_issuer tm, ic_aud = tm_audience tm, ic_iat = now\<rparr> signer of
                Inl e \<Rightarrow> Inl (Internal (''JWT encoding failed: '' @ e))
              | Inr token \<Rightarrow> Inr (token, expires_at)))"

definition issue_token ::
  "token_lib \<Rightarrow> token_manager \<Rightarrow> int \<Rightarrow> string \<Rightarrow> string \<Rightarrow> string list \<Rightarrow> int \<Rightarrow> vault_error + string \<times> datetime" where
  "issue_token lib tm now principal_id tenant_id policies ttl_seconds =
     issue_token_with_key lib tm now principal_id tenant_id policies ttl_seconds (tm_secret tm)
       \<lparr>jh_alg = HS256, jh_kid = None\<rparr> False"

definition validate_token :: "token_lib \<Rightarrow> token_manager \<Rightarrow> int \<Rightarrow> string \<Rightarrow> vault_error + issued_claims" where
  "validate_token lib tm now token =
     (case tk_validate lib (tm_issuer tm) (tm_audience tm) (tm_secret tm) now token of
        Inr claims \<Rightarrow> Inr claims
      | Inl e \<Rightarrow> Inl (Unauthenticated (''invalid token: '' @ e)))"

section \<open>The table of signing keys\<close>

record signing_key_record =
  sk_kid :: string
  sk_tenant_id :: "string option"
  sk_public_key :: string
  sk_wrapped_private_key :: string
  sk_state :: string

record signing_key_row = signing_key_record +
  sk_created_at :: datetime
  sk_retired_at :: "datetime option"

definition active_for_tenant :: "string \<Rightarrow> signing_key_row list \<Rightarrow> signing_key_row option" where
  "active_for_tenant tenant_id table = find (\<lambda>r. sk_tenant_id r = Some tenant_id \<and> sk_state r = ''active'') table"

definition active_system_key :: "signing_key_row list \<Rightarrow> signing_key_row option" where
  "active_system_key table = find (\<lambda>r. sk_tenant_id r = None \<and> sk_state r = ''active'') table"

definition by_kid :: "string \<Rightarrow> signing_key_row list \<Rightarrow> signing_key_row option" where
  "by_kid kid table = find (\<lambda>r. sk_kid r = kid) table"

definition publishable :: "signing_key_row list \<Rightarrow> signing_key_row list" where
  "publishable table =
     sort_key (\<lambda>r. - sk_created_at r) (filter (\<lambda>r. sk_state r \<in> {''active'', ''rotating_out''}) table)"

definition insert_active :: "datetime \<Rightarrow> string list \<Rightarrow> signing_key_record \<Rightarrow> signing_key_row list \<Rightarrow>
    vault_error + signing_key_row list" where
  "insert_active now tenants key table =
     (if list_ex (\<lambda>r. sk_kid r = sk_kid key) table
      then Inl (Database ''could not store signing key: tenant_signing_keys_pkey'')
      else if list_ex (\<lambda>r. sk_tenant_id r = sk_tenant_id key \<and> sk_state r = ''active'') table
      then Inl (Database ''could not store signing key: active key exists'')
      else if (case sk_tenant_id key of None \<Rightarrow> False | Some t \<Rightarrow> t \<notin> set tenants)
      then Inl (Database ''could not store signing key: tenant_signing_keys_tenant_id_fkey'')
      else Inr (table @ [\<lparr>sk_kid = sk_kid key, sk_tenant_id = sk_tenant_id key, sk_public_key = sk_public_key key,
             sk_wrapped_private_key = sk_wrapped_private_key key, sk_state = ''active'',
             sk_created_at = now, sk_retired_at = None\<rparr>]))"

definition mark_rotating_out :: "datetime \<Rightarrow> string \<Rightarrow> signing_key_row list \<Rightarrow> signing_key_row list" where
  "mark_rotating_out now kid table =
     map (\<lambda>r. if sk_kid r = kid \<and> sk_state r = ''active''
              then r\<lparr>sk_state := ''rotating_out'', sk_retired_at := Some now\<rparr> else r) table"

section \<open>Signing keys\<close>

record signing_keys =
  ss_table :: "signing_key_row list"
  ss_cache :: "(string, bytes) hash_map"
  ss_public :: "(string, bytes) hash_map"

record signing_env =
  se_lib :: token_lib
  se_now :: datetime
  se_tenants :: "string list"
  se_pkcs8 :: "bytes option"
  se_uuid :: string
  se_wrap :: "string \<Rightarrow> bytes \<Rightarrow> bytes \<Rightarrow> string + string"
  se_unwrap :: "string \<Rightarrow> string \<Rightarrow> bytes \<Rightarrow> string + bytes"

definition SYSTEM_WRAP_TENANT :: string where
  "SYSTEM_WRAP_TENANT = ''00000000-0000-0000-0000-000000000000''"

definition signing_wrap_aad :: "string \<Rightarrow> bytes" where
  "signing_wrap_aad kid = str_bytes (''wslvault:signing-key:'' @ kid)"

definition wrap_tenant :: "string option \<Rightarrow> string" where
  "wrap_tenant tenant_id = (case tenant_id of Some t \<Rightarrow> t | None \<Rightarrow> SYSTEM_WRAP_TENANT)"

definition active_key :: "string option \<Rightarrow> signing_key_row list \<Rightarrow> signing_key_row option" where
  "active_key tenant_id table =
     (case tenant_id of Some t \<Rightarrow> active_for_tenant t table | None \<Rightarrow> active_system_key table)"

text \<open>\<^verbatim>\<open>VaultError::to_string\<close> of a database error.\<close>

definition generate :: "signing_env \<Rightarrow> string option \<Rightarrow> signing_keys \<Rightarrow> signing_keys \<times> (string + signing_key_record)" where
  "generate env tenant_id st =
     (case se_pkcs8 env of
        None \<Rightarrow> (st, Inl ''could not generate an Ed25519 keypair'')
      | Some pkcs8 \<Rightarrow>
     case tk_public_of (se_lib env) pkcs8 of
        None \<Rightarrow> (st, Inl ''generated keypair did not parse'')
      | Some public \<Rightarrow>
          let public_key = tk_b64url_encode (se_lib env) public;
              kid = ''wslv-'' @ se_uuid env
          in case se_wrap env (wrap_tenant tenant_id) pkcs8 (signing_wrap_aad kid) of
               Inl e \<Rightarrow> (st, Inl e)
             | Inr wrapped \<Rightarrow>
                 let record = \<lparr>sk_kid = kid, sk_tenant_id = tenant_id, sk_public_key = public_key,
                                sk_wrapped_private_key = wrapped, sk_state = ''active''\<rparr>
                 in case insert_active (se_now env) (se_tenants env) record (ss_table st) of
                      Inr table \<Rightarrow> (st\<lparr>ss_table := table\<rparr>, Inr record)
                    | Inl e \<Rightarrow>
                        (case active_key tenant_id (ss_table st) of
                           Some r \<Rightarrow> (st, Inr (signing_key_record.truncate r))
                         | None \<Rightarrow> (st, Inl (''could not store or find a signing key: '' @ error_to_string e))))"

definition unwrap_key :: "signing_env \<Rightarrow> signing_key_record \<Rightarrow> signing_keys \<Rightarrow> signing_keys \<times> (string + bytes)" where
  "unwrap_key env record st =
     (case hm_get (ss_cache st) (sk_kid record) of
        Some hit \<Rightarrow> (st, Inr hit)
      | None \<Rightarrow>
          (case se_unwrap env (wrap_tenant (sk_tenant_id record)) (sk_wrapped_private_key record)
                  (signing_wrap_aad (sk_kid record)) of
             Inl e \<Rightarrow> (st, Inl e)
           | Inr pkcs8 \<Rightarrow> (st\<lparr>ss_cache := hm_insert (sk_kid record) pkcs8 (ss_cache st)\<rparr>, Inr pkcs8)))"

definition signer_for :: "signing_env \<Rightarrow> string option \<Rightarrow> signing_keys \<Rightarrow> signing_keys \<times> (string + string \<times> bytes)" where
  "signer_for env tenant_id st =
     (case (case active_key tenant_id (ss_table st) of
              Some r \<Rightarrow> (st, Inr (signing_key_record.truncate r)) | None \<Rightarrow> generate env tenant_id st) of
        (st, Inl e) \<Rightarrow> (st, Inl e)
      | (st, Inr record) \<Rightarrow>
          (case unwrap_key env record st of
             (st, Inl e) \<Rightarrow> (st, Inl e)
           | (st, Inr pkcs8) \<Rightarrow> (st, Inr (sk_kid record, pkcs8))))"

definition signing_header :: "string \<Rightarrow> jwt_header" where
  "signing_header kid = \<lparr>jh_alg = EdDSA, jh_kid = Some kid\<rparr>"

definition signing_public_key_for :: "token_lib \<Rightarrow> string \<Rightarrow> signing_keys \<Rightarrow> signing_keys \<times> (string + bytes)" where
  "signing_public_key_for lib kid st =
     (case hm_get (ss_public st) kid of
        Some hit \<Rightarrow> (st, Inr hit)
      | None \<Rightarrow>
     case by_kid kid (ss_table st) of
        None \<Rightarrow> (st, Inl (''unknown signing key '' @ [CHR 0x22] @ kid @ [CHR 0x22]))
      | Some record \<Rightarrow>
          (case tk_b64url_decode lib (sk_public_key record) of
             Inl e \<Rightarrow> (st, Inl (''stored public key is not base64url: '' @ e))
           | Inr raw \<Rightarrow>
               if length raw \<noteq> 32 then (st, Inl ''stored public key is not an Ed25519 key'')
               else (st\<lparr>ss_public := hm_insert kid raw (ss_public st)\<rparr>, Inr raw)))"

definition signing_verify :: "token_lib \<Rightarrow> int \<Rightarrow> string \<Rightarrow> signing_keys \<Rightarrow> signing_keys \<times> (string + token_claims)" where
  "signing_verify lib now token st =
     (case jw_decode_header (tk_jwt lib) token of
        Inl e \<Rightarrow> (st, Inl (''malformed token header: '' @ e))
      | Inr header \<Rightarrow>
          if jh_alg header \<noteq> EdDSA then (st, Inl ''not an EdDSA token'')
          else case jh_kid header of
                 None \<Rightarrow> (st, Inl ''EdDSA token carries no kid'')
               | Some kid \<Rightarrow>
                   (case signing_public_key_for lib kid st of
                      (st, Inl e) \<Rightarrow> (st, Inl e)
                    | (st, Inr public_key) \<Rightarrow>
                        (st, case jw_decode (tk_jwt lib) EdDSA public_key now token of
                               Inr claims \<Rightarrow> Inr claims | Inl e \<Rightarrow> Inl (''invalid token: '' @ e))))"

text \<open>The document that publishes the keys, as pairs of \<^verbatim>\<open>kid\<close> and \<^verbatim>\<open>x\<close>; the other members are
  constants.\<close>

definition jwks :: "signing_keys \<Rightarrow> (string \<times> string) list" where
  "jwks st = map (\<lambda>r. (sk_kid r, sk_public_key r)) (publishable (ss_table st))"

section \<open>Revocation\<close>

text \<open>With a database the table counts, without one the set.\<close>

record revocation_state =
  rs_table :: "revoked_token list option"
  rs_set :: "string set"

definition identity_is_revoked :: "hash_lib \<Rightarrow> datetime \<Rightarrow> bool \<Rightarrow> string \<Rightarrow> revocation_state \<Rightarrow> bool" where
  "identity_is_revoked lib now reachable token st =
     (case rs_table st of
        Some table \<Rightarrow> if reachable then is_revoked lib now token table else True
      | None \<Rightarrow> token_hash lib token \<in> rs_set st)"

definition revoke_token :: "token_lib \<Rightarrow> token_manager \<Rightarrow> datetime \<Rightarrow> string \<Rightarrow> revocation_state \<Rightarrow>
    grpc_status + revocation_state" where
  "revoke_token lib tm now token st =
     (if token = [] then Inl (InvalidArgument ''token must not be empty'')
      else let (tenant_id, principal_id, expires_at) =
                 (case validate_token lib tm (now div 1000000000) token of
                    Inr c \<Rightarrow> (tc_tenant_id c, tc_sub c, tc_exp c)
                  | Inl _ \<Rightarrow> ([], [], now div 1000000000 + 3600))
           in case rs_table st of
                Some table \<Rightarrow>
                  (case revoke (tk_hash lib) now token tenant_id principal_id expires_at table of
                     Inr table' \<Rightarrow> Inr (st\<lparr>rs_table := Some table'\<rparr>)
                   | Inl _ \<Rightarrow> Inl (InternalStatus ''could not persist revocation''))
              | None \<Rightarrow> Inr (st\<lparr>rs_set := insert (token_hash (tk_hash lib) token) (rs_set st)\<rparr>))"

definition revoke_token_by_hash :: "token_lib \<Rightarrow> datetime \<Rightarrow> string \<Rightarrow> string \<Rightarrow> string \<Rightarrow> int \<Rightarrow> revocation_state \<Rightarrow>
    grpc_status + revocation_state" where
  "revoke_token_by_hash lib now hash tenant_id principal_id expires_at st =
     (if length hash \<noteq> 64 \<or> \<not> list_all is_ascii_hexdigit hash
      then Inl (InvalidArgument ''token_hash must be 64 hex characters'')
      else let expires_at = (if expires_at > 0 then expires_at else now div 1000000000 + 3600)
           in case rs_table st of
                Some table \<Rightarrow>
                  (case revoke_by_hash (tk_hash lib) now hash tenant_id principal_id expires_at table of
                     Inr table' \<Rightarrow> Inr (st\<lparr>rs_table := Some table'\<rparr>)
                   | Inl _ \<Rightarrow> Inl (InternalStatus ''could not persist revocation''))
              | None \<Rightarrow> Inr (st\<lparr>rs_set := insert hash (rs_set st)\<rparr>))"

section \<open>What the libraries and the crypto-service promise\<close>

text \<open>
  A token encoded with a private key shows its header and decodes under the public key
  to its claims, for up to a minute past its expiry (the default leeway). Base64
  decodes what it encodes. The crypto-service unwraps what it wrapped.
\<close>

definition eddsa_ok :: "token_lib \<Rightarrow> bool" where
  "eddsa_ok lib \<longleftrightarrow>
     (\<forall>h c sk pk token now. jh_alg h = EdDSA \<longrightarrow> tk_public_of lib sk = Some pk \<longrightarrow> tk_encode lib h c sk = Inr token \<longrightarrow>
        jw_decode_header (tk_jwt lib) token = Inr h \<and>
        (now \<le> tc_exp c + 60 \<longrightarrow> jw_decode (tk_jwt lib) EdDSA pk now token = Inr (token_claims.truncate c)))"

definition wrap_ok :: "signing_env \<Rightarrow> bool" where
  "wrap_ok env \<longleftrightarrow>
     (\<forall>t x aad w. se_wrap env t x aad = Inr w \<longrightarrow> se_unwrap env t w aad = Inr x) \<and>
     (\<forall>sk pk. tk_public_of (se_lib env) sk = Some pk \<longrightarrow> length pk = 32) \<and>
     (\<forall>b. tk_b64url_decode (se_lib env) (tk_b64url_encode (se_lib env) b) = Inr b)"

text \<open>A token that validates under the shared secret shows its algorithm and decodes to its
  claims, again for up to a minute past its expiry.\<close>

definition hs256_ok :: "token_lib \<Rightarrow> bool" where
  "hs256_ok lib \<longleftrightarrow>
     (\<forall>iss aud secret t0 token c now. tk_validate lib iss aud secret t0 token = Inr c \<longrightarrow>
        (\<exists>h. jw_decode_header (tk_jwt lib) token = Inr h \<and> jh_alg h = HS256) \<and>
        (now \<le> tc_exp c + 60 \<longrightarrow> jw_decode (tk_jwt lib) HS256 secret now token = Inr (token_claims.truncate c)))"

section \<open>Histories of the list of revoked tokens\<close>

text \<open>Revocations by token or by hash at any time, and the reaper up to a given time.\<close>

inductive revocation_step :: "hash_lib \<Rightarrow> datetime \<Rightarrow> revoked_token list \<Rightarrow> revoked_token list \<Rightarrow> bool" for lib now where
  step_revoke: "revoke lib t token tenant_id principal_id e table = Inr table' \<Longrightarrow> revocation_step lib now table table'"
| step_revoke_by_hash: "revoke_by_hash lib t hash tenant_id principal_id e table = Inr table' \<Longrightarrow> revocation_step lib now table table'"
| step_reap: "t \<le> now \<Longrightarrow> revocation_step lib now table (fst (reap_expired t table))"

lemma revocation_step_keeps:
  "revocation_step lib now table table' \<Longrightarrow> row \<in> set table \<Longrightarrow> now < rt_expires_at row \<Longrightarrow> row \<in> set table'"
  by (induction rule: revocation_step.induct)
    (auto simp: revoke_def revoke_by_hash_def revoke_by_hash_unchecked_def kept_by_insert
      intro!: kept_by_reaper split: option.splits if_splits)

lemma revocation_steps_keep:
  "(revocation_step lib now)\<^sup>*\<^sup>* table table' \<Longrightarrow> row \<in> set table \<Longrightarrow> now < rt_expires_at row \<Longrightarrow> row \<in> set table'"
  by (induction rule: rtranclp_induct) (auto intro: revocation_step_keeps)

text \<open>The time up to which a revocation is recorded, and the row.\<close>

definition revoked_until :: "token_lib \<Rightarrow> token_manager \<Rightarrow> datetime \<Rightarrow> string \<Rightarrow> int" where
  "revoked_until lib tm now token =
     (case validate_token lib tm (now div 1000000000) token of
        Inr c \<Rightarrow> tc_exp c | Inl _ \<Rightarrow> now div 1000000000 + 3600)"

definition revoked_row :: "token_lib \<Rightarrow> token_manager \<Rightarrow> datetime \<Rightarrow> string \<Rightarrow> string \<Rightarrow> string \<Rightarrow> revoked_token" where
  "revoked_row lib tm now token tenant subject =
     \<lparr>rt_token_hash = token_hash (tk_hash lib) token, rt_tenant_id = tenant, rt_principal_id = subject,
      rt_expires_at = revoked_until lib tm now token * 1000000000, rt_revoked_at = now\<rparr>"

lemma revoke_token_records:
  assumes "token \<noteq> []" "rs_table st = Some table" "\<forall>r \<in> set table. rt_token_hash r \<noteq> token_hash (tk_hash lib) token"
    and "hl_from_timestamp (tk_hash lib) (revoked_until lib tm t0 token) = Some (revoked_until lib tm t0 token * 1000000000)"
  shows "\<exists>tenant subject. insert_revocation (revoked_row lib tm t0 token tenant subject) table =
      table @ [revoked_row lib tm t0 token tenant subject] \<and>
    revoke_token lib tm t0 token st = Inr (st\<lparr>rs_table := Some (table @ [revoked_row lib tm t0 token tenant subject])\<rparr>)"
proof -
  have new: "insert_revocation (revoked_row lib tm t0 token tenant subject) table =
      table @ [revoked_row lib tm t0 token tenant subject]" for tenant subject
    using assms(3) by (intro revoked_insert) (simp add: revoked_row_def)
  show ?thesis
  proof (cases "validate_token lib tm (t0 div 1000000000) token")
    case (Inl e)
    with assms new [of "[]" "[]"] show ?thesis
      by (intro exI [of _ "[]"])
        (simp add: revoke_token_def revoke_def revoke_by_hash_unchecked_def revoked_row_def revoked_until_def)
  next
    case (Inr c)
    with assms new [of "tc_tenant_id c" "tc_sub c"] show ?thesis
      by (intro exI [of _ "tc_tenant_id c"] exI [of _ "tc_sub c"])
        (simp add: revoke_token_def revoke_def revoke_by_hash_unchecked_def revoked_row_def revoked_until_def)
  qed
qed

lemma shared_secret_verifies:
  assumes "validate_token lib tm t token = Inr claims" "hs256_ok lib" "ax_jwt env = tk_jwt lib"
    and "map_option str_bytes (ax_var env ''VAULT_JWT_SECRET'') = Some (tm_secret tm)" "tm_secret tm \<noteq> []"
    and "now_secs env \<le> tc_exp claims + 60"
  shows "snd (verify_token_async env cache token) = Inr (token_claims.truncate claims)"
proof -
  have val: "tk_validate lib (tm_issuer tm) (tm_audience tm) (tm_secret tm) t token = Inr claims"
    using assms(1) by (auto simp: validate_token_def split: sum.splits)
  obtain h where h: "jw_decode_header (tk_jwt lib) token = Inr h" "jh_alg h = HS256"
      "jw_decode (tk_jwt lib) HS256 (tm_secret tm) (now_secs env) token = Inr (token_claims.truncate claims)"
    using assms(2,6) val unfolding hs256_ok_def by metis
  obtain secret where secret: "ax_var env ''VAULT_JWT_SECRET'' = Some secret" "str_bytes secret = tm_secret tm"
    using assms(4) by auto
  have "secret \<noteq> []" using secret(2) assms(5) by (auto simp: str_bytes_def)
  with secret h assms(3) show ?thesis by (simp add: verify_token_async_def verify_token_def decode_with_def)
qed

section \<open>Invariant of the signing keys\<close>

text \<open>The private key belongs to the public key that is published for its id.\<close>

definition signs_for :: "token_lib \<Rightarrow> signing_key_row \<Rightarrow> bytes \<Rightarrow> bool" where
  "signs_for lib row sk \<longleftrightarrow>
     (\<exists>pk. tk_public_of lib sk = Some pk \<and> length pk = 32 \<and> tk_b64url_decode lib (sk_public_key row) = Inr pk)"

definition signing_ok :: "signing_env \<Rightarrow> signing_keys \<Rightarrow> bool" where
  "signing_ok env st \<longleftrightarrow>
     distinct (map sk_kid (ss_table st)) \<and>
     (\<forall>row \<in> set (ss_table st). \<forall>sk.
        se_unwrap env (wrap_tenant (sk_tenant_id row)) (sk_wrapped_private_key row) (signing_wrap_aad (sk_kid row)) = Inr sk \<or>
        hm_get (ss_cache st) (sk_kid row) = Some sk \<longrightarrow> signs_for (se_lib env) row sk) \<and>
     (\<forall>kid. hm_get (ss_cache st) kid \<noteq> None \<longrightarrow> kid \<in> sk_kid ` set (ss_table st))"

lemma insert_active_Inr:
  assumes "insert_active now tenants key table = Inr table'"
  shows "table' = table @ [\<lparr>sk_kid = sk_kid key, sk_tenant_id = sk_tenant_id key, sk_public_key = sk_public_key key,
     sk_wrapped_private_key = sk_wrapped_private_key key, sk_state = ''active'', sk_created_at = now, sk_retired_at = None\<rparr>] \<and>
     sk_kid key \<notin> sk_kid ` set table"
  using assms by (auto simp: insert_active_def list_ex_iff split: if_splits)

lemma active_key_in_table:
  assumes "active_key t table = Some row"
  shows "row \<in> set table \<and> sk_tenant_id row = t \<and> sk_state row = ''active''"
  using assms by (cases t) (auto simp: active_key_def active_for_tenant_def active_system_key_def find_Some_iff)

lemma generate_ok:
  assumes ok: "signing_ok env st" "wrap_ok env" and gen: "generate env t st = (st', Inr rec)"
  shows "signing_ok env st' \<and> (\<exists>row \<in> set (ss_table st'). signing_key_record.truncate row = rec \<and> sk_state row = ''active'')"
proof -
  obtain pkcs8 public where keys: "se_pkcs8 env = Some pkcs8" "tk_public_of (se_lib env) pkcs8 = Some public"
    using gen by (auto simp: generate_def split: option.splits)
  let ?kid = "''wslv-'' @ se_uuid env"
  obtain w where w: "se_wrap env (wrap_tenant t) pkcs8 (signing_wrap_aad ?kid) = Inr w"
    using gen keys by (auto simp: generate_def Let_def split: sum.splits)
  let ?rec = "\<lparr>sk_kid = ?kid, sk_tenant_id = t, sk_public_key = tk_b64url_encode (se_lib env) public,
      sk_wrapped_private_key = w, sk_state = ''active''\<rparr>"
  show ?thesis
  proof (cases "insert_active (se_now env) (se_tenants env) ?rec (ss_table st)")
    case (Inl e)
    then obtain row where "active_key t (ss_table st) = Some row" "st' = st" "rec = signing_key_record.truncate row"
      using gen keys w by (auto simp: generate_def Let_def split: option.splits)
    then show ?thesis using ok(1) active_key_in_table by metis
  next
    case (Inr table')
    let ?row = "\<lparr>sk_kid = ?kid, sk_tenant_id = t, sk_public_key = tk_b64url_encode (se_lib env) public,
      sk_wrapped_private_key = w, sk_state = ''active'', sk_created_at = se_now env, sk_retired_at = None\<rparr>"
    have st': "st' = st\<lparr>ss_table := table'\<rparr>" "rec = ?rec" using gen keys w Inr by (simp_all add: generate_def Let_def)
    have table': "table' = ss_table st @ [?row]" "?kid \<notin> sk_kid ` set (ss_table st)"
      using insert_active_Inr [OF Inr] by simp_all
    have fresh: "hm_get (ss_cache st) ?kid = None" using ok(1) table'(2) by (auto simp: signing_ok_def)
    have "se_unwrap env (wrap_tenant t) w (signing_wrap_aad ?kid) = Inr pkcs8" using ok(2) w by (simp add: wrap_ok_def)
    then have new: "signs_for (se_lib env) ?row sk"
      if "se_unwrap env (wrap_tenant t) w (signing_wrap_aad ?kid) = Inr sk" for sk
      using that keys ok(2) by (auto simp: signs_for_def wrap_ok_def)
    have "signing_ok env st'"
      unfolding st' table' signing_ok_def using ok(1) table'(2) fresh new by (auto simp: signing_ok_def)
    moreover have "signing_key_record.truncate ?row = rec" by (simp add: st' signing_key_record.truncate_def)
    ultimately show ?thesis using st' table' by auto
  qed
qed

lemma unwrap_key_ok:
  assumes ok: "signing_ok env st" and row: "row \<in> set (ss_table st)"
    and unwrap: "unwrap_key env (signing_key_record.truncate row) st = (st', Inr sk)"
  shows "signing_ok env st' \<and> ss_table st' = ss_table st \<and> signs_for (se_lib env) row sk"
proof -
  have fields: "sk_kid (signing_key_record.truncate row) = sk_kid row"
      "sk_tenant_id (signing_key_record.truncate row) = sk_tenant_id row"
      "sk_wrapped_private_key (signing_key_record.truncate row) = sk_wrapped_private_key row"
    by (simp_all add: signing_key_record.truncate_def)
  show ?thesis
  proof (cases "hm_get (ss_cache st) (sk_kid row)")
    case (Some hit)
    then show ?thesis using unwrap ok row by (auto simp: unwrap_key_def fields signing_ok_def)
  next
    case None
    then have got: "se_unwrap env (wrap_tenant (sk_tenant_id row)) (sk_wrapped_private_key row) (signing_wrap_aad (sk_kid row)) = Inr sk"
        and st': "st' = st\<lparr>ss_cache := hm_insert (sk_kid row) sk (ss_cache st)\<rparr>"
      using unwrap by (auto simp: unwrap_key_def fields split: sum.splits)
    have sk: "signs_for (se_lib env) row sk" using ok row got by (auto simp: signing_ok_def)
    have "row' = row" if "row' \<in> set (ss_table st)" "sk_kid row' = sk_kid row" for row'
      using ok that row by (auto simp: signing_ok_def distinct_map dest: inj_onD)
    then have "signing_ok env st'" using ok row sk unfolding st' signing_ok_def by auto
    then show ?thesis using sk st' by simp
  qed
qed

lemma signer_for_ok:
  assumes ok: "signing_ok env st" "wrap_ok env" and signer: "signer_for env t st = (st', Inr (kid, sk))"
  shows "signing_ok env st' \<and> (\<exists>row \<in> set (ss_table st'). sk_kid row = kid \<and> sk_state row = ''active'' \<and> signs_for (se_lib env) row sk)"
proof -
  let ?found = "case active_key t (ss_table st) of
      Some r \<Rightarrow> (st, Inr (signing_key_record.truncate r)) | None \<Rightarrow> generate env t st"
  obtain st1 rec where found: "?found = (st1, Inr rec)" and unwrap: "unwrap_key env rec st1 = (st', Inr sk)" "kid = sk_kid rec"
    using signer by (auto simp: signer_for_def split: prod.splits sum.splits)
  have st1: "signing_ok env st1 \<and> (\<exists>row \<in> set (ss_table st1). signing_key_record.truncate row = rec \<and> sk_state row = ''active'')"
  proof (cases "active_key t (ss_table st)")
    case None
    then show ?thesis using found generate_ok [OF ok] by simp
  next
    case (Some row)
    then show ?thesis using found ok(1) active_key_in_table [OF Some] by auto
  qed
  then obtain row where row: "row \<in> set (ss_table st1)" "signing_key_record.truncate row = rec" "sk_state row = ''active''" by auto
  have "sk_kid row = kid" using unwrap(2) row(2) by (auto simp: signing_key_record.truncate_def)
  with unwrap_key_ok [of env st1 row st' sk] st1 row unwrap(1) show ?thesis by auto
qed

section \<open>Tokens under listed keys\<close>

definition empty_jwks :: jwks_cache where
  "empty_jwks = \<lparr>jc_keys = [], jc_last_fetch = None\<rparr>"

text \<open>A service that takes tokens only, shares the token library, and fetches the keys that
  the identity-service publishes.\<close>

definition verifier :: "auth_env \<Rightarrow> token_lib \<Rightarrow> signing_keys \<Rightarrow> bool" where
  "verifier env lib st \<longleftrightarrow>
     \<not> gateway_headers_trusted (ax_var env) \<and> ax_jwt env = tk_jwt lib \<and>
     (\<forall>s b. tk_b64url_decode lib s = Inr b \<longrightarrow> ax_b64url env s = Some b) \<and>
     (case ax_var env ''VAULT_JWKS_URL'' of Some url \<Rightarrow> ax_fetch env url = Inr (jwks st) | None \<Rightarrow> False)"

lemma listed_key_fetched:
  assumes "signing_ok senv st" "verifier env lib st" "row \<in> set (ss_table st)" "sk_state row \<in> {''active'', ''rotating_out''}"
    and "tk_b64url_decode lib (sk_public_key row) = Inr pk" "length pk = 32"
  shows "\<exists>cache. public_key_for env empty_jwks (sk_kid row) = (cache, Inr pk)"
proof -
  obtain url where url: "ax_var env ''VAULT_JWKS_URL'' = Some url" "ax_fetch env url = Inr (jwks st)"
    using assms(2) by (auto simp: verifier_def split: option.splits)
  have "distinct (map sk_kid (publishable (ss_table st)))"
    using assms(1) by (auto simp: signing_ok_def publishable_def distinct_map inj_on_def)
  then have "distinct (map fst (jwks st))" by (simp add: jwks_def comp_def)
  moreover have "(sk_kid row, sk_public_key row) \<in> set (jwks st)"
    using assms(3,4) by (auto simp: jwks_def publishable_def)
  moreover have "ax_b64url env (sk_public_key row) = Some pk" using assms(2,5) by (simp add: verifier_def)
  ultimately show ?thesis unfolding empty_jwks_def using public_key_fetched [OF url] assms(6) by blast
qed

lemma token_under_listed_key:
  assumes "eddsa_ok lib" "signing_ok senv st" "verifier env lib st"
    and "row \<in> set (ss_table st)" "sk_state row \<in> {''active'', ''rotating_out''}" "signs_for lib row sk"
    and "tk_encode lib (signing_header (sk_kid row)) claims sk = Inr token" "now_secs env \<le> tc_exp claims + 60"
    and "extract_token headers = Some token" "is_token_revoked env token = Inr False"
  shows "snd (resolve_identity env empty_jwks headers) = Inr (claims_identity (token_claims.truncate claims))"
proof -
  obtain pk where pk: "tk_public_of lib sk = Some pk" "length pk = 32" "tk_b64url_decode lib (sk_public_key row) = Inr pk"
    using assms(6) by (auto simp: signs_for_def)
  obtain cache where fetched: "public_key_for env empty_jwks (sk_kid row) = (cache, Inr pk)"
    using listed_key_fetched [OF assms(2-5) pk(3,2)] by blast
  have dec: "jw_decode_header (tk_jwt lib) token = Inr (signing_header (sk_kid row))"
      "jw_decode (tk_jwt lib) EdDSA pk (now_secs env) token = Inr (token_claims.truncate claims)"
    using assms(1,7,8) pk(1) unfolding eddsa_ok_def by (metis jwt_header.select_convs(1) signing_header_def)+
  have env: "\<not> gateway_headers_trusted (ax_var env)" "ax_jwt env = tk_jwt lib" using assms(3) by (simp_all add: verifier_def)
  have "verify_token_async env empty_jwks token = (cache, Inr (token_claims.truncate claims))"
    using dec fetched env(2) by (simp add: verify_token_async_def signing_header_def decode_with_def)
  then show ?thesis using assms(9,10) by (simp add: resolve_by_token [OF env(1)])
qed

section \<open>Properties\<close>

text \<open>C34. A token the identity-service issues under a tenant's signing key, which it creates on
  first use, is accepted by every service that fetches the published keys, and resolves
  to the tenant, principal, policies and authority it was issued for.\<close>

theorem issued_token_accepted:
  assumes "eddsa_ok (se_lib senv)" "wrap_ok senv" "signing_ok senv st"
    and "signer_for senv owner st = (st', Inr (kid, sk))"
    and "issue_token_with_key (se_lib senv) tm issued who t policies ttl sk (signing_header kid) superuser = Inr (token, expires)"
    and "verifier env (se_lib senv) st'" "now_secs env \<le> issued + ttl + 60"
    and "extract_token headers = Some token" "is_token_revoked env token = Inr False"
  shows "snd (resolve_identity env empty_jwks headers) =
    Inr \<lparr>id_tenant_id = t, id_principal_id = who, id_policies = policies,
         id_expires_at = Some (issued + ttl), id_superuser = superuser\<rparr>"
proof -
  obtain row where row: "row \<in> set (ss_table st')" "sk_kid row = kid" "sk_state row = ''active''" "signs_for (se_lib senv) row sk"
    and ok: "signing_ok senv st'" using signer_for_ok [OF assms(3,2,4)] by auto
  let ?c = "\<lparr>tc_sub = who, tc_tenant_id = t, tc_policies = policies, tc_superuser = superuser,
      tc_exp = issued + ttl, ic_iss = tm_issuer tm, ic_aud = tm_audience tm, ic_iat = issued\<rparr>"
  have "tk_encode (se_lib senv) (signing_header (sk_kid row)) ?c sk = Inr token"
    using assms(5) row(2) by (auto simp: issue_token_with_key_def Let_def and_then_def ok_or_def split: option.splits sum.splits)
  from token_under_listed_key [OF assms(1) ok assms(6) row(1) _ row(4) this _ assms(8,9)] assms(7) row(3) show ?thesis
    by (simp add: claims_identity_def token_claims.truncate_def)
qed

text \<open>C36. The signing key of one tenant speaks for every tenant: whoever holds the private key of
  any key that is published can make a token that every service takes for a superuser of
  whichever tenant it names.\<close>

theorem tenant_key_signs_for_all:
  assumes "eddsa_ok lib" "signing_ok senv st" "verifier env lib st"
    and "row \<in> set (ss_table st)" "sk_state row = ''active''" "sk_tenant_id row = Some own_tenant" "signs_for lib row sk"
    and "tk_encode lib (signing_header (sk_kid row))
           \<lparr>tc_sub = who, tc_tenant_id = other_tenant, tc_policies = policies, tc_superuser = True, tc_exp = exp,
            ic_iss = iss, ic_aud = aud, ic_iat = iat\<rparr> sk = Inr token"
    and "now_secs env \<le> exp" "extract_token headers = Some token" "is_token_revoked env token = Inr False"
  shows "\<exists>i. snd (resolve_identity env empty_jwks headers) = Inr i \<and> id_tenant_id i = other_tenant \<and>
    id_principal_id i = who \<and> id_policies i = policies \<and> is_platform_admin (ax_var env) i \<and>
    (\<forall>t. header_value headers ''x-vault-act-tenant'' = Some t \<longrightarrow> fst (act_as_tenant i headers) = t)"
  using token_under_listed_key [OF assms(1-4) _ assms(7,8) _ assms(10,11)] assms(5,9)
  by (auto simp: claims_identity_def token_claims.truncate_def is_platform_admin_def act_as_tenant_def)

text \<open>C35. How long a revoked token stays revoked: once the identity-service has recorded the
  revocation of a token that was not on the list, every service that consults the list
  refuses it until the recorded time, whatever else is revoked or reaped. That time is
  the expiry of a token under the shared secret, and one hour after the revocation for
  every other token, those under a tenant's signing key included (the service issues
  these for one hour). From then on the list no longer counts: a service accepts the token whenever
  token verification does, and for a token under the shared secret that is the case for
  another minute.\<close>

theorem revocation_holds_until_expiry:
  assumes "token \<noteq> []" "rs_table st = Some table" "\<forall>r \<in> set table. rt_token_hash r \<noteq> token_hash (tk_hash lib) token"
    and "hl_from_timestamp (tk_hash lib) (revoked_until lib tm t0 token) = Some (revoked_until lib tm t0 token * 1000000000)"
  shows "\<exists>st'. revoke_token lib tm t0 token st = Inr st' \<and>
    (\<forall>env cache headers table'. extract_token headers = Some token \<longrightarrow> \<not> gateway_headers_trusted (ax_var env) \<longrightarrow>
       ax_revocation env = Some (revocation_checker (tk_hash lib) (ax_now env) (Some table')) \<longrightarrow>
       (ax_now env < revoked_until lib tm t0 token * 1000000000 \<longrightarrow>
          (revocation_step (tk_hash lib) (ax_now env))\<^sup>*\<^sup>* (the (rs_table st')) table' \<longrightarrow>
          isl (snd (resolve_identity env cache headers))) \<and>
       (revoked_until lib tm t0 token * 1000000000 \<le> ax_now env \<longrightarrow> table' = the (rs_table st') \<longrightarrow>
          (\<forall>claims. snd (verify_token_async env cache token) = Inr claims \<longrightarrow>
             snd (resolve_identity env cache headers) = Inr (claims_identity claims)) \<and>
          (\<forall>claims. validate_token lib tm (t0 div 1000000000) token = Inr claims \<longrightarrow>
             hs256_ok lib \<longrightarrow> ax_jwt env = tk_jwt lib \<longrightarrow> map_option str_bytes (ax_var env ''VAULT_JWT_SECRET'') = Some (tm_secret tm) \<longrightarrow>
             tm_secret tm \<noteq> [] \<longrightarrow> now_secs env \<le> tc_exp claims + 60 \<longrightarrow>
             snd (resolve_identity env cache headers) = Inr (claims_identity (token_claims.truncate claims)))))"
proof -
  obtain tenant subject where row: "insert_revocation (revoked_row lib tm t0 token tenant subject) table =
        table @ [revoked_row lib tm t0 token tenant subject]"
    and revoked: "revoke_token lib tm t0 token st = Inr (st\<lparr>rs_table := Some (table @ [revoked_row lib tm t0 token tenant subject])\<rparr>)"
    using revoke_token_records [OF assms] by blast
  let ?row = "revoked_row lib tm t0 token tenant subject" let ?until = "revoked_until lib tm t0 token * 1000000000"
  have refused: "isl (snd (resolve_identity env cache headers))"
    if "extract_token headers = Some token" "\<not> gateway_headers_trusted (ax_var env)"
      "ax_revocation env = Some (revocation_checker (tk_hash lib) (ax_now env) (Some table'))"
      "ax_now env < ?until" "(revocation_step (tk_hash lib) (ax_now env))\<^sup>*\<^sup>* (table @ [?row]) table'"
    for env cache headers table'
  proof -
    have "?row \<in> set table'" using revocation_steps_keep [OF that(5), of ?row] that(4) by (simp add: revoked_row_def)
    then have "is_token_revoked env token = Inr True"
      using that(3,4) by (auto simp: is_token_revoked_def revocation_checker_def is_revoked_def list_ex_iff revoked_row_def
          intro!: bexI [of _ ?row])
    then show ?thesis using that(1) by (simp add: resolve_by_token [OF that(2)] split: prod.splits sum.splits)
  qed
  have lapsed: "snd (resolve_identity env cache headers) = Inr (claims_identity claims)"
    if "extract_token headers = Some token" "\<not> gateway_headers_trusted (ax_var env)"
      "ax_revocation env = Some (revocation_checker (tk_hash lib) (ax_now env) (Some (table @ [?row])))"
      "?until \<le> ax_now env" "snd (verify_token_async env cache token) = Inr claims" for env cache headers claims
  proof -
    have "is_token_revoked env token = Inr False"
      using that(3,4) assms(3)
      by (auto simp: is_token_revoked_def revocation_checker_def is_revoked_def list_ex_iff revoked_row_def)
    then show ?thesis
      using that(1,5) by (cases "verify_token_async env cache token") (simp add: resolve_by_token [OF that(2)])
  qed
  show ?thesis
    using revoked refused lapsed lapsed [OF _ _ _ _ shared_secret_verifies]
    by (intro exI [of _ "st\<lparr>rs_table := Some (table @ [?row])\<rparr>"]) auto
qed

section \<open>A library of tokens that meets its contract\<close>

text \<open>Three tokens: one of tenant \<open>t\<close> and one that names tenant \<open>u\<close>, both under the key of
  tenant \<open>t\<close>, and one under the shared secret.\<close>

definition demo_claims :: "string \<Rightarrow> bool \<Rightarrow> issued_claims" where
  "demo_claims t superuser =
     \<lparr>tc_sub = ''p'', tc_tenant_id = t, tc_policies = [''r''], tc_superuser = superuser, tc_exp = 5,
      ic_iss = ''i'', ic_aud = ''a'', ic_iat = 1\<rparr>"

definition demo_tokens :: "(string \<times> jwt_header \<times> issued_claims \<times> bytes) list" where
  "demo_tokens =
     [(''x'', signing_header ''wslv-1'', demo_claims ''t'' False, [1]),
      (''y'', signing_header ''wslv-1'', demo_claims ''u'' True, [1]),
      (''z'', \<lparr>jh_alg = HS256, jh_kid = None\<rparr>, demo_claims ''t'' False, str_bytes ''s'')]"

definition demo_chars :: "bytes \<Rightarrow> string" where
  "demo_chars bs = map (\<lambda>b. char_of (unat b)) bs"

definition demo_public :: "bytes \<Rightarrow> bytes" where
  "demo_public sk = replicate 32 (case sk of [] \<Rightarrow> 0 | b # _ \<Rightarrow> b)"

definition demo_decode :: "jwt_alg \<Rightarrow> bytes \<Rightarrow> int \<Rightarrow> string \<Rightarrow> string + token_claims" where
  "demo_decode alg key now token =
     (case map_of demo_tokens token of
        None \<Rightarrow> Inl ''unknown''
      | Some (h, c, k) \<Rightarrow>
          if jh_alg h = alg \<and> key = (if alg = EdDSA then demo_public k else k) \<and> now \<le> tc_exp c + 60
          then Inr (token_claims.truncate c) else Inl ''rejected'')"

definition demo_token_lib :: token_lib where
  "demo_token_lib =
     \<lparr>tk_jwt = \<lparr>jw_decode_header = (\<lambda>token. case map_of demo_tokens token of Some (h, _) \<Rightarrow> Inr h | None \<Rightarrow> Inl ''unknown''),
               jw_decode = demo_decode\<rparr>,
      tk_encode = (\<lambda>h c sk. case find (\<lambda>(_, e). e = (h, c, sk)) demo_tokens of Some (token, _) \<Rightarrow> Inr token | None \<Rightarrow> Inl ''none''),
      tk_validate = (\<lambda>iss aud secret now token.
        case map_of demo_tokens token of
          Some (h, c, k) \<Rightarrow>
            if jh_alg h = HS256 \<and> k = secret \<and> ic_iss c = iss \<and> ic_aud c = aud \<and> now \<le> tc_exp c then Inr c else Inl ''rejected''
        | None \<Rightarrow> Inl ''unknown''),
      tk_public_of = (\<lambda>sk. Some (demo_public sk)),
      tk_b64url_encode = demo_chars, tk_b64url_decode = (\<lambda>s. Inr (str_bytes s)),
      tk_hash = \<lparr>hl_sha256_hex = (\<lambda>b. if b = str_bytes ''z'' then ''z'' else []), hl_from_timestamp = (\<lambda>n. Some (n * 1000000000))\<rparr>\<rparr>"

definition demo_manager :: token_manager where
  "demo_manager = \<lparr>tm_secret = str_bytes ''s'', tm_issuer = ''i'', tm_audience = ''a''\<rparr>"

definition demo_signing_env :: signing_env where
  "demo_signing_env =
     \<lparr>se_lib = demo_token_lib, se_now = 0, se_tenants = [''t''], se_pkcs8 = Some [1], se_uuid = ''1'',
      se_wrap = (\<lambda>_ x _. Inr (demo_chars x)), se_unwrap = (\<lambda>_ w _. Inr (str_bytes w))\<rparr>"

definition demo_signing_row :: signing_key_row where
  "demo_signing_row =
     \<lparr>sk_kid = ''wslv-1'', sk_tenant_id = Some ''t'', sk_public_key = tk_b64url_encode demo_token_lib (demo_public [1]),
      sk_wrapped_private_key = demo_chars [1], sk_state = ''active'', sk_created_at = 0, sk_retired_at = None\<rparr>"

definition demo_signing_keys :: signing_keys where
  "demo_signing_keys = \<lparr>ss_table = [demo_signing_row], ss_cache = [(''wslv-1'', [1])], ss_public = []\<rparr>"

definition demo_auth_env :: "datetime \<Rightarrow> revoked_token list \<Rightarrow> auth_env" where
  "demo_auth_env now table =
     \<lparr>ax_var = [''VAULT_JWKS_URL'' \<mapsto> ''u'', ''VAULT_JWT_SECRET'' \<mapsto> ''s''], ax_now = now, ax_jwt = tk_jwt demo_token_lib,
      ax_b64url = (\<lambda>s. Some (str_bytes s)), ax_fetch = (\<lambda>_. Inr (jwks demo_signing_keys)),
      ax_revocation = Some (revocation_checker (tk_hash demo_token_lib) now (Some table))\<rparr>"

lemma str_bytes_chars: "str_bytes (demo_chars bs) = bs"
proof -
  have "word_of_nat (of_char (char_of (unat b) :: char)) = b" for b :: "8 word"
    using unsigned_less [of b, where ?'a = nat] by simp
  then show ?thesis by (simp add: str_bytes_def demo_chars_def comp_def)
qed

lemma demo_decodes:
  assumes "map_of demo_tokens token = Some (h, c, k)"
  shows "jw_decode_header (tk_jwt demo_token_lib) token = Inr h"
    "now \<le> tc_exp c + 60 \<Longrightarrow> jw_decode (tk_jwt demo_token_lib) (jh_alg h) (if jh_alg h = EdDSA then demo_public k else k) now token =
       Inr (token_claims.truncate c)"
  using assms by (simp_all add: demo_token_lib_def demo_decode_def)

lemma demo_encoded: "tk_encode demo_token_lib h c sk = Inr token \<Longrightarrow> map_of demo_tokens token = Some (h, c, sk)"
  by (auto simp: demo_token_lib_def demo_tokens_def split: if_splits)

lemma demo_validated:
  "tk_validate demo_token_lib iss aud secret now token = Inr c \<Longrightarrow>
   \<exists>h. map_of demo_tokens token = Some (h, c, secret) \<and> jh_alg h = HS256"
  by (auto simp: demo_token_lib_def split: option.splits if_splits)

lemma demo_public_of [simp]: "tk_public_of demo_token_lib sk = Some (demo_public sk)"
  by (simp add: demo_token_lib_def)

lemma demo_eddsa_ok: "eddsa_ok demo_token_lib"
  unfolding eddsa_ok_def
proof (intro allI impI)
  fix h c sk pk token now
  assume h: "jh_alg h = EdDSA" "tk_public_of demo_token_lib sk = Some pk" "tk_encode demo_token_lib h c sk = Inr token"
  note d = demo_decodes [OF demo_encoded [OF h(3)]]
  from d h(1,2) show "jw_decode_header (tk_jwt demo_token_lib) token = Inr h \<and>
     (now \<le> tc_exp c + 60 \<longrightarrow> jw_decode (tk_jwt demo_token_lib) EdDSA pk now token = Inr (token_claims.truncate c))"
    by simp
qed

lemma demo_hs256_ok: "hs256_ok demo_token_lib"
  unfolding hs256_ok_def
proof (intro allI impI)
  fix iss aud secret t0 token c now
  assume "tk_validate demo_token_lib iss aud secret t0 token = Inr c"
  then obtain h where h: "map_of demo_tokens token = Some (h, c, secret)" "jh_alg h = HS256" using demo_validated by blast
  from demo_decodes [OF h(1)] h(2) show "(\<exists>h. jw_decode_header (tk_jwt demo_token_lib) token = Inr h \<and> jh_alg h = HS256) \<and>
     (now \<le> tc_exp c + 60 \<longrightarrow> jw_decode (tk_jwt demo_token_lib) HS256 secret now token = Inr (token_claims.truncate c))"
    by simp
qed

lemma demo_wrap_ok: "wrap_ok demo_signing_env"
  by (simp add: wrap_ok_def demo_signing_env_def demo_token_lib_def str_bytes_chars demo_public_def)

lemma demo_signs_for: "signs_for demo_token_lib demo_signing_row [1]"
  by (simp add: signs_for_def demo_signing_row_def demo_token_lib_def str_bytes_chars demo_public_def)

lemma demo_signing_ok: "signing_ok demo_signing_env demo_signing_keys"
  using demo_signs_for by (simp add: signing_ok_def demo_signing_keys_def demo_signing_env_def demo_signing_row_def str_bytes_chars)

lemma demo_verifier: "verifier (demo_auth_env now table) demo_token_lib demo_signing_keys"
  by (simp add: verifier_def demo_auth_env_def demo_token_lib_def gateway_headers_trusted_def trim_def trim_where_def)

lemma demo_header: "token \<in> {''x'', ''y'', ''z''} \<Longrightarrow> extract_token [(''x-vault-token'', token)] = Some token"
  by (elim insertE emptyE; hypsubst; code_simp)

lemma demo_now: "ax_now (demo_auth_env now table) = now" "now_secs (demo_auth_env now table) = now div 1000000000"
  by (simp_all add: now_secs_def demo_auth_env_def)

lemma demo_unrevoked: "is_token_revoked (demo_auth_env now []) token = Inr False"
  by (simp add: is_token_revoked_def demo_auth_env_def revocation_checker_def is_revoked_def)

lemma demo_signer_for:
  "signer_for demo_signing_env (Some ''t'') \<lparr>ss_table = [], ss_cache = [], ss_public = []\<rparr> = (demo_signing_keys, Inr (''wslv-1'', [1]))"
  by (simp add: signer_for_def active_key_def active_for_tenant_def generate_def demo_signing_env_def demo_signing_keys_def
      demo_signing_row_def insert_active_def unwrap_key_def wrap_tenant_def str_bytes_chars Let_def)

lemma demo_encodes:
  "tk_encode demo_token_lib (signing_header ''wslv-1'') (demo_claims ''t'' False) [1] = Inr ''x''"
  "tk_encode demo_token_lib (signing_header ''wslv-1'') (demo_claims ''u'' True) [1] = Inr ''y''"
  by (simp_all add: demo_token_lib_def demo_tokens_def demo_claims_def)

theorem issued_token_accepted_witness:
  "snd (resolve_identity (demo_auth_env 4000000000 []) empty_jwks [(''x-vault-token'', ''x'')]) =
     Inr \<lparr>id_tenant_id = ''t'', id_principal_id = ''p'', id_policies = [''r''], id_expires_at = Some 5, id_superuser = False\<rparr>"
proof -
  have lib: "se_lib demo_signing_env = demo_token_lib" by (simp add: demo_signing_env_def)
  have "signing_ok demo_signing_env \<lparr>ss_table = [], ss_cache = [], ss_public = []\<rparr>" by (simp add: signing_ok_def)
  moreover have "issue_token_with_key demo_token_lib demo_manager 1 ''p'' ''t'' [''r''] 4 [1] (signing_header ''wslv-1'') False = Inr (''x'', 5000000000)"
    using demo_encodes(1) by (simp add: issue_token_with_key_def demo_manager_def demo_claims_def Let_def and_then_def ok_or_def)
      (simp add: demo_token_lib_def)
  ultimately show ?thesis
    using issued_token_accepted [OF _ demo_wrap_ok _ demo_signer_for, of demo_manager 1 "''p''" "''t''" "[''r'']" 4 False "''x''" 5000000000
        "demo_auth_env 4000000000 []" "[(''x-vault-token'', ''x'')]"]
    by (simp add: lib demo_eddsa_ok demo_verifier demo_header demo_unrevoked demo_now)
qed

theorem tenant_key_signs_for_all_witness:
  "\<exists>i. snd (resolve_identity (demo_auth_env 4000000000 []) empty_jwks [(''x-vault-token'', ''y'')]) = Inr i \<and>
     id_tenant_id i = ''u'' \<and> is_platform_admin (ax_var (demo_auth_env 4000000000 [])) i"
proof -
  have row: "demo_signing_row \<in> set (ss_table demo_signing_keys)" "sk_state demo_signing_row = ''active''"
      "sk_tenant_id demo_signing_row = Some ''t''" "sk_kid demo_signing_row = ''wslv-1''"
    by (simp_all add: demo_signing_keys_def demo_signing_row_def)
  have "now_secs (demo_auth_env 4000000000 []) \<le> 5" by (simp add: demo_now)
  with tenant_key_signs_for_all [OF demo_eddsa_ok demo_signing_ok demo_verifier row(1-3) demo_signs_for _ _ demo_header demo_unrevoked,
      of "''p''" "''u''" "[''r'']" 5 "''i''" "''a''" 1 "''y''" 4000000000]
  show ?thesis using demo_encodes(2) row(4) by (auto simp: demo_claims_def)
qed

theorem revocation_holds_until_expiry_witness:
  "\<exists>st'. revoke_token demo_token_lib demo_manager 3000000000 ''z'' \<lparr>rs_table = Some [], rs_set = {}\<rparr> = Inr st' \<and>
     isl (snd (resolve_identity (demo_auth_env 4000000000 (the (rs_table st'))) empty_jwks [(''x-vault-token'', ''z'')])) \<and>
     \<not> isl (snd (resolve_identity (demo_auth_env 6000000000 (the (rs_table st'))) empty_jwks [(''x-vault-token'', ''z'')]))"
proof -
  have valid: "validate_token demo_token_lib demo_manager (3000000000 div 1000000000) ''z'' = Inr (demo_claims ''t'' False)"
    by (simp add: validate_token_def demo_token_lib_def demo_tokens_def demo_manager_def demo_claims_def)
  have env: "\<not> gateway_headers_trusted (ax_var (demo_auth_env now table))" "ax_jwt (demo_auth_env now table) = tk_jwt demo_token_lib"
      "ax_revocation (demo_auth_env now table) = Some (revocation_checker (tk_hash demo_token_lib) (ax_now (demo_auth_env now table)) (Some table))"
      "ax_var (demo_auth_env now table) ''VAULT_JWT_SECRET'' = Some ''s''" for now table
    using demo_verifier [of now table] by (simp_all add: verifier_def demo_auth_env_def)
  have until: "revoked_until demo_token_lib demo_manager 3000000000 ''z'' = 5"
    using valid by (simp add: revoked_until_def demo_claims_def)
  have "hl_from_timestamp (tk_hash demo_token_lib) (revoked_until demo_token_lib demo_manager 3000000000 ''z'') =
      Some (revoked_until demo_token_lib demo_manager 3000000000 ''z'' * 1000000000)"
    by (simp add: demo_token_lib_def)
  from revocation_holds_until_expiry [OF _ _ _ this, of "\<lparr>rs_table = Some [], rs_set = {}\<rparr>" "[]"]
  obtain st' where st': "revoke_token demo_token_lib demo_manager 3000000000 ''z'' \<lparr>rs_table = Some [], rs_set = {}\<rparr> = Inr st'"
    and early: "\<And>env cache headers. extract_token headers = Some ''z'' \<Longrightarrow> \<not> gateway_headers_trusted (ax_var env) \<Longrightarrow>
       ax_revocation env = Some (revocation_checker (tk_hash demo_token_lib) (ax_now env) (Some (the (rs_table st')))) \<Longrightarrow>
       ax_now env < 5000000000 \<Longrightarrow> isl (snd (resolve_identity env cache headers))"
    and late: "\<And>env cache headers. extract_token headers = Some ''z'' \<Longrightarrow> \<not> gateway_headers_trusted (ax_var env) \<Longrightarrow>
       ax_revocation env = Some (revocation_checker (tk_hash demo_token_lib) (ax_now env) (Some (the (rs_table st')))) \<Longrightarrow>
       5000000000 \<le> ax_now env \<Longrightarrow> ax_jwt env = tk_jwt demo_token_lib \<Longrightarrow>
       map_option str_bytes (ax_var env ''VAULT_JWT_SECRET'') = Some (tm_secret demo_manager) \<Longrightarrow>
       tm_secret demo_manager \<noteq> [] \<Longrightarrow> now_secs env \<le> 65 \<Longrightarrow>
       snd (resolve_identity env cache headers) = Inr (claims_identity (token_claims.truncate (demo_claims ''t'' False)))"
    using valid demo_hs256_ok unfolding until by (fastforce simp: demo_claims_def)
  have z: "extract_token [(''x-vault-token'', ''z'')] = Some ''z''" by (rule demo_header) simp
  have secret: "tm_secret demo_manager = str_bytes ''s''" "str_bytes ''s'' \<noteq> []" by (simp_all add: demo_manager_def str_bytes_def)
  show ?thesis
    using st' early [OF z env(1,3)] late [OF z env(1,3)] by (auto simp: env(2,4) secret demo_now)
qed

end
