(* ===== verification/Transit_Keys.thy ===== *)
theory Transit_Keys
  imports Envelope Key_Table "HOL-Library.Sublist" "HOL-Library.Multiset" "HOL-Library.Char_ord" "HOL-Library.List_Lexorder"
begin

unbundle bit_operations_syntax

text \<open>
  Named keys of the transit-engine and what is done with them:
  \<^verbatim>\<open>services/transit-engine/src/key_store.rs\<close>, \<^verbatim>\<open>operations.rs\<close> and \<^verbatim>\<open>pg_store.rs\<close>.

  A key is a list of versions that only grows; the current one encrypts, all of them
  decrypt. The in-memory backend is a map; the PostgreSQL backend keeps the same map as a
  cache that is read from the table of key descriptors at start-up only. What both promise
  is the locale \<open>transit_store\<close>. Indexing past the versions panics in the source and is
  \<^term>\<open>None\<close> here. Random bytes, fresh ids and the time of a call are its draws.
\<close>

section \<open>Keys\<close>

datatype transit_algorithm = TransitAes256Gcm

fun transit_algorithm_as_str :: "transit_algorithm \<Rightarrow> string" where
  "transit_algorithm_as_str TransitAes256Gcm = ''aes256-gcm''"

record transit_version =
  tv_version :: u32
  tv_material :: bytes

record transit_key =
  ty_name :: string
  ty_versions :: "transit_version list"
  ty_current_version :: u32
  ty_algorithm :: transit_algorithm
  ty_created_at :: datetime

text \<open>\<^verbatim>\<open>(version as usize).saturating_sub(1)\<close>: the place of a version in the list.\<close>

definition version_index :: "u32 \<Rightarrow> nat" where
  "version_index version = unat version - 1"

definition material_for_version :: "transit_key \<Rightarrow> u32 \<Rightarrow> bytes option" where
  "material_for_version key version =
     (if version_index version < length (ty_versions key)
      then Some (tv_material (ty_versions key ! version_index version)) else None)"

text \<open>The current version is indexed without a check.\<close>

definition current_material :: "transit_key \<Rightarrow> bytes option" where
  "current_material key = material_for_version key (ty_current_version key)"

record transit_key_summary =
  ts_name :: string
  ts_current_version :: u32
  ts_algorithm :: transit_algorithm
  ts_created_at :: datetime

definition summary_of :: "transit_key \<Rightarrow> transit_key_summary" where
  "summary_of key =
     \<lparr>ts_name = ty_name key, ts_current_version = ty_current_version key,
      ts_algorithm = ty_algorithm key, ts_created_at = ty_created_at key\<rparr>"

section \<open>Operations\<close>

record transit_lib =
  tl_crypto :: crypto_lib
  tl_hmac :: "bytes \<Rightarrow> bytes \<Rightarrow> bytes"
  tl_hex_decode :: "string \<Rightarrow> bytes option"

definition CIPHERTEXT_PREFIX :: string where
  "CIPHERTEXT_PREFIX = ''vault:v''"

definition transit_encrypt :: "crypto_lib \<Rightarrow> bytes option \<Rightarrow> transit_key \<Rightarrow> bytes \<Rightarrow> (vault_error + string) option" where
  "transit_encrypt lib draw key plaintext =
     (case current_material key of
        None \<Rightarrow> None
      | Some dek \<Rightarrow>
          Some (and_then (encrypt_with_dek lib draw dek plaintext (str_bytes (ty_name key))) (\<lambda>envelope.
            Inr (CIPHERTEXT_PREFIX @ show_nat (unat (ty_current_version key)) @ '':'' @ env_ciphertext_b64 envelope))))"

definition parse_versioned_ciphertext :: "string \<Rightarrow> vault_error + u32 \<times> string" where
  "parse_versioned_ciphertext ciphertext =
     and_then (ok_or DecryptionFailed (strip_prefix CIPHERTEXT_PREFIX ciphertext)) (\<lambda>after_prefix.
     and_then (ok_or DecryptionFailed (split_once CHR '':'' after_prefix)) (\<lambda>(version_str, b64_body).
     and_then (ok_or DecryptionFailed (parse_u32 version_str)) (\<lambda>version. Inr (version, b64_body))))"

definition transit_decrypt :: "crypto_lib \<Rightarrow> transit_key \<Rightarrow> string \<Rightarrow> vault_error + bytes" where
  "transit_decrypt lib key versioned_ciphertext =
     and_then (parse_versioned_ciphertext versioned_ciphertext) (\<lambda>(version, b64_body).
     and_then (ok_or (KeyNotFound (ty_name key @ '':v'' @ show_nat (unat version))) (material_for_version key version)) (\<lambda>dek.
     decrypt_with_dek lib dek b64_body (str_bytes (ty_name key))))"

definition transit_rewrap :: "crypto_lib \<Rightarrow> bytes option \<Rightarrow> transit_key \<Rightarrow> string \<Rightarrow> (vault_error + string) option" where
  "transit_rewrap lib draw key old_ciphertext =
     (case transit_decrypt lib key old_ciphertext of
        Inl e \<Rightarrow> Some (Inl e)
      | Inr plaintext \<Rightarrow> transit_encrypt lib draw key plaintext)"

definition mac_subkey :: "crypto_lib \<Rightarrow> bytes \<Rightarrow> bytes option" where
  "mac_subkey lib key_material =
     (case derive_key lib key_material None (str_bytes ''wslvault:transit:mac:v1'') of Inr k \<Rightarrow> Some k | Inl _ \<Rightarrow> None)"

definition sign_data :: "transit_lib \<Rightarrow> bytes \<Rightarrow> bytes \<Rightarrow> string option" where
  "sign_data lib key data =
     map_option (\<lambda>mac_key. hex_encode (tl_crypto lib) (tl_hmac lib mac_key data)) (mac_subkey (tl_crypto lib) key)"

definition verify_data :: "transit_lib \<Rightarrow> bytes \<Rightarrow> bytes \<Rightarrow> string \<Rightarrow> bool option" where
  "verify_data lib key data signature =
     (case tl_hex_decode lib signature of
        None \<Rightarrow> Some False
      | Some sig_bytes \<Rightarrow> map_option (\<lambda>mac_key. tl_hmac lib mac_key data = sig_bytes) (mac_subkey (tl_crypto lib) key))"

section \<open>In-memory backend\<close>

type_synonym transit_map = "(string \<times> string, transit_key) hash_map"

record transit_draws =
  td_now :: datetime
  td_material :: bytes
  td_nonce :: "bytes option"
  td_id :: string

definition already_exists :: "string \<Rightarrow> string \<Rightarrow> vault_error" where
  "already_exists tenant_id key_name =
     ValidationError ''key_name'' (''key '' @ [CHR 0x27] @ key_name @ [CHR 0x27] @ '' already exists for tenant '' @
       [CHR 0x27] @ tenant_id @ [CHR 0x27])"

definition first_key :: "transit_draws \<Rightarrow> string \<Rightarrow> transit_key" where
  "first_key draws key_name =
     \<lparr>ty_name = key_name, ty_versions = [\<lparr>tv_version = 1, tv_material = td_material draws\<rparr>],
      ty_current_version = 1, ty_algorithm = TransitAes256Gcm, ty_created_at = td_now draws\<rparr>"

definition next_version :: "bytes \<Rightarrow> u32 \<Rightarrow> transit_key \<Rightarrow> transit_key" where
  "next_version material new_version key =
     key\<lparr>ty_versions := ty_versions key @ [\<lparr>tv_version = new_version, tv_material = material\<rparr>],
         ty_current_version := new_version\<rparr>"

definition mem_create_key :: "transit_draws \<Rightarrow> string \<Rightarrow> string \<Rightarrow> transit_map \<Rightarrow> transit_map \<times> (vault_error + unit)" where
  "mem_create_key draws tenant_id key_name store =
     (if hm_get store (tenant_id, key_name) \<noteq> None then (store, Inl (already_exists tenant_id key_name))
      else (hm_insert (tenant_id, key_name) (first_key draws key_name) store, Inr ()))"

definition transit_get_key :: "transit_map \<Rightarrow> string \<Rightarrow> string \<Rightarrow> vault_error + transit_key" where
  "transit_get_key store tenant_id key_name =
     ok_or (KeyNotFound (tenant_id @ ''/'' @ key_name)) (hm_get store (tenant_id, key_name))"

definition mem_rotate_key :: "transit_draws \<Rightarrow> string \<Rightarrow> string \<Rightarrow> transit_map \<Rightarrow> transit_map \<times> (vault_error + u32)" where
  "mem_rotate_key draws tenant_id key_name store =
     (case hm_get store (tenant_id, key_name) of
        None \<Rightarrow> (store, Inl (KeyNotFound (tenant_id @ ''/'' @ key_name)))
      | Some key \<Rightarrow>
          let new_version = ty_current_version key + 1
          in (hm_insert (tenant_id, key_name) (next_version (td_material draws) new_version key) store, Inr new_version))"

definition transit_list_keys :: "transit_map \<Rightarrow> string \<Rightarrow> transit_key_summary list" where
  "transit_list_keys store tenant_id =
     sort_key ts_name (map (\<lambda>(_, key). summary_of key) (filter (\<lambda>((owner, _), _). owner = tenant_id) store))"

section \<open>PostgreSQL backend\<close>

record transit_env =
  tn_lib :: crypto_lib
  tn_root_key :: bytes
  tn_tenants :: "string list"
  tn_parse_uuid :: "string \<Rightarrow> string option"
  tn_sha256 :: "bytes \<Rightarrow> bytes"
  tn_uuid_text :: "bytes \<Rightarrow> string"

record pg_transit =
  pt_table :: key_table
  pt_cache :: transit_map

definition tenant_id_to_uuid :: "transit_env \<Rightarrow> string \<Rightarrow> string" where
  "tenant_id_to_uuid env tenant_id =
     (case tn_parse_uuid env tenant_id of
        Some u \<Rightarrow> u
      | None \<Rightarrow>
          let buf = take 16 (tn_sha256 env (str_bytes tenant_id));
              buf = buf[6 := (buf ! 6 AND 0x0f) OR 0x40];
              buf = buf[8 := (buf ! 8 AND 0x3f) OR 0x80]
          in tn_uuid_text env buf)"

definition transit_load_root_key :: "crypto_lib \<Rightarrow> (string \<Rightarrow> string option) \<Rightarrow> vault_error + bytes" where
  "transit_load_root_key lib var =
     and_then (ok_or (Internal (''VAULT_ROOT_KEY is required by the PostgreSQL transit backend: '' @
                 ''key material cannot be persisted without a key to wrap it under'')) (var ''VAULT_ROOT_KEY'')) (\<lambda>encoded.
     case b64_decode lib (trim encoded) of
       Inl e \<Rightarrow> Inl (Internal (''VAULT_ROOT_KEY is not valid base64: '' @ e))
     | Inr raw \<Rightarrow>
         if length raw \<noteq> 32 then Inl (Internal (''VAULT_ROOT_KEY must decode to 32 bytes, got '' @ show_nat (length raw)))
         else Inr raw)"

definition transit_wrap_aad :: "string \<Rightarrow> string \<Rightarrow> u32 \<Rightarrow> bytes" where
  "transit_wrap_aad tenant_id key_name version =
     str_bytes (''transit:'' @ tenant_id @ '':'' @ key_name @ '':v'' @ show_nat (unat version))"

definition wrap_material :: "transit_env \<Rightarrow> bytes option \<Rightarrow> string \<Rightarrow> string \<Rightarrow> u32 \<Rightarrow> bytes \<Rightarrow> vault_error + string" where
  "wrap_material env draw tenant_id key_name version material =
     and_then (encrypt_with_dek (tn_lib env) draw (tn_root_key env) material (transit_wrap_aad tenant_id key_name version))
       (\<lambda>envelope. Inr (env_ciphertext_b64 envelope))"

definition unwrap_material :: "transit_env \<Rightarrow> string \<Rightarrow> string \<Rightarrow> u32 \<Rightarrow> string \<Rightarrow> vault_error + bytes" where
  "unwrap_material env tenant_id key_name version wrapped =
     and_then (decrypt_with_dek (tn_lib env) (tn_root_key env) wrapped (transit_wrap_aad tenant_id key_name version))
       (\<lambda>plaintext.
          if length plaintext \<noteq> 32
          then Inl (Internal (''unwrapped transit key is '' @ show_nat (length plaintext) @ '' bytes, expected 32''))
          else Inr plaintext)"

definition active_descriptor_id_for :: "key_table \<Rightarrow> string \<Rightarrow> string \<Rightarrow> vault_error + string" where
  "active_descriptor_id_for table tenant_uuid key_name =
     (case sort_key (\<lambda>r. - kr_version r) (filter (\<lambda>r. kr_tenant_id r = Some tenant_uuid \<and> kr_key_name r = Some key_name \<and>
             kr_purpose r = ''transit'' \<and> kr_state r = ''active'') table) of
        [] \<Rightarrow> Inl (KeyNotFound (tenant_uuid @ ''/'' @ key_name))
      | row # _ \<Rightarrow> Inr (kr_id row))"

definition transit_descriptor :: "transit_env \<Rightarrow> transit_draws \<Rightarrow> string \<Rightarrow> u32 \<Rightarrow> key_descriptor" where
  "transit_descriptor env draws tenant_uuid version =
     \<lparr>kd_id = td_id draws, kd_version = version, kd_algorithm = Aes256Gcm, kd_purpose = TransitKey,
      kd_state = KeyActive, kd_tenant_id = Some tenant_uuid, kd_created_at = td_now draws,
      kd_rotated_at = None, kd_expires_at = None\<rparr>"

text \<open>One row of the table joins the cache; a row without tenant or name, or one that does not
  unwrap, is skipped.\<close>

definition load_row :: "transit_env \<Rightarrow> datetime \<Rightarrow> persisted_key_entry \<Rightarrow> transit_map \<Rightarrow> transit_map" where
  "load_row env now row cache =
     (case (pk_tenant_id row, pk_key_name row) of
        (Some tenant_id, Some key_name) \<Rightarrow>
          (case unwrap_material env tenant_id key_name (pk_version row) (pk_wrapped_key row) of
             Inl _ \<Rightarrow> cache
           | Inr material \<Rightarrow>
               let entry = (case hm_get cache (tenant_id, key_name) of
                              Some key \<Rightarrow> key
                            | None \<Rightarrow> \<lparr>ty_name = key_name, ty_versions = [], ty_current_version = 0,
                                       ty_algorithm = TransitAes256Gcm, ty_created_at = now\<rparr>)
               in hm_insert (tenant_id, key_name)
                    (entry\<lparr>ty_versions := ty_versions entry @ [\<lparr>tv_version = pk_version row, tv_material = material\<rparr>],
                           ty_current_version := max (ty_current_version entry) (pk_version row)\<rparr>) cache)
      | _ \<Rightarrow> cache)"

definition load_from_pg :: "transit_env \<Rightarrow> datetime \<Rightarrow> key_table \<Rightarrow> pg_transit" where
  "load_from_pg env now table =
     \<lparr>pt_table = table,
      pt_cache = fold (load_row env now) (list_loadable_keys_with_wrapped_key table TransitKey) []\<rparr>"

definition pg_create_key :: "transit_env \<Rightarrow> transit_draws \<Rightarrow> string \<Rightarrow> string \<Rightarrow> pg_transit \<Rightarrow> pg_transit \<times> (vault_error + unit)" where
  "pg_create_key env draws tenant_id key_name st =
     (if hm_get (pt_cache st) (tenant_id, key_name) \<noteq> None then (st, Inl (already_exists tenant_id key_name))
      else case wrap_material env (td_nonce draws) tenant_id key_name 1 (td_material draws) of
             Inl e \<Rightarrow> (st, Inl e)
           | Inr wrapped \<Rightarrow>
      case insert_named_key_descriptor (tn_parse_uuid env) (tn_tenants env) (td_now draws)
             (transit_descriptor env draws (tenant_id_to_uuid env tenant_id) 1) wrapped None (Some key_name) (pt_table st) of
             Inl e \<Rightarrow> (st, Inl e)
           | Inr table \<Rightarrow>
               (st\<lparr>pt_table := table,
                   pt_cache := hm_insert (tenant_id, key_name) (first_key draws key_name) (pt_cache st)\<rparr>, Inr ()))"

text \<open>The outgoing row changes state before the new one is wrapped and inserted.\<close>

definition pg_rotate_key :: "transit_env \<Rightarrow> transit_draws \<Rightarrow> string \<Rightarrow> string \<Rightarrow> pg_transit \<Rightarrow> pg_transit \<times> (vault_error + u32)" where
  "pg_rotate_key env draws tenant_id key_name st =
     (case hm_get (pt_cache st) (tenant_id, key_name) of
        None \<Rightarrow> (st, Inl (KeyNotFound (tenant_id @ ''/'' @ key_name)))
      | Some existing \<Rightarrow>
          let new_version = ty_current_version existing + 1;
              tenant_uuid = tenant_id_to_uuid env tenant_id
          in case active_descriptor_id_for (pt_table st) tenant_uuid key_name of
               Inl e \<Rightarrow> (st, Inl e)
             | Inr outgoing_id \<Rightarrow>
          case update_key_state (td_now draws) outgoing_id KeyRotatingOut (pt_table st) of
               Inl e \<Rightarrow> (st, Inl e)
             | Inr table \<Rightarrow>
          case wrap_material env (td_nonce draws) tenant_id key_name new_version (td_material draws) of
               Inl e \<Rightarrow> (st\<lparr>pt_table := table\<rparr>, Inl e)
             | Inr wrapped \<Rightarrow>
          case insert_named_key_descriptor (tn_parse_uuid env) (tn_tenants env) (td_now draws)
                 (transit_descriptor env draws tenant_uuid new_version) wrapped None (Some key_name) table of
               Inl e \<Rightarrow> (st\<lparr>pt_table := table\<rparr>, Inl e)
             | Inr table \<Rightarrow>
                 (st\<lparr>pt_table := table,
                     pt_cache := hm_insert (tenant_id, key_name) (next_version (td_material draws) new_version existing) (pt_cache st)\<rparr>,
                  Inr new_version))"

section \<open>Histories\<close>

text \<open>Keys are 32 random bytes and nonces 12, as their types have it.\<close>

definition transit_draws_ok :: "transit_draws \<Rightarrow> bool" where
  "transit_draws_ok draws \<longleftrightarrow> length (td_material draws) = 32 \<and> (\<forall>n. td_nonce draws = Some n \<longrightarrow> length n = 12)"

inductive mem_transit_step :: "transit_map \<Rightarrow> transit_map \<Rightarrow> bool" where
  mem_created: "transit_draws_ok draws \<Longrightarrow> mem_transit_step st (fst (mem_create_key draws t n st))"
| mem_rotated: "transit_draws_ok draws \<Longrightarrow> \<forall>key. hm_get st (t, n) = Some key \<longrightarrow> unat (ty_current_version key) < 2 ^ 31 - 1 \<Longrightarrow>
    mem_transit_step st (fst (mem_rotate_key draws t n st))"

text \<open>With PostgreSQL the tenant ids are canonical UUIDs; other services add rows for their
  own, unnamed keys; and the process restarts.\<close>

inductive pg_transit_step :: "transit_env \<Rightarrow> pg_transit \<Rightarrow> pg_transit \<Rightarrow> bool" for env where
  pg_created: "transit_draws_ok draws \<Longrightarrow> tn_parse_uuid env t = Some t \<Longrightarrow>
    pg_transit_step env st (fst (pg_create_key env draws t n st))"
| pg_rotated: "transit_draws_ok draws \<Longrightarrow> tn_parse_uuid env t = Some t \<Longrightarrow>
    \<forall>key. hm_get (pt_cache st) (t, n) = Some key \<longrightarrow> unat (ty_current_version key) < 2 ^ 31 - 1 \<Longrightarrow>
    pg_transit_step env st (fst (pg_rotate_key env draws t n st))"
| pg_other: "insert_key_row (tn_tenants env) row (pt_table st) = Inr table \<Longrightarrow> kr_purpose row \<noteq> ''transit'' \<Longrightarrow>
    kr_key_name row = None \<Longrightarrow> pg_transit_step env st (st\<lparr>pt_table := table\<rparr>)"
| pg_restarted: "length (pt_table st) < 2 ^ 63 \<Longrightarrow> pg_transit_step env st (load_from_pg env now (pt_table st))"

section \<open>Well-formed keys\<close>

definition transit_key_ok :: "string \<Rightarrow> transit_key \<Rightarrow> bool" where
  "transit_key_ok n key \<longleftrightarrow>
     ty_name key = n \<and> ty_versions key \<noteq> [] \<and> length (ty_versions key) < 2 ^ 31 \<and>
     unat (ty_current_version key) = length (ty_versions key) \<and>
     (\<forall>i < length (ty_versions key). tv_version (ty_versions key ! i) = of_nat (i + 1) \<and>
        length (tv_material (ty_versions key ! i)) = 32)"

text \<open>The rows of a named key, and a row that holds one of its versions.\<close>

definition transit_rows :: "key_table \<Rightarrow> string \<Rightarrow> string \<Rightarrow> key_row list" where
  "transit_rows table t n =
     filter (\<lambda>r. kr_purpose r = ''transit'' \<and> kr_tenant_id r = Some t \<and> kr_key_name r = Some n) table"

definition row_holds :: "transit_env \<Rightarrow> string \<Rightarrow> string \<Rightarrow> key_row \<Rightarrow> transit_version \<Rightarrow> bool" where
  "row_holds env t n row v \<longleftrightarrow>
     loadable row \<and> kr_version row = sint (tv_version v) \<and>
     unwrap_material env t n (tv_version v) (kr_wrapped_key row) = Inr (tv_material v)"

definition pg_transit_ok :: "transit_env \<Rightarrow> pg_transit \<Rightarrow> bool" where
  "pg_transit_ok env st \<longleftrightarrow>
     crypto_ok (tn_lib env) \<and> key_table_ok (pt_table st) \<and>
     (\<forall>r \<in> set (pt_table st). kr_purpose r \<noteq> ''transit'' \<longrightarrow> kr_key_name r = None) \<and>
     (\<forall>t n. case hm_get (pt_cache st) (t, n) of
        None \<Rightarrow> transit_rows (pt_table st) t n = []
      | Some key \<Rightarrow> tn_parse_uuid env t = Some t \<and> transit_key_ok n key \<and>
          list_all2 (row_holds env t n) (transit_rows (pt_table st) t n) (ty_versions key) \<and>
          (\<forall>r \<in> set (butlast (transit_rows (pt_table st) t n)). kr_state r \<noteq> ''active''))"

lemma pg_transit_okD:
  assumes "pg_transit_ok env st"
  shows "crypto_ok (tn_lib env)" "key_table_ok (pt_table st)"
    "\<And>r. r \<in> set (pt_table st) \<Longrightarrow> kr_purpose r \<noteq> ''transit'' \<Longrightarrow> kr_key_name r = None"
    "\<And>t n. hm_get (pt_cache st) (t, n) = None \<Longrightarrow> transit_rows (pt_table st) t n = []"
    "\<And>t n key. hm_get (pt_cache st) (t, n) = Some key \<Longrightarrow> tn_parse_uuid env t = Some t \<and> transit_key_ok n key \<and>
       list_all2 (row_holds env t n) (transit_rows (pt_table st) t n) (ty_versions key) \<and>
       (\<forall>r \<in> set (butlast (transit_rows (pt_table st) t n)). kr_state r \<noteq> ''active'')"
proof -
  have each: "case hm_get (pt_cache st) (t, n) of
        None \<Rightarrow> transit_rows (pt_table st) t n = []
      | Some key \<Rightarrow> tn_parse_uuid env t = Some t \<and> transit_key_ok n key \<and>
          list_all2 (row_holds env t n) (transit_rows (pt_table st) t n) (ty_versions key) \<and>
          (\<forall>r \<in> set (butlast (transit_rows (pt_table st) t n)). kr_state r \<noteq> ''active'')" for t n
    using assms unfolding pg_transit_ok_def by blast
  show "crypto_ok (tn_lib env)" "key_table_ok (pt_table st)"
    "\<And>r. r \<in> set (pt_table st) \<Longrightarrow> kr_purpose r \<noteq> ''transit'' \<Longrightarrow> kr_key_name r = None"
    using assms unfolding pg_transit_ok_def by blast+
  show "hm_get (pt_cache st) (t, n) = None \<Longrightarrow> transit_rows (pt_table st) t n = []" for t n
    using each [of t n] by simp
  show "hm_get (pt_cache st) (t, n) = Some key \<Longrightarrow> tn_parse_uuid env t = Some t \<and> transit_key_ok n key \<and>
       list_all2 (row_holds env t n) (transit_rows (pt_table st) t n) (ty_versions key) \<and>
       (\<forall>r \<in> set (butlast (transit_rows (pt_table st) t n)). kr_state r \<noteq> ''active'')" for t n key
    using each [of t n] by simp
qed

lemma first_key_ok: "transit_draws_ok draws \<Longrightarrow> transit_key_ok n (first_key draws n)"
  by (simp add: transit_key_ok_def first_key_def transit_draws_ok_def)

lemma transit_key_version:
  assumes "transit_key_ok n key"
  shows "ty_current_version key = of_nat (length (ty_versions key))" "current_material key \<noteq> None"
proof -
  have len: "unat (ty_current_version key) = length (ty_versions key)" using assms by (simp add: transit_key_ok_def)
  have "of_nat (unat (ty_current_version key)) = ty_current_version key" by simp
  then show "ty_current_version key = of_nat (length (ty_versions key))" by (simp only: len)
  show "current_material key \<noteq> None"
    using assms len by (auto simp: current_material_def material_for_version_def version_index_def transit_key_ok_def)
qed

lemma next_version_ok:
  assumes "transit_key_ok n key" "length material = 32" "unat (ty_current_version key) < 2 ^ 31 - 1"
  shows "transit_key_ok n (next_version material (ty_current_version key + 1) key)"
proof -
  have cur: "ty_current_version key = of_nat (length (ty_versions key))"
    by (rule transit_key_version(1) [OF assms(1)])
  have "unat (ty_current_version key + 1) = unat (ty_current_version key) + 1"
    using assms(3) by (simp add: unat_word_ariths(1))
  then show ?thesis
    using assms cur by (auto simp: transit_key_ok_def next_version_def nth_append less_Suc_eq)
qed

end
