(* ===== verification/Transit_Store.thy ===== *)
theory Transit_Store
  imports Transit_Keys
begin

text \<open>
  The contract of a transit key store, what encrypts under a store that meets it, and that
  both backends meet it: versions are only ever appended, through rotations that succeed or
  fail and, with PostgreSQL, through restarts.
\<close>

section \<open>Ciphertexts\<close>

lemma strip_prefix_append [simp]: "strip_prefix p (p @ s) = Some s"
  by (simp add: strip_prefix_def starts_with_def)

lemma parse_versioned: "parse_versioned_ciphertext (CIPHERTEXT_PREFIX @ show_nat (unat v) @ '':'' @ body) = Inr (v, body)"
proof -
  have "CHR '':'' \<notin> set (show_nat (unat v))" by (rule show_nat_avoids) simp
  then have "split_once CHR '':'' (show_nat (unat v) @ '':'' @ body) = Some (show_nat (unat v), body)"
    by simp
  then show ?thesis by (simp add: parse_versioned_ciphertext_def)
qed

lemma current_in_extension:
  assumes "transit_key_ok n key" "prefix (ty_versions key) (ty_versions key')"
  shows "material_for_version key' (ty_current_version key) = current_material key"
proof -
  obtain zs where zs: "ty_versions key' = ty_versions key @ zs" using assms(2) by (auto simp: prefix_def)
  have "unat (ty_current_version key) = length (ty_versions key)" "length (ty_versions key) - 1 < length (ty_versions key)"
    using assms(1) by (simp_all add: transit_key_ok_def)
  then show ?thesis by (simp add: zs current_material_def material_for_version_def version_index_def nth_append)
qed

lemma transit_decrypts:
  assumes "crypto_ok lib" "length nonce = 12" "transit_key_ok n key" "transit_key_ok n key'"
    and "prefix (ty_versions key) (ty_versions key')" "transit_encrypt lib (Some nonce) key p = Some (Inr ct)"
  shows "transit_decrypt lib key' ct = Inr p"
proof -
  obtain dek env where dek: "current_material key = Some dek" "encrypt_with_dek lib (Some nonce) dek p (str_bytes n) = Inr env"
      "ct = CIPHERTEXT_PREFIX @ show_nat (unat (ty_current_version key)) @ '':'' @ env_ciphertext_b64 env"
    using assms(3,6) by (auto simp: transit_encrypt_def transit_key_ok_def result_iff split: option.splits)
  have "material_for_version key' (ty_current_version key) = Some dek"
    using current_in_extension [OF assms(3,5)] dek(1) by simp
  moreover have "ty_name key' = n" using assms(4) by (simp add: transit_key_ok_def)
  ultimately show ?thesis
    using encrypt_decrypt [OF assms(1,2) dek(2)] unfolding dek(3) transit_decrypt_def parse_versioned by simp
qed

section \<open>The contract\<close>

locale transit_store =
  fixes ok :: "'s \<Rightarrow> bool"
    and step :: "'s \<Rightarrow> 's \<Rightarrow> bool"
    and lookup :: "'s \<Rightarrow> string \<times> string \<Rightarrow> transit_key option"
  assumes step_ok: "ok s \<Longrightarrow> step s s' \<Longrightarrow> ok s'"
    and key_ok: "ok s \<Longrightarrow> lookup s (t, n) = Some key \<Longrightarrow> transit_key_ok n key"
    and step_extends: "ok s \<Longrightarrow> step s s' \<Longrightarrow> lookup s k = Some key \<Longrightarrow>
      \<exists>key'. lookup s' k = Some key' \<and> prefix (ty_versions key) (ty_versions key')"
begin

lemma steps_ok: "step\<^sup>*\<^sup>* s s' \<Longrightarrow> ok s \<Longrightarrow> ok s'"
  by (induction rule: rtranclp_induct) (auto intro: step_ok)

lemma steps_extend:
  assumes "step\<^sup>*\<^sup>* s s'" "ok s" "lookup s k = Some key"
  shows "\<exists>key'. lookup s' k = Some key' \<and> prefix (ty_versions key) (ty_versions key')"
  using assms
proof (induction rule: rtranclp_induct)
  case (step s1 s2)
  then obtain key1 where "lookup s1 k = Some key1" "prefix (ty_versions key) (ty_versions key1)" by blast
  with step_extends [OF steps_ok [OF step.hyps(1) step.prems(1)] step.hyps(2)] show ?case
    by (meson prefix_order.trans)
qed auto

lemma ciphertext_survives:
  assumes "crypto_ok lib" "length nonce = 12" "ok s" "lookup s (t, n) = Some key"
    and "transit_encrypt lib (Some nonce) key p = Some (Inr ct)" "step\<^sup>*\<^sup>* s s'"
  shows "\<exists>key'. lookup s' (t, n) = Some key' \<and> transit_decrypt lib key' ct = Inr p"
proof -
  obtain key' where key': "lookup s' (t, n) = Some key'" "prefix (ty_versions key) (ty_versions key')"
    using steps_extend [OF assms(6,3,4)] by blast
  have "transit_key_ok n key'" using key_ok [OF steps_ok [OF assms(6,3)] key'(1)] .
  then show ?thesis
    using transit_decrypts [OF assms(1,2) key_ok [OF assms(3,4)] _ key'(2) assms(5)] key'(1) by blast
qed

end

section \<open>The in-memory backend\<close>

definition mem_transit_ok :: "transit_map \<Rightarrow> bool" where
  "mem_transit_ok st \<longleftrightarrow> (\<forall>t n key. hm_get st (t, n) = Some key \<longrightarrow> transit_key_ok n key)"

interpretation mem_transit: transit_store mem_transit_ok mem_transit_step hm_get
proof
  show "mem_transit_ok s'" if "mem_transit_ok s" "mem_transit_step s s'" for s s'
    using that(2,1)
  proof (induction rule: mem_transit_step.induct)
    case (mem_created draws st t n)
    then show ?case
      using first_key_ok [of draws] by (auto simp: mem_transit_ok_def mem_create_key_def split: if_splits)
  next
    case (mem_rotated draws st t n)
    then show ?case
      using next_version_ok [of n _ "td_material draws"]
      by (auto simp: mem_transit_ok_def mem_rotate_key_def Let_def transit_draws_ok_def split: option.splits if_splits)
  qed
  show "transit_key_ok n key" if "mem_transit_ok s" "hm_get s (t, n) = Some key" for s t n key
    using that by (simp add: mem_transit_ok_def)
  show "\<exists>key'. hm_get s' k = Some key' \<and> prefix (ty_versions key) (ty_versions key')"
    if "mem_transit_ok s" "mem_transit_step s s'" "hm_get s k = Some key" for s s' k key
    using that(2,3)
    by (induction rule: mem_transit_step.induct)
      (auto simp: mem_create_key_def mem_rotate_key_def next_version_def Let_def split: option.splits)
qed

section \<open>Rows of the table\<close>

lemma transit_rows_append: "transit_rows (table @ rows) t n = transit_rows table t n @ transit_rows rows t n"
  by (simp add: transit_rows_def)

lemma wrap_unwrap:
  assumes "crypto_ok (tn_lib env)" "transit_draws_ok draws" "length material = 32"
    and "wrap_material env (td_nonce draws) t n v material = Inr w"
  shows "unwrap_material env t n v w = Inr material"
proof -
  obtain nonce e where e: "td_nonce draws = Some nonce" "w = env_ciphertext_b64 e"
      "encrypt_with_dek (tn_lib env) (Some nonce) (tn_root_key env) material (transit_wrap_aad t n v) = Inr e"
    using assms(4) by (cases "td_nonce draws")
      (auto simp: wrap_material_def result_iff encrypt_with_dek_def generate_aes_gcm_nonce_def)
  from encrypt_decrypt [OF assms(1) _ e(3)] assms(2,3) e show ?thesis
    by (simp add: unwrap_material_def transit_draws_ok_def)
qed

text \<open>A row written for a version of a key.\<close>

lemma insert_transit_row:
  assumes "insert_named_key_descriptor parse tenants now (transit_descriptor env draws t v) w None (Some n) table = Inr table'"
    and "parse t = Some t"
  shows "\<exists>row. table' = table @ [row] \<and> kr_id row = td_id draws \<and> kr_version row = sint v \<and> kr_purpose row = ''transit'' \<and>
    kr_tenant_id row = Some t \<and> kr_key_name row = Some n \<and> kr_wrapped_key row = w \<and> kr_state row = ''active'' \<and>
    key_table_ok table' = key_table_ok table"
proof -
  let ?row = "\<lparr>kr_id = td_id draws, kr_version = sint v, kr_algorithm = ''aes-256-gcm'', kr_purpose = ''transit'',
     kr_state = ''active'', kr_tenant_id = Some t, kr_wrapped_key = w, kr_parent_key_id = None, kr_created_at = now,
     kr_rotated_at = None, kr_expires_at = None, kr_key_name = Some n\<rparr>"
  have row: "insert_key_row tenants ?row table = Inr table'"
    using assms by (simp add: insert_named_key_descriptor_def transit_descriptor_def split: sum.splits)
  note ins = insert_key_row_Inr [OF row]
  have "key_table_ok table' = key_table_ok table" using ins(1,2) by (auto simp: key_table_ok_def)
  then show ?thesis using ins(1) by (intro exI [of _ ?row]) simp
qed

lemma transit_rows_single:
  "kr_purpose row = ''transit'' \<Longrightarrow> kr_tenant_id row = Some t' \<Longrightarrow> kr_key_name row = Some n' \<Longrightarrow>
   transit_rows [row] t n = (if t = t' \<and> n = n' then [row] else [])"
  by (auto simp: transit_rows_def)

text \<open>Retiring a row changes its state only.\<close>

definition rotated_out :: "datetime \<Rightarrow> string \<Rightarrow> key_row \<Rightarrow> key_row" where
  "rotated_out now key_id r =
     (if kr_id r = key_id then r\<lparr>kr_state := ''rotating_out'', kr_rotated_at := Some now\<rparr> else r)"

lemma rotated_out_fields [simp]:
  "kr_id (rotated_out now i r) = kr_id r" "kr_purpose (rotated_out now i r) = kr_purpose r"
  "kr_tenant_id (rotated_out now i r) = kr_tenant_id r" "kr_key_name (rotated_out now i r) = kr_key_name r"
  "kr_version (rotated_out now i r) = kr_version r" "kr_wrapped_key (rotated_out now i r) = kr_wrapped_key r"
  by (simp_all add: rotated_out_def)

lemma rotated_out_state:
  "kr_state (rotated_out now i r) = (if kr_id r = i then ''rotating_out'' else kr_state r)"
  by (simp add: rotated_out_def)

lemma rotated_out_holds: "row_holds env t n r v \<Longrightarrow> row_holds env t n (rotated_out now i r) v"
  by (auto simp: row_holds_def loadable_def rotated_out_state)

lemma transit_rows_rotated: "transit_rows (map (rotated_out now i) table) t n = map (rotated_out now i) (transit_rows table t n)"
  by (simp add: transit_rows_def filter_map comp_def)

lemma update_rotating_out:
  "update_key_state now i KeyRotatingOut table = Inr table' \<Longrightarrow> table' = map (rotated_out now i) table"
  by (auto simp: update_key_state_def Let_def rotated_out_def split: if_splits)

section \<open>Writes keep the invariant\<close>

lemma pg_transit_okI:
  assumes "crypto_ok (tn_lib env)" "key_table_ok (pt_table st)"
    and "\<And>r. r \<in> set (pt_table st) \<Longrightarrow> kr_purpose r \<noteq> ''transit'' \<Longrightarrow> kr_key_name r = None"
    and "\<And>t n. hm_get (pt_cache st) (t, n) = None \<Longrightarrow> transit_rows (pt_table st) t n = []"
    and "\<And>t n key. hm_get (pt_cache st) (t, n) = Some key \<Longrightarrow> tn_parse_uuid env t = Some t \<and> transit_key_ok n key \<and>
       list_all2 (row_holds env t n) (transit_rows (pt_table st) t n) (ty_versions key) \<and>
       (\<forall>r \<in> set (butlast (transit_rows (pt_table st) t n)). kr_state r \<noteq> ''active'')"
  shows "pg_transit_ok env st"
  using assms unfolding pg_transit_ok_def by (simp split: option.split)

lemma pg_create_key_ok:
  assumes ok: "pg_transit_ok env st" "transit_draws_ok draws" "tn_parse_uuid env t = Some t"
    and new: "pg_create_key env draws t n st = (st', Inr ())"
  shows "pg_transit_ok env st' \<and> hm_get (pt_cache st) (t, n) = None \<and>
    pt_cache st' = hm_insert (t, n) (first_key draws n) (pt_cache st)"
proof -
  have none: "hm_get (pt_cache st) (t, n) = None" using new by (auto simp: pg_create_key_def split: if_splits)
  have uuid: "tenant_id_to_uuid env t = t" using ok(3) by (simp add: tenant_id_to_uuid_def)
  obtain w table where w: "wrap_material env (td_nonce draws) t n 1 (td_material draws) = Inr w"
    and ins: "insert_named_key_descriptor (tn_parse_uuid env) (tn_tenants env) (td_now draws)
           (transit_descriptor env draws t 1) w None (Some n) (pt_table st) = Inr table"
    and st': "st' = st\<lparr>pt_table := table, pt_cache := hm_insert (t, n) (first_key draws n) (pt_cache st)\<rparr>"
    using new none uuid by (auto simp: pg_create_key_def split: sum.splits)
  obtain row where row: "table = pt_table st @ [row]" "kr_version row = sint (1 :: u32)" "kr_purpose row = ''transit''"
      "kr_tenant_id row = Some t" "kr_key_name row = Some n" "kr_wrapped_key row = w" "kr_state row = ''active''"
      "key_table_ok table = key_table_ok (pt_table st)"
    using insert_transit_row [OF ins ok(3)] by blast
  note D = pg_transit_okD [OF ok(1)]
  have rows: "transit_rows table t' n' = transit_rows (pt_table st) t' n' @ (if t' = t \<and> n' = n then [row] else [])" for t' n'
    using row by (simp add: transit_rows_append transit_rows_single)
  have holds: "row_holds env t n row \<lparr>tv_version = 1, tv_material = td_material draws\<rparr>"
    using wrap_unwrap [OF D(1) ok(2) _ w] ok(2) row by (simp add: row_holds_def loadable_def transit_draws_ok_def)
  have "pg_transit_ok env st'"
  proof (rule pg_transit_okI)
    show "crypto_ok (tn_lib env)" "key_table_ok (pt_table st')" using D(1,2) row(8) st' by simp_all
    show "kr_key_name r = None" if "r \<in> set (pt_table st')" "kr_purpose r \<noteq> ''transit''" for r
      using that D(3) row(1,3) st' by auto
    show "transit_rows (pt_table st') t' n' = []" if "hm_get (pt_cache st') (t', n') = None" for t' n'
      using that D(4) st' by (auto simp: rows split: if_splits)
    show "tn_parse_uuid env t' = Some t' \<and> transit_key_ok n' key \<and>
       list_all2 (row_holds env t' n') (transit_rows (pt_table st') t' n') (ty_versions key) \<and>
       (\<forall>r \<in> set (butlast (transit_rows (pt_table st') t' n')). kr_state r \<noteq> ''active'')"
      if "hm_get (pt_cache st') (t', n') = Some key" for t' n' key
    proof (cases "t' = t \<and> n' = n")
      case True
      then have "key = first_key draws n" using that st' by simp
      then show ?thesis using True D(4) [OF none] holds ok(3) first_key_ok [OF ok(2)] st' by (simp add: rows first_key_def)
    next
      case False
      then have "hm_get (pt_cache st) (t', n') = Some key" "transit_rows (pt_table st') t' n' = transit_rows (pt_table st) t' n'"
        using that st' by (auto simp: rows)
      then show ?thesis using D(5) by simp
    qed
  qed
  then show ?thesis using none st' by simp
qed

lemma pg_create_key_error: "pg_create_key env draws t n st = (st', Inl e) \<Longrightarrow> st' = st"
  by (simp add: pg_create_key_def split: if_splits sum.splits)

lemma rotated_table_ok:
  assumes "pg_transit_ok env st"
  shows "pg_transit_ok env (st\<lparr>pt_table := map (rotated_out now i) (pt_table st)\<rparr>)"
proof -
  note D = pg_transit_okD [OF assms]
  have all2: "list_all2 (row_holds env t n) (map (rotated_out now i) rows) vs" if "list_all2 (row_holds env t n) rows vs"
    for t n rows vs using that by (auto simp: list_all2_conv_all_nth intro: rotated_out_holds)
  show ?thesis
  proof (rule pg_transit_okI)
    show "key_table_ok (pt_table (st\<lparr>pt_table := map (rotated_out now i) (pt_table st)\<rparr>))"
      using D(2) by (simp add: key_table_ok_def comp_def)
    show "tn_parse_uuid env t = Some t \<and> transit_key_ok n key \<and>
       list_all2 (row_holds env t n) (transit_rows (pt_table (st\<lparr>pt_table := map (rotated_out now i) (pt_table st)\<rparr>)) t n) (ty_versions key) \<and>
       (\<forall>r \<in> set (butlast (transit_rows (pt_table (st\<lparr>pt_table := map (rotated_out now i) (pt_table st)\<rparr>)) t n)). kr_state r \<noteq> ''active'')"
      if "hm_get (pt_cache (st\<lparr>pt_table := map (rotated_out now i) (pt_table st)\<rparr>)) (t, n) = Some key" for t n key
      using D(5) [of t n key] that all2 by (auto simp: transit_rows_rotated map_butlast [symmetric] rotated_out_state)
  qed (use D in \<open>auto simp: transit_rows_rotated\<close>)
qed

lemma active_descriptor:
  assumes "active_descriptor_id_for table t n = Inr i"
  shows "\<exists>r \<in> set (transit_rows table t n). kr_state r = ''active'' \<and> kr_id r = i"
proof -
  let ?rows = "filter (\<lambda>r. kr_tenant_id r = Some t \<and> kr_key_name r = Some n \<and> kr_purpose r = ''transit'' \<and> kr_state r = ''active'') table"
  show ?thesis
  proof (cases "sort_key (\<lambda>r. - kr_version r) ?rows")
    case Nil
    then show ?thesis using assms by (simp add: active_descriptor_id_for_def)
  next
    case (Cons row rest)
    then have "row \<in> set (sort_key (\<lambda>r. - kr_version r) ?rows)" by simp
    then have "row \<in> set ?rows" by (simp only: set_sort)
    moreover have "i = kr_id row" using assms Cons by (simp add: active_descriptor_id_for_def)
    ultimately show ?thesis by (auto simp: transit_rows_def)
  qed
qed

lemma no_active_descriptor:
  "\<forall>r \<in> set (transit_rows table t n). kr_state r \<noteq> ''active'' \<Longrightarrow>
   active_descriptor_id_for table t n = Inl (KeyNotFound (t @ ''/'' @ n))"
proof -
  assume a: "\<forall>r \<in> set (transit_rows table t n). kr_state r \<noteq> ''active''"
  then have "filter (\<lambda>r. kr_tenant_id r = Some t \<and> kr_key_name r = Some n \<and> kr_purpose r = ''transit'' \<and> kr_state r = ''active'') table = []"
    by (auto simp: filter_empty_conv transit_rows_def)
  then show ?thesis by (simp add: active_descriptor_id_for_def)
qed

text \<open>After the outgoing row has been retired no row of the key is active.\<close>

lemma retired_rows:
  assumes "pg_transit_ok env st" "hm_get (pt_cache st) (t, n) = Some key" "active_descriptor_id_for (pt_table st) t n = Inr i"
  shows "\<forall>r \<in> set (transit_rows (map (rotated_out now i) (pt_table st)) t n). kr_state r \<noteq> ''active''"
proof -
  let ?rows = "transit_rows (pt_table st) t n"
  obtain r where r: "r \<in> set ?rows" "kr_state r = ''active''" "kr_id r = i" using active_descriptor [OF assms(3)] by blast
  then have split: "?rows = butlast ?rows @ [last ?rows]" by (intro append_butlast_last_id [symmetric]) auto
  have rest: "\<forall>r \<in> set (butlast ?rows). kr_state r \<noteq> ''active''" using pg_transit_okD(5) [OF assms(1,2)] by blast
  have "set ?rows = set (butlast ?rows) \<union> {last ?rows}" by (subst split) simp
  with r rest have "r = last ?rows" by auto
  then show ?thesis using rest r(3) \<open>set ?rows = set (butlast ?rows) \<union> {last ?rows}\<close>
    by (auto simp: transit_rows_rotated rotated_out_state)
qed

text \<open>A rotation changes nothing, retires the outgoing row only, or succeeds.\<close>

lemma pg_rotate_key_cases:
  assumes "tn_parse_uuid env t = Some t" "pg_rotate_key env draws t n st = (st', res)"
  obtains (unchanged) "st' = st" "isl res"
  | (retired) i where "active_descriptor_id_for (pt_table st) t n = Inr i"
      "st' = st\<lparr>pt_table := map (rotated_out (td_now draws) i) (pt_table st)\<rparr>" "isl res"
  | (rotated) key i w table where "hm_get (pt_cache st) (t, n) = Some key" "active_descriptor_id_for (pt_table st) t n = Inr i"
      "wrap_material env (td_nonce draws) t n (ty_current_version key + 1) (td_material draws) = Inr w"
      "insert_named_key_descriptor (tn_parse_uuid env) (tn_tenants env) (td_now draws)
         (transit_descriptor env draws t (ty_current_version key + 1)) w None (Some n)
         (map (rotated_out (td_now draws) i) (pt_table st)) = Inr table"
      "st' = st\<lparr>pt_table := table,
         pt_cache := hm_insert (t, n) (next_version (td_material draws) (ty_current_version key + 1) key) (pt_cache st)\<rparr>"
      "res = Inr (ty_current_version key + 1)"
proof (cases "hm_get (pt_cache st) (t, n)")
  case None
  then show ?thesis using assms(2) unchanged by (auto simp: pg_rotate_key_def)
next
  case (Some key)
  have uuid: "tenant_id_to_uuid env t = t" using assms(1) by (simp add: tenant_id_to_uuid_def)
  note rot = assms(2) [unfolded pg_rotate_key_def Some option.case Let_def uuid]
  show ?thesis
  proof (cases "active_descriptor_id_for (pt_table st) t n")
    case (Inl e)
    then show ?thesis using rot unchanged by auto
  next
    case i: (Inr i)
    show ?thesis
    proof (cases "update_key_state (td_now draws) i KeyRotatingOut (pt_table st)")
      case (Inl e)
      then show ?thesis using rot i unchanged by auto
    next
      case u: (Inr table)
      note t = update_rotating_out [OF u]
      show ?thesis
      proof (cases "wrap_material env (td_nonce draws) t n (ty_current_version key + 1) (td_material draws)")
        case (Inl e)
        then show ?thesis using rot i u t retired by auto
      next
        case w: (Inr w)
        show ?thesis
          by (cases "insert_named_key_descriptor (tn_parse_uuid env) (tn_tenants env) (td_now draws)
                (transit_descriptor env draws t (ty_current_version key + 1)) w None (Some n) table")
            (use rot i u t w Some retired rotated in auto)
      qed
    qed
  qed
qed

lemma pg_rotated_ok:
  assumes ok: "pg_transit_ok env st" "transit_draws_ok draws" "tn_parse_uuid env t = Some t"
    and key: "hm_get (pt_cache st) (t, n) = Some key" "unat (ty_current_version key) < 2 ^ 31 - 1"
    and i: "active_descriptor_id_for (pt_table st) t n = Inr i"
    and w: "wrap_material env (td_nonce draws) t n (ty_current_version key + 1) (td_material draws) = Inr w"
    and ins: "insert_named_key_descriptor (tn_parse_uuid env) (tn_tenants env) (td_now draws)
         (transit_descriptor env draws t (ty_current_version key + 1)) w None (Some n)
         (map (rotated_out (td_now draws) i) (pt_table st)) = Inr table"
  shows "pg_transit_ok env (st\<lparr>pt_table := table,
         pt_cache := hm_insert (t, n) (next_version (td_material draws) (ty_current_version key + 1) key) (pt_cache st)\<rparr>)"
    (is "pg_transit_ok env ?st'")
proof -
  let ?mid = "st\<lparr>pt_table := map (rotated_out (td_now draws) i) (pt_table st)\<rparr>"
  let ?v = "ty_current_version key + 1"
  have mid: "pg_transit_ok env ?mid" by (rule rotated_table_ok [OF ok(1)])
  note D = pg_transit_okD [OF mid]
  obtain row where row: "table = pt_table ?mid @ [row]" "kr_version row = sint ?v" "kr_purpose row = ''transit''"
      "kr_tenant_id row = Some t" "kr_key_name row = Some n" "kr_wrapped_key row = w" "kr_state row = ''active''"
      "key_table_ok table = key_table_ok (pt_table ?mid)"
    using insert_transit_row [OF ins ok(3)] by auto
  have rows: "transit_rows table t' n' = transit_rows (pt_table ?mid) t' n' @ (if t' = t \<and> n' = n then [row] else [])" for t' n'
    using row by (simp add: transit_rows_append transit_rows_single)
  have m: "length (td_material draws) = 32" using ok(2) by (simp add: transit_draws_ok_def)
  have holds: "row_holds env t n row \<lparr>tv_version = ?v, tv_material = td_material draws\<rparr>"
    using wrap_unwrap [OF D(1) ok(2) m w] row by (simp add: row_holds_def loadable_def)
  have none_active: "\<forall>r \<in> set (transit_rows (pt_table ?mid) t n). kr_state r \<noteq> ''active''"
    using retired_rows [OF ok(1) key(1) i] by simp
  show ?thesis
  proof (rule pg_transit_okI)
    show "crypto_ok (tn_lib env)" "key_table_ok (pt_table ?st')" using D(1,2) row(8) by simp_all
    show "kr_key_name r = None" if "r \<in> set (pt_table ?st')" "kr_purpose r \<noteq> ''transit''" for r
      using that D(3) row(1,3) by auto
    show "transit_rows (pt_table ?st') t' n' = []" if "hm_get (pt_cache ?st') (t', n') = None" for t' n'
      using that D(4) [of t' n'] by (auto simp: rows split: if_splits)
    show "tn_parse_uuid env t' = Some t' \<and> transit_key_ok n' key' \<and>
       list_all2 (row_holds env t' n') (transit_rows (pt_table ?st') t' n') (ty_versions key') \<and>
       (\<forall>r \<in> set (butlast (transit_rows (pt_table ?st') t' n')). kr_state r \<noteq> ''active'')"
      if "hm_get (pt_cache ?st') (t', n') = Some key'" for t' n' key'
    proof (cases "t' = t \<and> n' = n")
      case True
      then have key': "key' = next_version (td_material draws) ?v key" using that by simp
      have old: "transit_key_ok n key \<and> list_all2 (row_holds env t n) (transit_rows (pt_table ?mid) t n) (ty_versions key)"
        using D(5) [of t n key] key(1) by simp
      then have "list_all2 (row_holds env t n) (transit_rows table t n) (ty_versions key')"
        using holds by (simp add: rows key' next_version_def list_all2_appendI)
      moreover have "transit_key_ok n key'" using next_version_ok [OF _ m key(2)] old key' by simp
      moreover have "butlast (transit_rows table t n) = transit_rows (pt_table ?mid) t n" by (simp add: rows)
      ultimately show ?thesis using True ok(3) none_active by simp
    next
      case False
      then have "hm_get (pt_cache ?mid) (t', n') = Some key'" "transit_rows (pt_table ?st') t' n' = transit_rows (pt_table ?mid) t' n'"
        using that by (auto simp: rows)
      then show ?thesis using D(5) by simp
    qed
  qed
qed

section \<open>Restarts\<close>

definition names_key :: "string \<Rightarrow> string \<Rightarrow> persisted_key_entry \<Rightarrow> bool" where
  "names_key t n p \<longleftrightarrow> pk_tenant_id p = Some t \<and> pk_key_name p = Some n"

lemma load_row_local:
  assumes "hm_get c (t, n) = hm_get c' (t, n)"
  shows "hm_get (load_row env now p c) (t, n) = (if names_key t n p then hm_get (load_row env now p c') (t, n) else hm_get c' (t, n))"
  using assms by (auto simp: load_row_def names_key_def Let_def split: option.splits sum.splits)

lemma fold_load_row:
  "hm_get c (t, n) = hm_get c' (t, n) \<Longrightarrow>
   hm_get (fold (load_row env now) ps c) (t, n) = hm_get (fold (load_row env now) (filter (names_key t n) ps) c') (t, n)"
proof (induction ps arbitrary: c c')
  case (Cons p ps)
  show ?case
  proof (cases "names_key t n p")
    case True
    then have "hm_get (load_row env now p c) (t, n) = hm_get (load_row env now p c') (t, n)"
      using load_row_local [OF Cons.prems, of env now p] by simp
    from Cons.IH [OF this] True show ?thesis by simp
  next
    case False
    then have "hm_get (load_row env now p c) (t, n) = hm_get c' (t, n)"
      using load_row_local [OF Cons.prems, of env now p] by simp
    from Cons.IH [OF this] False show ?thesis by simp
  qed
qed simp

lemma load_row_get:
  assumes "pk_tenant_id p = Some t" "pk_key_name p = Some n" "unwrap_material env t n (pk_version p) (pk_wrapped_key p) = Inr m"
    and "hm_get c (t, n) = (if vs = [] then None else Some \<lparr>ty_name = n, ty_versions = vs, ty_current_version = cur,
       ty_algorithm = TransitAes256Gcm, ty_created_at = now\<rparr>)"
    and "max cur (pk_version p) = pk_version p"
  shows "hm_get (load_row env now p c) (t, n) =
    Some \<lparr>ty_name = n, ty_versions = vs @ [\<lparr>tv_version = pk_version p, tv_material = m\<rparr>], ty_current_version = pk_version p,
       ty_algorithm = TransitAes256Gcm, ty_created_at = now\<rparr>"
  using assms by (auto simp: load_row_def Let_def)

lemma u32_of_nat: "k < 2 ^ 32 \<Longrightarrow> unat (of_nat k :: u32) = k"
  by (simp add: unat_of_nat)

lemma loaded_versions:
  assumes "list_all2 (row_holds env t n) rows vs" "\<forall>r \<in> set rows. kr_tenant_id r = Some t \<and> kr_key_name r = Some n"
    and "\<forall>i < length vs. tv_version (vs ! i) = of_nat (i + 1)" "length vs < 2 ^ 31"
  shows "hm_get (fold (load_row env now) (map persisted_of rows) []) (t, n) =
    (if vs = [] then None else Some \<lparr>ty_name = n, ty_versions = vs, ty_current_version = of_nat (length vs),
       ty_algorithm = TransitAes256Gcm, ty_created_at = now\<rparr>)"
  using assms
proof (induction vs arbitrary: rows rule: rev_induct)
  case (snoc v vs)
  then obtain rows' row where rows: "rows = rows' @ [row]" "list_all2 (row_holds env t n) rows' vs" "row_holds env t n row v"
    by (auto simp: list_all2_append2 list_all2_Cons2)
  have v: "tv_version v = of_nat (length vs + 1)" using snoc.prems(3) [rule_format, of "length vs"] by simp
  have "tv_version (vs ! i) = of_nat (i + 1)" if "i < length vs" for i
    using snoc.prems(3) [rule_format, of i] that by (simp add: nth_append)
  then have nums: "\<forall>i < length vs. tv_version (vs ! i) = of_nat (i + 1)" by blast
  have "unat (of_nat (length vs) :: u32) = length vs" "unat (of_nat (length vs + 1) :: u32) = length vs + 1"
    by (rule u32_of_nat; use snoc.prems(4) in simp)+
  then have "(of_nat (length vs) :: u32) \<le> of_nat (length vs + 1)" by (simp only: word_le_nat_alt le_add1)
  then have m: "max (of_nat (length vs)) (tv_version v) = tv_version v" by (simp only: v max_absorb2)
  have "hm_get (fold (load_row env now) (map persisted_of rows') []) (t, n) =
    (if vs = [] then None else Some \<lparr>ty_name = n, ty_versions = vs, ty_current_version = of_nat (length vs),
       ty_algorithm = TransitAes256Gcm, ty_created_at = now\<rparr>)"
    using snoc.IH [OF rows(2) _ nums] snoc.prems(2,4) rows(1) by simp
  moreover have "persisted_of row = \<lparr>pk_key_id = kr_id row, pk_tenant_id = Some t, pk_version = tv_version v,
      pk_wrapped_key = kr_wrapped_key row, pk_key_name = Some n\<rparr>"
    using rows(1,3) snoc.prems(2) by (simp add: persisted_of_def row_holds_def)
  moreover have "unwrap_material env t n (tv_version v) (kr_wrapped_key row) = Inr (tv_material v)" using rows(3) by (simp add: row_holds_def)
  ultimately have "hm_get (load_row env now (persisted_of row) (fold (load_row env now) (map persisted_of rows') [])) (t, n) =
    Some \<lparr>ty_name = n, ty_versions = vs @ [v], ty_current_version = tv_version v, ty_algorithm = TransitAes256Gcm, ty_created_at = now\<rparr>"
    using load_row_get [of "persisted_of row" t n env "tv_material v" _ vs "of_nat (length vs)" now] m by simp
  then show ?case using v by (simp add: rows(1))
qed (simp add: list_all2_Nil2)

lemma sorted_by_version:
  fixes f g :: "'a \<Rightarrow> int"
  assumes "sorted_wrt (<) (map f ys)"
  shows "sort_key f (sort_key g ys) = ys"
proof (rule properties_for_sort_key)
  show "mset ys = mset (sort_key g ys)" by simp
  show "sorted (map f ys)" using assms by (rule strict_sorted_imp_sorted)
  show "filter (\<lambda>x. f k = f x) ys = filter (\<lambda>x. f k = f x) (sort_key g ys)" if "k \<in> set ys" for k
  proof -
    have "distinct (map f ys)" using assms strict_sorted_iff by blast
    then have "filter (\<lambda>x. f k = f x) ys = [k]"
      using that by (induction ys) (auto simp: filter_empty_conv rev_image_eqI)
    then show ?thesis by (simp add: filter_sort)
  qed
qed

lemma sint_u32_of_nat: "k < 2 ^ 31 \<Longrightarrow> sint (of_nat k :: u32) = int k"
  by (simp add: signed_of_nat signed_take_bit_int_eq_self)

lemma held_versions:
  assumes "transit_key_ok n key" "list_all2 (row_holds env t n) rows (ty_versions key)" "i < length rows"
  shows "kr_version (rows ! i) = int (i + 1)" "loadable (rows ! i)"
proof -
  have i: "i < length (ty_versions key)" "length (ty_versions key) < 2 ^ 31" "row_holds env t n (rows ! i) (ty_versions key ! i)"
    using assms by (simp_all add: list_all2_conv_all_nth transit_key_ok_def)
  then show "loadable (rows ! i)" by (simp add: row_holds_def)
  have "tv_version (ty_versions key ! i) = of_nat (i + 1)" using assms(1) i(1) by (simp add: transit_key_ok_def)
  with i show "kr_version (rows ! i) = int (i + 1)"
    using sint_u32_of_nat [of "i + 1"] by (simp add: row_holds_def del: of_nat_add of_nat_Suc)
qed

lemma loaded_rows:
  assumes "length table < 2 ^ 63" "\<forall>r \<in> set (transit_rows table t n). loadable r"
    and "sorted_wrt (<) (map kr_version (transit_rows table t n))"
  shows "filter (names_key t n) (list_loadable_keys_with_wrapped_key table TransitKey) = map persisted_of (transit_rows table t n)"
proof -
  let ?all = "filter (\<lambda>r. kr_purpose r = ''transit'' \<and> loadable r) table"
  have "length ?all \<le> length table" by (rule length_filter_le)
  then have "take (2 ^ 63 - 1) (sort_key (\<lambda>r. - kr_created_at r) ?all) = sort_key (\<lambda>r. - kr_created_at r) ?all"
    using assms(1) by (intro take_all) (simp only: length_sort)
  then have "list_loadable_keys_with_wrapped_key table TransitKey =
      map persisted_of (sort_key kr_version (sort_key (\<lambda>r. - kr_created_at r) ?all))"
    by (simp add: list_loadable_keys_with_wrapped_key_def list_recent_loadable_keys_def)
  moreover have "names_key t n \<circ> persisted_of = (\<lambda>r. kr_tenant_id r = Some t \<and> kr_key_name r = Some n)"
    by (auto simp: names_key_def persisted_of_def)
  moreover have "filter (\<lambda>r. kr_tenant_id r = Some t \<and> kr_key_name r = Some n) ?all = transit_rows table t n"
    using assms(2) by (auto simp: transit_rows_def intro!: filter_cong)
  ultimately show ?thesis by (simp add: filter_map filter_sort sorted_by_version [OF assms(3)])
qed

lemma loaded_cache:
  assumes "pg_transit_ok env st" "length (pt_table st) < 2 ^ 63"
  shows "hm_get (pt_cache (load_from_pg env now (pt_table st))) (t, n) =
    map_option (\<lambda>key. key\<lparr>ty_created_at := now\<rparr>) (hm_get (pt_cache st) (t, n))"
proof -
  let ?rows = "transit_rows (pt_table st) t n"
  note D = pg_transit_okD [OF assms(1)]
  have fold: "hm_get (pt_cache (load_from_pg env now (pt_table st))) (t, n) = hm_get (fold (load_row env now) (map persisted_of ?rows) []) (t, n)"
    if "\<forall>r \<in> set ?rows. loadable r" "sorted_wrt (<) (map kr_version ?rows)"
    using fold_load_row [of "[]" t n "[]" env now "list_loadable_keys_with_wrapped_key (pt_table st) TransitKey"]
      loaded_rows [OF assms(2) that] by (simp add: load_from_pg_def)
  show ?thesis
  proof (cases "hm_get (pt_cache st) (t, n)")
    case None
    then show ?thesis using D(4) fold by simp
  next
    case (Some key)
    note key = D(5) [OF Some]
    then have ok: "transit_key_ok n key" and all2: "list_all2 (row_holds env t n) ?rows (ty_versions key)" by blast+
    note held = held_versions [OF ok all2]
    have "\<forall>r \<in> set ?rows. loadable r" using held(2) by (metis in_set_conv_nth)
    moreover have "sorted_wrt (<) (map kr_version ?rows)" by (simp add: sorted_wrt_iff_nth_less held(1))
    moreover have "\<forall>r \<in> set ?rows. kr_tenant_id r = Some t \<and> kr_key_name r = Some n" by (simp add: transit_rows_def)
    ultimately have "hm_get (pt_cache (load_from_pg env now (pt_table st))) (t, n) =
        Some \<lparr>ty_name = n, ty_versions = ty_versions key, ty_current_version = of_nat (length (ty_versions key)),
          ty_algorithm = TransitAes256Gcm, ty_created_at = now\<rparr>"
      using fold loaded_versions [OF all2, of now] ok by (simp add: transit_key_ok_def)
    moreover have "key\<lparr>ty_created_at := now\<rparr> = \<lparr>ty_name = n, ty_versions = ty_versions key,
        ty_current_version = of_nat (length (ty_versions key)), ty_algorithm = TransitAes256Gcm, ty_created_at = now\<rparr>"
      using ok transit_key_version(1) [OF ok] by (cases key; cases "ty_algorithm key") (simp add: transit_key_ok_def)
    ultimately show ?thesis using Some by simp
  qed
qed

section \<open>The PostgreSQL backend\<close>

lemma pg_loaded_ok:
  assumes "pg_transit_ok env st" "length (pt_table st) < 2 ^ 63"
  shows "pg_transit_ok env (load_from_pg env now (pt_table st))"
proof -
  note D = pg_transit_okD [OF assms(1)]
  have t: "pt_table (load_from_pg env now (pt_table st)) = pt_table st" by (simp add: load_from_pg_def)
  show ?thesis
  proof (rule pg_transit_okI; (simp only: t)?)
    show "crypto_ok (tn_lib env)" "key_table_ok (pt_table st)" by (rule D)+
    show "kr_key_name r = None" if "r \<in> set (pt_table st)" "kr_purpose r \<noteq> ''transit''" for r using that by (rule D(3))
    show "transit_rows (pt_table st) t' n' = []" if "hm_get (pt_cache (load_from_pg env now (pt_table st))) (t', n') = None" for t' n'
      using that D(4) loaded_cache [OF assms] by simp
    show "tn_parse_uuid env t' = Some t' \<and> transit_key_ok n' key \<and>
       list_all2 (row_holds env t' n') (transit_rows (pt_table st) t' n') (ty_versions key) \<and>
       (\<forall>r \<in> set (butlast (transit_rows (pt_table st) t' n')). kr_state r \<noteq> ''active'')"
      if loaded: "hm_get (pt_cache (load_from_pg env now (pt_table st))) (t', n') = Some key" for t' n' key
    proof -
      obtain key0 where key0: "hm_get (pt_cache st) (t', n') = Some key0" "key = key0\<lparr>ty_created_at := now\<rparr>"
        using loaded loaded_cache [OF assms] by auto
      from D(5) [OF key0(1)] show ?thesis unfolding key0(2) transit_key_ok_def by simp
    qed
  qed
qed

lemma pg_other_ok:
  assumes "pg_transit_ok env st" "insert_key_row tenants row (pt_table st) = Inr table"
    and "kr_purpose row \<noteq> ''transit''" "kr_key_name row = None"
  shows "pg_transit_ok env (st\<lparr>pt_table := table\<rparr>)"
proof -
  note D = pg_transit_okD [OF assms(1)]
  have table: "table = pt_table st @ [row]" using insert_key_row_Inr(1) [OF assms(2)] .
  have rows: "transit_rows table t n = transit_rows (pt_table st) t n" for t n
    using assms(3) by (simp add: table transit_rows_def)
  show ?thesis
  proof (rule pg_transit_okI)
    show "crypto_ok (tn_lib env)" by (rule D(1))
    show "key_table_ok (pt_table (st\<lparr>pt_table := table\<rparr>))" using insert_key_row_ok [OF assms(2) D(2)] by simp
    show "kr_key_name r = None" if "r \<in> set (pt_table (st\<lparr>pt_table := table\<rparr>))" "kr_purpose r \<noteq> ''transit''" for r
      using that D(3) assms(4) by (auto simp: table)
  qed (use D(4,5) in \<open>simp_all add: rows\<close>)
qed

lemma pg_step_ok:
  assumes "pg_transit_step env st st'" "pg_transit_ok env st"
  shows "pg_transit_ok env st'"
  using assms
proof (induction rule: pg_transit_step.induct)
  case (pg_created draws t st n)
  show ?case
  proof (cases "pg_create_key env draws t n st")
    case (Pair st' res)
    show ?thesis
    proof (cases res)
      case (Inl e)
      then have "st' = st" using Pair pg_create_key_error by blast
      then show ?thesis using Pair pg_created(3) by simp
    next
      case (Inr u)
      then show ?thesis using Pair pg_create_key_ok [OF pg_created(3,1,2)] by simp
    qed
  qed
next
  case (pg_rotated draws t st n)
  show ?case
  proof (cases "pg_rotate_key env draws t n st")
    case (Pair st' res)
    from pg_rotated(2) Pair show ?thesis
    proof (cases rule: pg_rotate_key_cases)
      case unchanged
      then show ?thesis using Pair pg_rotated by simp
    next
      case (retired i)
      then show ?thesis using Pair rotated_table_ok pg_rotated by simp
    next
      case (rotated key i w table)
      then show ?thesis using Pair pg_rotated_ok [OF pg_rotated(4,1,2) rotated(1) _ rotated(2-4)] pg_rotated(3) by simp
    qed
  qed
next
  case (pg_other row st table)
  then show ?case using pg_other_ok by blast
next
  case (pg_restarted st now)
  then show ?case using pg_loaded_ok by blast
qed

lemma pg_step_extends:
  assumes "pg_transit_step env st st'" "pg_transit_ok env st" "hm_get (pt_cache st) k = Some key"
  shows "\<exists>key'. hm_get (pt_cache st') k = Some key' \<and> prefix (ty_versions key) (ty_versions key')"
  using assms
proof (induction rule: pg_transit_step.induct)
  case (pg_created draws t st n)
  show ?case
  proof (cases "pg_create_key env draws t n st")
    case (Pair st' res)
    show ?thesis
    proof (cases res)
      case (Inl e)
      then have "st' = st" using Pair pg_create_key_error by blast
      then show ?thesis using Pair pg_created(4) by simp
    next
      case (Inr u)
      then show ?thesis using Pair pg_create_key_ok [OF pg_created(3,1,2)] pg_created(4) by auto
    qed
  qed
next
  case (pg_rotated draws t st n)
  show ?case
  proof (cases "pg_rotate_key env draws t n st")
    case (Pair st' res)
    from pg_rotated(2) Pair show ?thesis
      by (cases rule: pg_rotate_key_cases) (use pg_rotated Pair in \<open>auto simp: next_version_def\<close>)
  qed
next
  case (pg_restarted st now)
  then show ?case using loaded_cache [of env st now] by (cases k) simp
qed auto

interpretation pg_transit: transit_store "pg_transit_ok env" "pg_transit_step env" "\<lambda>st. hm_get (pt_cache st)" for env
  by unfold_locales (use pg_step_ok pg_step_extends pg_transit_okD(5) in blast)+

end
