(* ===== verification/Transit_Durability.thy ===== *)
theory Transit_Durability
  imports Transit_Store
begin

text \<open>
  What the contract of \<open>Transit_Store\<close> gives the users of transit keys kept in PostgreSQL: their
  ciphertexts stay readable through rotations and restarts; and two limits the table sets
  that the service does not mean to have.
\<close>

section \<open>Reachable states\<close>

text \<open>A service starts on a table that holds other services' keys only.\<close>

definition pg_transit_reachable :: "transit_env \<Rightarrow> pg_transit \<Rightarrow> bool" where
  "pg_transit_reachable env st \<longleftrightarrow>
     crypto_ok (tn_lib env) \<and>
     (\<exists>now table. key_table_ok table \<and> (\<forall>r \<in> set table. kr_purpose r \<noteq> ''transit'' \<and> kr_key_name r = None) \<and>
        (pg_transit_step env)\<^sup>*\<^sup>* (load_from_pg env now table) st)"

lemma pg_transit_start_ok:
  assumes "crypto_ok (tn_lib env)" "key_table_ok table" "\<forall>r \<in> set table. kr_purpose r \<noteq> ''transit'' \<and> kr_key_name r = None"
  shows "pg_transit_ok env (load_from_pg env now table)"
proof -
  have "filter (\<lambda>r. kr_purpose r = ''transit'' \<and> loadable r) table = []" using assms(3) by (simp add: filter_empty_conv)
  then have "load_from_pg env now table = \<lparr>pt_table = table, pt_cache = []\<rparr>"
    by (simp add: load_from_pg_def list_loadable_keys_with_wrapped_key_def list_recent_loadable_keys_def)
  moreover have "transit_rows table t n = []" for t n using assms(3) by (simp add: transit_rows_def filter_empty_conv)
  ultimately show ?thesis using assms by (auto intro!: pg_transit_okI)
qed

lemma pg_reachable_ok: "pg_transit_reachable env st \<Longrightarrow> pg_transit_ok env st"
  unfolding pg_transit_reachable_def using pg_transit_start_ok pg_transit.steps_ok by blast

lemma pg_transit_reachable_crypto: "pg_transit_reachable env st \<Longrightarrow> crypto_ok (tn_lib env)"
  by (simp add: pg_transit_reachable_def)

section \<open>Rotation by a replica that has not seen the last one\<close>

lemma same_version_same_row:
  assumes "pg_transit_ok env st" "hm_get (pt_cache st) (t, n) = Some key"
    and "r \<in> set (transit_rows (pt_table st) t n)" "r' \<in> set (transit_rows (pt_table st) t n)" "kr_version r = kr_version r'"
  shows "r = r'"
proof -
  have "transit_key_ok n key" "list_all2 (row_holds env t n) (transit_rows (pt_table st) t n) (ty_versions key)"
    using pg_transit_okD(5) [OF assms(1,2)] by blast+
  note v = held_versions(1) [OF this]
  obtain i j where "i < length (transit_rows (pt_table st) t n)" "j < length (transit_rows (pt_table st) t n)"
      "r = transit_rows (pt_table st) t n ! i" "r' = transit_rows (pt_table st) t n ! j"
    using assms(3,4) by (metis in_set_conv_nth)
  with v [of i] v [of j] assms(5) show ?thesis by simp
qed

lemma update_succeeds:
  assumes "pg_transit_ok env st" "hm_get (pt_cache st) (t, n) = Some key" "active_descriptor_id_for (pt_table st) t n = Inr i"
  shows "update_key_state now i KeyRotatingOut (pt_table st) = Inr (map (rotated_out now i) (pt_table st))"
proof -
  note D = pg_transit_okD [OF assms(1)]
  obtain a where a: "a \<in> set (transit_rows (pt_table st) t n)" "kr_id a = i" using active_descriptor [OF assms(3)] by blast
  have "\<not> collides name_key (r\<lparr>kr_state := ''rotating_out'', kr_rotated_at := Some now\<rparr>) (filter (\<lambda>r'. kr_id r' \<noteq> i) (pt_table st))"
    if r: "r \<in> set (pt_table st)" "kr_id r = i" for r
  proof
    assume coll: "collides name_key (r\<lparr>kr_state := ''rotating_out'', kr_rotated_at := Some now\<rparr>) (filter (\<lambda>r'. kr_id r' \<noteq> i) (pt_table st))"
    have "r = a" using r a D(2) by (auto simp: key_table_ok_def distinct_map transit_rows_def dest: inj_onD)
    then have "name_key (r\<lparr>kr_state := ''rotating_out'', kr_rotated_at := Some now\<rparr>) = Some (t, n, kr_version a)"
      using a(1) by (simp add: name_key_def transit_rows_def)
    with coll obtain r' where r': "r' \<in> set (pt_table st)" "kr_id r' \<noteq> i" "name_key r' = Some (t, n, kr_version a)"
      by (auto simp: collides_def list_ex_iff)
    then have "kr_tenant_id r' = Some t" "kr_key_name r' = Some n" "kr_version r' = kr_version a"
      by (auto simp: name_key_def split: option.splits if_splits)
    moreover then have "kr_purpose r' = ''transit''" using D(3) [OF r'(1)] by force
    ultimately have "r' \<in> set (transit_rows (pt_table st) t n)" "kr_version r' = kr_version a"
      using r'(1) by (simp_all add: transit_rows_def)
    with same_version_same_row [OF assms(1,2) _ a(1)] a(2) r'(2) show False by blast
  qed
  then show ?thesis by (auto simp: update_key_state_def rotated_out_def list_ex_iff Let_def)
qed

lemma active_descriptor_none:
  assumes "active_descriptor_id_for table t n = Inl e"
  shows "\<forall>r \<in> set (transit_rows table t n). kr_state r \<noteq> ''active''"
proof -
  let ?rows = "filter (\<lambda>r. kr_tenant_id r = Some t \<and> kr_key_name r = Some n \<and> kr_purpose r = ''transit'' \<and> kr_state r = ''active'') table"
  have "set (sort_key (\<lambda>r. - kr_version r) ?rows) = {}"
  proof (cases "sort_key (\<lambda>r. - kr_version r) ?rows")
    case (Cons row rest)
    then show ?thesis using assms by (simp add: active_descriptor_id_for_def)
  qed simp
  then have "set ?rows = {}" by (simp only: set_sort)
  then show ?thesis by (auto simp: transit_rows_def)
qed

lemma taken_version_refused:
  assumes "r \<in> set table" "kr_purpose r = ''transit''" "kr_tenant_id r = Some t" "kr_version r = sint v" "parse t = Some t"
  shows "isl (insert_named_key_descriptor parse tenants now (transit_descriptor env draws t v) w None name table)"
  using assms by (auto simp: insert_named_key_descriptor_def transit_descriptor_def insert_key_row_def collides_def kek_key_def list_ex_iff)

text \<open>A key none of whose rows is active stays so.\<close>

lemma never_active_again:
  assumes "pg_transit_step env st st'" "pg_transit_ok env st" "hm_get (pt_cache st) (t, n) = Some key"
    and "\<forall>r \<in> set (transit_rows (pt_table st) t n). kr_state r \<noteq> ''active''"
  shows "\<forall>r \<in> set (transit_rows (pt_table st') t n). kr_state r \<noteq> ''active''"
  using assms
proof (induction rule: pg_transit_step.induct)
  case (pg_created draws t' st n')
  show ?case
  proof (cases "pg_create_key env draws t' n' st")
    case (Pair st' res)
    show ?thesis
    proof (cases res)
      case (Inl e)
      then have "st' = st" using Pair pg_create_key_error by blast
      then show ?thesis using Pair pg_created by simp
    next
      case (Inr u)
      then have other: "(t', n') \<noteq> (t, n)"
        using Pair pg_create_key_ok [OF pg_created(3,1,2), of n' st'] pg_created(4) by auto
      obtain w table where ins: "insert_named_key_descriptor (tn_parse_uuid env) (tn_tenants env) (td_now draws)
           (transit_descriptor env draws t' 1) w None (Some n') (pt_table st) = Inr table" "pt_table st' = table"
        using Pair Inr pg_created(2)
        by (auto simp: pg_create_key_def tenant_id_to_uuid_def split: if_splits sum.splits)
      have "transit_rows (pt_table st') t n = transit_rows (pt_table st) t n"
        using insert_transit_row [OF ins(1) pg_created(2)] ins(2) other by (auto simp: transit_rows_append transit_rows_single)
      then show ?thesis using Pair pg_created by simp
    qed
  qed
next
  case (pg_rotated draws t' st n')
  have keep: "\<forall>r \<in> set (transit_rows (map (rotated_out now i) (pt_table st)) t n). kr_state r \<noteq> ''active''" for now i
    using pg_rotated.prems by (auto simp: transit_rows_rotated rotated_out_state)
  show ?case
  proof (cases "pg_rotate_key env draws t' n' st")
    case (Pair st' res)
    from pg_rotated(2) Pair show ?thesis
    proof (cases rule: pg_rotate_key_cases)
      case unchanged
      then show ?thesis using Pair pg_rotated.prems by simp
    next
      case (retired i)
      then show ?thesis using Pair keep by simp
    next
      case (rotated key i w table)
      then have "(t', n') \<noteq> (t, n)" using no_active_descriptor [OF pg_rotated.prems(3)] by auto
      then have "transit_rows table t n = transit_rows (map (rotated_out (td_now draws) i) (pt_table st)) t n"
        using insert_transit_row [OF rotated(4) pg_rotated(2)] by (auto simp: transit_rows_append transit_rows_single)
      then show ?thesis using Pair rotated(5) keep by simp
    qed
  qed
next
  case (pg_other row st table)
  have "table = pt_table st @ [row]" using pg_other(1) by (rule insert_key_row_Inr(1))
  then have "transit_rows table t n = transit_rows (pt_table st) t n" using pg_other(2) by (simp add: transit_rows_def)
  then show ?case using pg_other by simp
next
  case (pg_restarted st now)
  then show ?case by (simp add: load_from_pg_def)
qed

lemma blocked_for_good:
  assumes "(pg_transit_step env)\<^sup>*\<^sup>* st st'" "pg_transit_ok env st" "hm_get (pt_cache st) (t, n) = Some key"
    and "\<forall>r \<in> set (transit_rows (pt_table st) t n). kr_state r \<noteq> ''active''"
  shows "snd (pg_rotate_key env draws t n st') = Inl (KeyNotFound (t @ ''/'' @ n))"
proof -
  have "\<forall>r \<in> set (transit_rows (pt_table st') t n). kr_state r \<noteq> ''active''"
    using assms
  proof (induction rule: rtranclp_induct)
    case (step st1 st2)
    obtain key1 where "hm_get (pt_cache st1) (t, n) = Some key1"
      using pg_transit.steps_extend [OF step.hyps(1) step.prems(1,2)] by blast
    then show ?case
      using never_active_again [OF step.hyps(2) pg_transit.steps_ok [OF step.hyps(1) step.prems(1)]] step.IH step.prems by blast
  qed simp
  then have "active_descriptor_id_for (pt_table st') t n = Inl (KeyNotFound (t @ ''/'' @ n))" by (rule no_active_descriptor)
  moreover have "tenant_id_to_uuid env t = t" using pg_transit_okD(5) [OF assms(2,3)] by (simp add: tenant_id_to_uuid_def)
  ultimately show ?thesis by (simp add: pg_rotate_key_def Let_def split: option.split)
qed

lemma newest_row:
  assumes "pg_transit_ok env st" "hm_get (pt_cache st) (t, n) = Some key"
  shows "\<exists>r \<in> set (transit_rows (pt_table st) t n). kr_version r = sint (ty_current_version key)"
proof -
  let ?rows = "transit_rows (pt_table st) t n" and ?k = "length (ty_versions key) - 1"
  have key: "transit_key_ok n key" "list_all2 (row_holds env t n) ?rows (ty_versions key)"
    using pg_transit_okD(5) [OF assms] by blast+
  then have k: "?k < length ?rows" "length (ty_versions key) < 2 ^ 31" "?k + 1 = length (ty_versions key)"
    by (auto simp: transit_key_ok_def list_all2_conv_all_nth)
  have "kr_version (?rows ! ?k) = sint (ty_current_version key)"
    using held_versions(1) [OF key k(1)] sint_u32_of_nat [OF k(2)] transit_key_version(1) [OF key(1)] k(3) by simp
  then show ?thesis using nth_mem [OF k(1)] by blast
qed

lemma first_row:
  assumes "pg_transit_ok env st" "hm_get (pt_cache st) (t, n) = Some key"
  shows "\<exists>r \<in> set (transit_rows (pt_table st) t n). kr_version r = 1"
proof -
  let ?rows = "transit_rows (pt_table st) t n"
  have key: "transit_key_ok n key" "list_all2 (row_holds env t n) ?rows (ty_versions key)"
    using pg_transit_okD(5) [OF assms] by blast+
  then have "0 < length ?rows" by (auto simp: transit_key_ok_def list_all2_conv_all_nth)
  then show ?thesis using held_versions(1) [OF key, of 0] nth_mem [of 0 ?rows] by auto
qed

text \<open>The second rotation of a key to the same version retires its newest row and stops there.\<close>

lemma stale_rotation:
  assumes ok: "pg_transit_ok env st1" "hm_get (pt_cache st1) (t, n) = Some key1"
    and stale: "hm_get cache (t, n) = Some key" "ty_current_version key + 1 = ty_current_version key1"
    and rot: "pg_rotate_key env draws t n (st1\<lparr>pt_cache := cache\<rparr>) = (st2, res)"
  shows "isl res \<and> pg_transit_ok env (st1\<lparr>pt_table := pt_table st2\<rparr>) \<and>
    (\<forall>r \<in> set (transit_rows (pt_table st2) t n). kr_state r \<noteq> ''active'')"
proof -
  have key1: "tn_parse_uuid env t = Some t" "transit_key_ok n key1"
      "list_all2 (row_holds env t n) (transit_rows (pt_table st1) t n) (ty_versions key1)"
    using pg_transit_okD(5) [OF ok] by blast+
  have uuid: "tenant_id_to_uuid env t = t" using key1(1) by (simp add: tenant_id_to_uuid_def)
  show ?thesis
  proof (cases "active_descriptor_id_for (pt_table st1) t n")
    case (Inl e)
    then have "st2 = st1\<lparr>pt_cache := cache\<rparr>" "isl res" using rot stale(1) uuid by (auto simp: pg_rotate_key_def Let_def)
    moreover have "\<forall>r \<in> set (transit_rows (pt_table st1) t n). kr_state r \<noteq> ''active''"
      using Inl by (rule active_descriptor_none)
    ultimately show ?thesis using ok(1) by simp
  next
    case i: (Inr i)
    let ?table = "map (rotated_out (td_now draws) i) (pt_table st1)"
    note upd = update_succeeds [OF ok i, of "td_now draws"]
    obtain r where "r \<in> set (transit_rows (pt_table st1) t n)" "kr_version r = sint (ty_current_version key1)"
      using newest_row [OF ok] by blast
    then have "rotated_out (td_now draws) i r \<in> set ?table" "kr_purpose (rotated_out (td_now draws) i r) = ''transit''"
        "kr_tenant_id (rotated_out (td_now draws) i r) = Some t" "kr_version (rotated_out (td_now draws) i r) = sint (ty_current_version key + 1)"
      using stale(2) by (auto simp: transit_rows_def)
    from taken_version_refused [where parse = "tn_parse_uuid env", OF this key1(1)]
    have refused: "isl (insert_named_key_descriptor (tn_parse_uuid env) (tn_tenants env) (td_now draws)
        (transit_descriptor env draws t (ty_current_version key + 1)) w None (Some n) ?table)" for w .
    have "pt_table st2 = ?table \<and> isl res"
    proof (cases "wrap_material env (td_nonce draws) t n (ty_current_version key + 1) (td_material draws)")
      case (Inl e)
      then show ?thesis using rot stale(1) uuid i upd by (auto simp: pg_rotate_key_def Let_def)
    next
      case (Inr w)
      then show ?thesis using rot stale(1) uuid i upd refused [of w] by (auto simp: pg_rotate_key_def Let_def isl_def)
    qed
    then show ?thesis using retired_rows [OF ok i] rotated_table_ok [OF ok(1)] by simp
  qed
qed

section \<open>Properties\<close>

text \<open>C37. Whatever is encrypted under a transit key is decrypted by the same key after any further
  history of creations and rotations, successful or failing, of writes by other services
  and of restarts; and rewrapping it then encrypts the same plaintext again.\<close>

theorem transit_ciphertext_survives:
  assumes "pg_transit_reachable env st" "transit_get_key (pt_cache st) t n = Inr key" "length nonce = 12"
    and "transit_encrypt (tn_lib env) (Some nonce) key p = Some (Inr ct)" "(pg_transit_step env)\<^sup>*\<^sup>* st st'"
  shows "\<exists>key'. transit_get_key (pt_cache st') t n = Inr key' \<and> transit_decrypt (tn_lib env) key' ct = Inr p \<and>
    (\<forall>draw. transit_rewrap (tn_lib env) draw key' ct = transit_encrypt (tn_lib env) draw key' p)"
proof -
  have "hm_get (pt_cache st) (t, n) = Some key" using assms(2) by (simp add: transit_get_key_def result_iff)
  from pg_transit.ciphertext_survives [OF pg_transit_reachable_crypto [OF assms(1)] assms(3) pg_reachable_ok [OF assms(1)] this assms(4,5)]
  show ?thesis by (auto simp: transit_get_key_def transit_rewrap_def)
qed

text \<open>C38. Every key of either backend is well formed after any history: its versions are numbered
  from one without gaps, the current one is the last, each is 32 bytes long; so that
  encrypting and signing never index past the versions.\<close>

theorem transit_keys_well_formed:
  assumes "mem_transit_step\<^sup>*\<^sup>* [] cache \<or> (\<exists>env st. pg_transit_reachable env st \<and> cache = pt_cache st)"
    and "transit_get_key cache t n = Inr key"
  shows "ty_name key = n \<and> 0 < length (ty_versions key) \<and> unat (ty_current_version key) = length (ty_versions key) \<and>
    (\<forall>i < length (ty_versions key). tv_version (ty_versions key ! i) = of_nat (i + 1) \<and> length (tv_material (ty_versions key ! i)) = 32) \<and>
    current_material key \<noteq> None \<and> (\<forall>lib draw p. transit_encrypt lib draw key p \<noteq> None)"
proof -
  have get: "hm_get cache (t, n) = Some key" using assms(2) by (simp add: transit_get_key_def result_iff)
  have "mem_transit_ok []" by (simp add: mem_transit_ok_def)
  then have "transit_key_ok n key"
    using assms(1) get mem_transit.steps_ok mem_transit.key_ok pg_reachable_ok pg_transit.key_ok by blast
  then show ?thesis using transit_key_version(2) [of n key]
    by (auto simp: transit_key_ok_def transit_encrypt_def split: option.splits)
qed

text \<open>C39. A tenant can have one transit key only: the unique index over tenant, purpose and version
  does not count the name, so once a key exists the creation of any other fails.\<close>

theorem one_transit_key_per_tenant:
  assumes "pg_transit_reachable env st" "transit_get_key (pt_cache st) t n = Inr key"
  shows "fst (pg_create_key env draws t n' st) = st \<and> isl (snd (pg_create_key env draws t n' st))"
proof -
  note ok = pg_reachable_ok [OF assms(1)]
  have get: "hm_get (pt_cache st) (t, n) = Some key" using assms(2) by (simp add: transit_get_key_def result_iff)
  have uuid: "tn_parse_uuid env t = Some t" using pg_transit_okD(5) [OF ok get] by blast
  obtain r where "r \<in> set (pt_table st)" "kr_purpose r = ''transit''" "kr_tenant_id r = Some t" "kr_version r = sint (1 :: u32)"
    using first_row [OF ok get] by (auto simp: transit_rows_def)
  from taken_version_refused [where parse = "tn_parse_uuid env", OF this uuid]
  have "isl (insert_named_key_descriptor (tn_parse_uuid env) (tn_tenants env) (td_now draws)
      (transit_descriptor env draws (tenant_id_to_uuid env t) 1) w None (Some n') (pt_table st))" for w
    using uuid by (simp add: tenant_id_to_uuid_def)
  note refused = this
  show ?thesis
  proof (cases "wrap_material env (td_nonce draws) t n' 1 (td_material draws)")
    case (Inr w)
    then show ?thesis using refused [of w]
      by (cases "insert_named_key_descriptor (tn_parse_uuid env) (tn_tenants env) (td_now draws)
          (transit_descriptor env draws (tenant_id_to_uuid env t) 1) w None (Some n') (pt_table st)")
        (simp_all add: pg_create_key_def)
  qed (simp add: pg_create_key_def)
qed

text \<open>C40. Two replicas share the table, each with the keys it read when it started. When one rotates
  a key and then the other, the second rotation fails, but only after retiring the newest
  row; from then on no rotation of that key succeeds, whatever happens and whoever restarts.\<close>

theorem stale_replica_blocks_rotation:
  assumes "pg_transit_reachable env st" "transit_draws_ok draws" "transit_get_key (pt_cache st) t n = Inr key"
    and "unat (ty_current_version key) < 2 ^ 31 - 1"
    and "pg_rotate_key env draws t n st = (st1, Inr v)"
    and "pg_rotate_key env draws' t n (st1\<lparr>pt_cache := pt_cache st\<rparr>) = (st2, res)"
    and "(pg_transit_step env)\<^sup>*\<^sup>* (st1\<lparr>pt_table := pt_table st2\<rparr>) st3"
  shows "isl res \<and> snd (pg_rotate_key env draws'' t n st3) = Inl (KeyNotFound (t @ ''/'' @ n))"
proof -
  note ok = pg_reachable_ok [OF assms(1)]
  have get: "hm_get (pt_cache st) (t, n) = Some key" using assms(3) by (simp add: transit_get_key_def result_iff)
  have uuid: "tn_parse_uuid env t = Some t" using pg_transit_okD(5) [OF ok get] by blast
  have ok1: "pg_transit_ok env st1"
    using pg_step_ok [OF pg_rotated [OF assms(2) uuid] ok, of n] get assms(4,5) by simp
  obtain key1 where key1: "hm_get (pt_cache st1) (t, n) = Some key1" "ty_current_version key + 1 = ty_current_version key1"
    using assms(5) get by (cases rule: pg_rotate_key_cases [OF uuid assms(5)]) (auto simp: next_version_def)
  from stale_rotation [OF ok1 key1(1) get key1(2) assms(6)]
  have "isl res" "pg_transit_ok env (st1\<lparr>pt_table := pt_table st2\<rparr>)"
      "\<forall>r \<in> set (transit_rows (pt_table (st1\<lparr>pt_table := pt_table st2\<rparr>)) t n). kr_state r \<noteq> ''active''" by simp_all
  with blocked_for_good [OF assms(7) _ _ this(3)] key1(1) show ?thesis by simp
qed

section \<open>An example\<close>

definition demo_transit_env :: transit_env where
  "demo_transit_env =
     \<lparr>tn_lib = demo_lib, tn_root_key = replicate 32 0, tn_tenants = [''t''], tn_parse_uuid = Some,
      tn_sha256 = (\<lambda>_. []), tn_uuid_text = (\<lambda>_. [])\<rparr>"

definition demo_transit_draws :: "string \<Rightarrow> transit_draws" where
  "demo_transit_draws i = \<lparr>td_now = 0, td_material = replicate 32 1, td_nonce = Some (replicate 12 0), td_id = i\<rparr>"

definition demo_wrapped :: "u32 \<Rightarrow> string" where
  "demo_wrapped v = projr (wrap_material demo_transit_env (Some (replicate 12 0)) ''t'' ''k'' v (replicate 32 1))"

definition demo_transit_row :: "string \<Rightarrow> int \<Rightarrow> string \<Rightarrow> key_row" where
  "demo_transit_row i v w =
     \<lparr>kr_id = i, kr_version = v, kr_algorithm = ''aes-256-gcm'', kr_purpose = ''transit'', kr_state = ''active'',
      kr_tenant_id = Some ''t'', kr_wrapped_key = w, kr_parent_key_id = None, kr_created_at = 0, kr_rotated_at = None,
      kr_expires_at = None, kr_key_name = Some ''k''\<rparr>"

definition demo_transit :: pg_transit where
  "demo_transit = \<lparr>pt_table = [demo_transit_row ''a'' 1 (demo_wrapped 1)],
     pt_cache = [((''t'', ''k''), first_key (demo_transit_draws ''a'') ''k'')]\<rparr>"

lemma demo_transit_draws_ok: "transit_draws_ok (demo_transit_draws i)"
  by (simp add: transit_draws_ok_def demo_transit_draws_def)

lemma demo_wrap_material: "wrap_material demo_transit_env (Some (replicate 12 0)) ''t'' ''k'' v (replicate 32 1) = Inr (demo_wrapped v)"
  by (simp add: demo_wrapped_def wrap_material_def encrypt_with_dek_def generate_aes_gcm_nonce_def demo_transit_env_def
      del: demo_b64_encode.simps)

lemma demo_transit_start: "load_from_pg demo_transit_env 0 [] = \<lparr>pt_table = [], pt_cache = []\<rparr>"
  by (simp add: load_from_pg_def list_loadable_keys_with_wrapped_key_def list_recent_loadable_keys_def)

lemma demo_transit_created:
  "pg_create_key demo_transit_env (demo_transit_draws ''a'') ''t'' ''k'' \<lparr>pt_table = [], pt_cache = []\<rparr> = (demo_transit, Inr ())"
proof -
  have w: "wrap_material demo_transit_env (td_nonce (demo_transit_draws ''a'')) ''t'' ''k'' 1 (td_material (demo_transit_draws ''a'')) =
      Inr (demo_wrapped 1)" using demo_wrap_material by (simp add: demo_transit_draws_def)
  have "insert_named_key_descriptor (tn_parse_uuid demo_transit_env) (tn_tenants demo_transit_env) (td_now (demo_transit_draws ''a''))
      (transit_descriptor demo_transit_env (demo_transit_draws ''a'') (tenant_id_to_uuid demo_transit_env ''t'') 1)
      (demo_wrapped 1) None (Some ''k'') [] = Inr [demo_transit_row ''a'' 1 (demo_wrapped 1)]"
    by (simp add: insert_named_key_descriptor_def insert_key_row_def collides_def transit_descriptor_def tenant_id_to_uuid_def
        demo_transit_env_def demo_transit_draws_def demo_transit_row_def)
  with w show ?thesis by (simp add: pg_create_key_def demo_transit_def)
qed

lemma demo_transit_reachable: "pg_transit_reachable demo_transit_env demo_transit"
proof -
  have "pg_transit_step demo_transit_env \<lparr>pt_table = [], pt_cache = []\<rparr> demo_transit"
    using pg_created [OF demo_transit_draws_ok, of demo_transit_env "''t''" _ "''a''" "''k''"] demo_transit_created
    by (metis demo_transit_env_def fst_conv transit_env.select_convs(4))
  then have "(pg_transit_step demo_transit_env)\<^sup>*\<^sup>* (load_from_pg demo_transit_env 0 []) demo_transit" by (simp add: demo_transit_start)
  moreover have "crypto_ok (tn_lib demo_transit_env)" by (simp add: demo_transit_env_def demo_lib_ok)
  ultimately show ?thesis unfolding pg_transit_reachable_def by (auto intro!: exI [of _ 0] exI [of _ "[]"] simp: key_table_ok_def)
qed

lemma demo_transit_key: "transit_get_key (pt_cache demo_transit) ''t'' ''k'' = Inr (first_key (demo_transit_draws ''a'') ''k'')"
  by (simp add: transit_get_key_def demo_transit_def)

theorem transit_ciphertext_survives_witness:
  "\<exists>ct key'. transit_encrypt demo_lib (Some (replicate 12 7)) (first_key (demo_transit_draws ''a'') ''k'') [104, 105] = Some (Inr ct) \<and>
     transit_get_key (pt_cache (fst (pg_rotate_key demo_transit_env (demo_transit_draws ''b'') ''t'' ''k'' demo_transit))) ''t'' ''k'' = Inr key' \<and>
     transit_decrypt demo_lib key' ct = Inr [104, 105]"
proof -
  have lib: "tn_lib demo_transit_env = demo_lib" "tn_parse_uuid demo_transit_env ''t'' = Some ''t''" by (simp_all add: demo_transit_env_def)
  obtain ct where ct: "transit_encrypt demo_lib (Some (replicate 12 7)) (first_key (demo_transit_draws ''a'') ''k'') [104, 105] = Some (Inr ct)"
    by (simp add: transit_encrypt_def current_material_def material_for_version_def version_index_def first_key_def
        encrypt_with_dek_def generate_aes_gcm_nonce_def del: demo_b64_encode.simps)
  have step: "pg_transit_step demo_transit_env demo_transit (fst (pg_rotate_key demo_transit_env (demo_transit_draws ''b'') ''t'' ''k'' demo_transit))"
    by (rule pg_rotated [OF demo_transit_draws_ok lib(2)]) (simp add: demo_transit_def first_key_def)
  have "(pg_transit_step demo_transit_env)\<^sup>*\<^sup>* demo_transit (fst (pg_rotate_key demo_transit_env (demo_transit_draws ''b'') ''t'' ''k'' demo_transit))"
    using step by blast
  from transit_ciphertext_survives [OF demo_transit_reachable demo_transit_key, of "replicate 12 7" "[104, 105]" ct, OF _ _ this]
  show ?thesis using ct lib(1) by auto
qed

theorem transit_keys_well_formed_witness:
  "current_material (first_key (demo_transit_draws ''a'') ''k'') \<noteq> None \<and> length (ty_versions (first_key (demo_transit_draws ''a'') ''k'')) = 1"
  using transit_keys_well_formed [of "pt_cache demo_transit", OF _ demo_transit_key] demo_transit_reachable
  by (auto simp: first_key_def)

theorem one_transit_key_per_tenant_witness:
  "isl (snd (pg_create_key demo_transit_env (demo_transit_draws ''b'') ''t'' ''other'' demo_transit))"
  using one_transit_key_per_tenant [OF demo_transit_reachable demo_transit_key, of "demo_transit_draws ''b''" "''other''"] by blast

lemma demo_transit_rotated: "\<exists>st1. pg_rotate_key demo_transit_env (demo_transit_draws ''b'') ''t'' ''k'' demo_transit = (st1, Inr 2)"
proof -
  let ?a = "demo_transit_row ''a'' 1 (demo_wrapped 1)"
  have active: "active_descriptor_id_for [?a] ''t'' ''k'' = Inr ''a''" by (simp add: active_descriptor_id_for_def demo_transit_row_def)
  have upd: "update_key_state 0 ''a'' KeyRotatingOut [?a] = Inr [rotated_out 0 ''a'' ?a]"
    by (simp add: update_key_state_def collides_def rotated_out_def demo_transit_row_def)
  have "\<exists>table. insert_named_key_descriptor (tn_parse_uuid demo_transit_env) (tn_tenants demo_transit_env) 0
      (transit_descriptor demo_transit_env (demo_transit_draws ''b'') ''t'' 2) (demo_wrapped 2) None (Some ''k'') [rotated_out 0 ''a'' ?a] = Inr table"
    by (simp add: insert_named_key_descriptor_def insert_key_row_def collides_def kek_key_def name_key_def transit_descriptor_def
        demo_transit_env_def demo_transit_draws_def demo_transit_row_def rotated_out_def)
  then obtain table where ins: "insert_named_key_descriptor (tn_parse_uuid demo_transit_env) (tn_tenants demo_transit_env) 0
      (transit_descriptor demo_transit_env (demo_transit_draws ''b'') ''t'' 2) (demo_wrapped 2) None (Some ''k'') [rotated_out 0 ''a'' ?a] = Inr table" ..
  have wrap: "wrap_material demo_transit_env (td_nonce (demo_transit_draws ''b'')) ''t'' ''k'' 2 (td_material (demo_transit_draws ''b'')) = Inr (demo_wrapped 2)"
    using demo_wrap_material [of 2] by (simp add: demo_transit_draws_def)
  have "tenant_id_to_uuid demo_transit_env ''t'' = ''t''" "td_now (demo_transit_draws ''b'') = 0" "ty_current_version (first_key (demo_transit_draws ''a'') ''k'') + 1 = 2"
    by (simp_all add: tenant_id_to_uuid_def demo_transit_env_def demo_transit_draws_def first_key_def)
  then show ?thesis using active upd ins wrap by (simp add: pg_rotate_key_def demo_transit_def Let_def)
qed

theorem stale_replica_blocks_rotation_witness:
  "\<exists>st1 st2 res. pg_rotate_key demo_transit_env (demo_transit_draws ''b'') ''t'' ''k'' demo_transit = (st1, Inr 2) \<and>
     pg_rotate_key demo_transit_env (demo_transit_draws ''c'') ''t'' ''k'' (st1\<lparr>pt_cache := pt_cache demo_transit\<rparr>) = (st2, res) \<and> isl res \<and>
     snd (pg_rotate_key demo_transit_env (demo_transit_draws ''d'') ''t'' ''k'' (st1\<lparr>pt_table := pt_table st2\<rparr>)) = Inl (KeyNotFound ''t/k'')"
proof -
  obtain st1 where st1: "pg_rotate_key demo_transit_env (demo_transit_draws ''b'') ''t'' ''k'' demo_transit = (st1, Inr 2)"
    using demo_transit_rotated by blast
  obtain st2 res where st2: "pg_rotate_key demo_transit_env (demo_transit_draws ''c'') ''t'' ''k'' (st1\<lparr>pt_cache := pt_cache demo_transit\<rparr>) = (st2, res)"
    by (cases "pg_rotate_key demo_transit_env (demo_transit_draws ''c'') ''t'' ''k'' (st1\<lparr>pt_cache := pt_cache demo_transit\<rparr>)") simp
  have "unat (ty_current_version (first_key (demo_transit_draws ''a'') ''k'')) < 2 ^ 31 - 1" by (simp add: first_key_def)
  from stale_replica_blocks_rotation [OF demo_transit_reachable demo_transit_draws_ok demo_transit_key this st1 st2 rtranclp.rtrancl_refl]
  show ?thesis using st1 st2 by auto
qed

end
