(* ===== verification/Spec2Isabelle.thy ===== *)
theory Spec2Isabelle
  imports Secret_Path Policy_Engine KV_Store Secret_Lifecycle PG_Store Rotation_Sweep Region_Mesh Audit_Service Token_Signing Transit_Durability
begin

text \<open>
  \<^bold>\<open>A verification library of WSLVault.\<close>

  WSLVault is a multi-tenant secret store made of Rust services over PostgreSQL. A client
  reaches the secret-engine, which asks the policy-engine whether the caller may do what
  it asks, has the crypto-service encrypt or decrypt under the tenant's keys, and keeps
  ciphertext in memory or in PostgreSQL. The crypto-service holds its root key behind a
  Shamir seal. Regions replicate to each other by pulling the peer's outbox.

  \<^bold>\<open>Theories and sources\<close> (paths under \<^verbatim>\<open>src/\<close>).

  \<^descr>[\<open>Vault_Prelude\<close>] Results and the \<^verbatim>\<open>?\<close> operator, hash maps as association lists behind the
  locale \<open>keyed_map\<close>, strings and numbers of the standard library, the error type of
  \<^verbatim>\<open>crates/wslvault-core/src/error.rs\<close> with its codes, and the gRPC status type.

  \<^descr>[\<open>Secret_Path\<close>] \<^verbatim>\<open>services/secret-engine/src/path.rs\<close>: normalising and validating paths. The
  accepted inputs are characterised exactly.

  \<^descr>[\<open>Policy_Glob\<close>, \<open>Policy_Engine\<close>] \<^verbatim>\<open>services/policy-engine/src\<close>: the matcher of path patterns,
  equal to a semantics on lists of segments; evaluation, the store, the handlers and the
  background compilation, as a step relation over their interleavings.

  \<^descr>[\<open>Secret_Backend\<close>] The contract of a secret store as the locale \<open>versioned_store\<close>: last
  write wins, isolation. Both implementations below interpret it.

  \<^descr>[\<open>KV_Store\<close>] \<^verbatim>\<open>services/secret-engine/src/kv_store.rs\<close>: the in-memory store.

  \<^descr>[\<open>Secret_Lifecycle\<close>] The stored functions of \<^verbatim>\<open>storage/postgres/init/003_functions.sql\<close> and
  \<^verbatim>\<open>010_secret_lifecycle.sql\<close>: writes, deletion, two-phase rotation, rollback. An invariant
  over all of them gives that version numbers are never reused.

  \<^descr>[\<open>PG_Store\<close>] \<^verbatim>\<open>services/secret-engine/src/pg_store.rs\<close> over
  \<^verbatim>\<open>crates/wslvault-storage/src/secret_store.rs\<close> and \<^verbatim>\<open>quota_store.rs\<close>: the PostgreSQL store.

  \<^descr>[\<open>Rotation_Sweep\<close>] \<^verbatim>\<open>services/lease-manager/src/rotation.rs\<close>: the sweep that announces due
  rotations by webhook, with retries, and the cleanup of deprecated versions.

  \<^descr>[\<open>Envelope\<close>] \<^verbatim>\<open>crates/wslvault-core/src/crypto\<close>: envelope encryption over AES-GCM, HKDF and
  base64, which are the fields of the parameter \<open>crypto_lib\<close>.

  \<^descr>[\<open>Seal\<close>] \<^verbatim>\<open>crates/wslvault-core/src/seal.rs\<close>, its table and the operator endpoints
  \<^verbatim>\<open>services/crypto-service/src/sys.rs\<close>, over the Shamir library as a parameter.

  \<^descr>[\<open>Replication_Outbox\<close>] JSON values and the rows of the replication outbox.

  \<^descr>[\<open>Key_Table\<close>] \<^verbatim>\<open>crates/wslvault-storage/src/key_store.rs\<close>: the table of wrapped keys with its
  constraints.

  \<^descr>[\<open>Keyring\<close>, \<open>Crypto_Service\<close>] \<^verbatim>\<open>services/crypto-service/src/kek_store.rs\<close> (tenant and data
  keys, rotation, rehydration), \<^verbatim>\<open>root_key.rs\<close> and \<^verbatim>\<open>grpc.rs\<close>. The step relation
  \<open>crypto_step\<close> covers every procedure, seal change and foreign database change.

  \<^descr>[\<open>Key_Durability\<close>] What survives a restart of the crypto-service.

  \<^descr>[\<open>Replication_Apply\<close>, \<open>Replication_Flow\<close>] \<^verbatim>\<open>services/replication-agent/src\<close>: conflict
  resolution and the applier over the tables of a region, with the triggers that write its
  outbox and the setting that silences them; the peer API and the consumer.

  \<^descr>[\<open>Audit_Log\<close>, \<open>Audit_Service\<close>] \<^verbatim>\<open>services/audit-service/src\<close>,
  \<^verbatim>\<open>crates/wslvault-storage/src/audit_store.rs\<close> and \<^verbatim>\<open>022_audit_hash_chain.sql\<close>: signed records
  chained per tenant, both backends behind the locale \<open>audit_backend\<close>, the procedures, and
  what passing the checks says about a table others could write to.

  \<^descr>[\<open>Token_Auth\<close>, \<open>Token_Signing\<close>] \<^verbatim>\<open>crates/wslvault-core/src/auth.rs\<close>, by which every service
  resolves the caller; \<^verbatim>\<open>revocation_store.rs\<close> and \<^verbatim>\<open>signing_key_store.rs\<close> of
  \<^verbatim>\<open>wslvault-storage\<close>; \<^verbatim>\<open>token.rs\<close>, \<^verbatim>\<open>signing_keys.rs\<close> and the revocation procedures of the
  identity-service: tokens from issue to acceptance, and how long a revocation holds.

  \<^descr>[\<open>Transit_Keys\<close>, \<open>Transit_Store\<close>, \<open>Transit_Durability\<close>] \<^verbatim>\<open>services/transit-engine/src\<close>:
  \<^verbatim>\<open>key_store.rs\<close>, \<^verbatim>\<open>operations.rs\<close>, \<^verbatim>\<open>pg_store.rs\<close>. Named keys and their ciphertexts, both
  backends behind the locale \<open>transit_store\<close>, and what survives rotations, restarts and a
  second replica.

  \<^descr>[\<open>Region_Mesh\<close>] A key minted in one region used in another.

  \<^bold>\<open>Conventions.\<close> One operation of the source is one definition with the state it works on as
  argument and result; a lock or a transaction makes an operation atomic, and where the
  code releases it in between, the step relations interleave. Errors are values of a sum
  type. Tables are lists of rows with the constraints checked on writing. Time, random
  draws, fresh ids, environment variables and answers of other machines are arguments.
  Third-party code (ciphers, base64, the Shamir library, KMS, UUID and timestamp
  parsing) is a parameter; what the properties need of it is a named hypothesis
  (\<open>crypto_ok\<close>, \<open>sharks_ok\<close>), met by a concrete library that the
  witnesses evaluate. AES-GCM does not commit to its key, so where a property needs that
  another key does not open a ciphertext it says so of the keys and the ciphertext at
  hand.

  \<^bold>\<open>What the properties show.\<close> Functional characterisations and equivalences (policy
  evaluation, patterns, paths, envelopes); invariants of all reachable states (decisions
  on stored policies, unique version numbers, key chains, passivity of replication);
  refinement of one contract by two stores; isolation of tenants in stores, policies and
  keys; round trips across rotation, restart and regions; delivery of replicated events;
  and, where the code does not do what it means to, the exact behaviour it has instead.

  \<^bold>\<open>Bounds.\<close> No fuel is used: every recursion is structural or has a termination proof. Tables
  are assumed shorter than \<open>2 ^ 63\<close> rows where a query passes that limit. Characters are
  8-bit; \<^verbatim>\<open>i64\<close> counters and sequence numbers are unbounded integers where they only grow
  by batch sizes.

  \<^bold>\<open>Not modelled.\<close> Sockets, TLS, HTTP and gRPC framing, logging and metrics, process start-up
  beyond the choice of root key custody, zeroisation of memory, failures of a database
  connection (except in the rotation sweep), row-level security beyond the tenant filters of the queries, and the
  services and clients listed as such in the manifest: identity, PKI, MCP, connectors,
  the Kubernetes operator, the command line, the SDKs and the web interface.
\<close>

end
